theory Spec2Isabelle
  imports Complex_Main "HOL-Library.Word"
begin

unbundle bit_operations_syntax

section \<open>MD8800 VFD control: command codec and effect engine\<close>

text \<open>
  A shallow embedding of \<^verbatim>\<open>src/md8800_gui.py\<close>: the class \<^verbatim>\<open>VFD\<close> (the command
  codec writing to the serial port) and the effect engine of the class \<^verbatim>\<open>App\<close>
  (the start, stop and tick methods of the effects, the snake game, the Game of Life).
  Python integers are unbounded and are modelled as \<open>int\<close>; Python exceptions are
  values of \<open>py_error\<close>, and a method that can raise returns \<open>py_error + 'a\<close>.
  Random draws, the wall clock and the contents of the entry widgets are inputs of the
  functions that read them.
\<close>

subsection \<open>Python values\<close>

datatype py_error = IndexError | ValueError | ZeroDivisionError

text \<open>Sequencing: the second statement runs only when the first raised nothing.\<close>

definition and_then :: "py_error + 'a \<Rightarrow> ('a \<Rightarrow> py_error + 'b) \<Rightarrow> py_error + 'b" where
  "and_then m f = (case m of Inl e \<Rightarrow> Inl e | Inr x \<Rightarrow> f x)"

text \<open>\<^verbatim>\<open>bytes(xs)\<close> raises ValueError unless every element is in \<open>range(256)\<close>.\<close>

definition bytes :: "int list \<Rightarrow> py_error + int list" where
  "bytes xs = (if list_all (\<lambda>b. 0 \<le> b \<and> b < 256) xs then Inr xs else Inl ValueError)"

text \<open>
  \<^verbatim>\<open>xs[i]\<close>: a negative index counts from the end, an index out of range raises
  IndexError. The result is the position read or written.
\<close>

definition py_index :: "'a list \<Rightarrow> int \<Rightarrow> py_error + nat" where
  "py_index xs i =
     (let n = int (length xs); j = (if i < 0 then n + i else i)
      in if 0 \<le> j \<and> j < n then Inr (nat j) else Inl IndexError)"

text \<open>
  \<^verbatim>\<open>s.encode("ascii", "ignore")\<close>: the characters above code point 127 are dropped.
  A Python string is modelled as a \<open>string\<close>, so its code points are below 256.
\<close>

definition encode_ascii :: "string \<Rightarrow> int list" where
  "encode_ascii s = map of_char (filter (\<lambda>c. (of_char c :: nat) < 128) s)"

subsection \<open>The serial port and the command codec (class VFD)\<close>

text \<open>
  \<open>is_open\<close> stands for \<^verbatim>\<open>self.s and self.s.is_open\<close>; \<open>tx\<close> is the sequence of byte strings
  handed to \<^verbatim>\<open>self.s.write\<close>, oldest first. \<^verbatim>\<open>send\<close> on a closed port logs an error
  and writes nothing. The write of the serial driver is taken to succeed (the source
  catches and logs its exception, and nothing reaches the wire then).
\<close>

record VFD =
  is_open :: bool
  tx :: "int list list"

definition send :: "int list \<Rightarrow> VFD \<Rightarrow> VFD" where
  "send b v = (if \<not> is_open v then v else v\<lparr>tx := tx v @ [b]\<rparr>)"

definition ESC :: "int \<Rightarrow> int list \<Rightarrow> VFD \<Rightarrow> py_error + VFD" where
  "ESC code params v =
     (case bytes ([0x1B, code] @ params) of
        Inl e \<Rightarrow> Inl e
      | Inr b \<Rightarrow> Inr (send b v))"

definition mode_line1 :: "VFD \<Rightarrow> py_error + VFD" where
  "mode_line1 v = ESC 0x21 [] v"

definition mode_line2 :: "VFD \<Rightarrow> py_error + VFD" where
  "mode_line2 v = ESC 0x22 [] v"

definition pos1 :: "VFD \<Rightarrow> py_error + VFD" where
  "pos1 v = ESC 0x51 [] v"

definition write_text :: "string \<Rightarrow> VFD \<Rightarrow> VFD" where
  "write_text s v = send (encode_ascii s) v"

text \<open>
  \<^verbatim>\<open>datetime.datetime\<close>: the fields the program reads. \<open>datetime_ok\<close> is the range of
  values a datetime object can hold (years 1 to 9999, days within the month).
\<close>

record datetime =
  year :: int
  month :: int
  day :: int
  hour :: int
  minute :: int
  second :: int

definition is_leap :: "int \<Rightarrow> bool" where
  "is_leap y = (y mod 4 = 0 \<and> (y mod 100 \<noteq> 0 \<or> y mod 400 = 0))"

definition days_in_month :: "int \<Rightarrow> int \<Rightarrow> int" where
  "days_in_month y mo =
     (if mo = 2 then (if is_leap y then 29 else 28)
      else if mo = 4 \<or> mo = 6 \<or> mo = 9 \<or> mo = 11 then 30 else 31)"

definition datetime_ok :: "datetime \<Rightarrow> bool" where
  "datetime_ok dt =
     (1 \<le> year dt \<and> year dt \<le> 9999 \<and> 1 \<le> month dt \<and> month dt \<le> 12 \<and>
      1 \<le> day dt \<and> day dt \<le> days_in_month (year dt) (month dt) \<and>
      0 \<le> hour dt \<and> hour dt \<le> 23 \<and> 0 \<le> minute dt \<and> minute dt \<le> 59 \<and>
      0 \<le> second dt \<and> second dt \<le> 59)"

definition clock_set :: "datetime \<Rightarrow> VFD \<Rightarrow> py_error + VFD" where
  "clock_set dt v =
     (let m = minute dt; h = hour dt; d = day dt; mo = month dt; y = year dt
      in ESC 0x00 [m, h, d, mo, drop_bit 8 y AND 0xFF, y AND 0xFF] v)"

text \<open>
  The decoder the round trip of the specification speaks of: the six bytes after the
  escape code, the year recombined big-endian. It returns minute, hour, day, month, year.
\<close>

definition decode_clock :: "int list \<Rightarrow> (int \<times> int \<times> int \<times> int \<times> int) option" where
  "decode_clock bs =
     (case bs of
        [m, h, d, mo, yhi, ylo] \<Rightarrow> Some (m, h, d, mo, yhi * 256 + ylo)
      | _ \<Rightarrow> None)"

definition icon_brightness :: "int \<Rightarrow> int \<Rightarrow> VFD \<Rightarrow> py_error + VFD" where
  "icon_brightness sub level v =
     (let lvl = max 0 (min 6 level)
      in ESC 0x30 [sub AND 0xFF, lvl AND 0xFF] v)"

definition icon_bool :: "int \<Rightarrow> bool \<Rightarrow> VFD \<Rightarrow> py_error + VFD" where
  "icon_bool sub on v = ESC 0x30 [sub AND 0xFF, (if on then 0x01 else 0x00)] v"

text \<open>
  The mini-matrix frame: \<^verbatim>\<open>ESC 31\<close> and nine columns, which the device wants from
  right to left.
\<close>

definition mm_send_cols :: "int list \<Rightarrow> VFD \<Rightarrow> py_error + VFD" where
  "mm_send_cols cols9_left_to_right v =
     (let cols = rev cols9_left_to_right
      in case bytes ([0x1B, 0x31] @ map (\<lambda>c. c AND 0x7F) cols) of
           Inl e \<Rightarrow> Inl e
         | Inr b \<Rightarrow> Inr (send b v))"

definition mm_clear :: "VFD \<Rightarrow> VFD" where
  "mm_clear v = send ([0x1B, 0x31] @ replicate 9 0) v"


text \<open>\<^verbatim>\<open>for sub in subs: self.icon_bool(sub, on)\<close>\<close>

fun icons_bool :: "int list \<Rightarrow> bool \<Rightarrow> VFD \<Rightarrow> py_error + VFD" where
  "icons_bool [] on v = Inr v"
| "icons_bool (sub # subs) on v = and_then (icon_bool sub on v) (icons_bool subs on)"

text \<open>\<^verbatim>\<open>for sub in subs: self.icon_brightness(sub, level)\<close>\<close>

fun icons_brightness :: "int list \<Rightarrow> int \<Rightarrow> VFD \<Rightarrow> py_error + VFD" where
  "icons_brightness [] level v = Inr v"
| "icons_brightness (sub # subs) level v =
     and_then (icon_brightness sub level v) (icons_brightness subs level)"

definition set_record :: "bool \<Rightarrow> VFD \<Rightarrow> py_error + VFD" where
  "set_record on v = icon_bool 0x08 on v"

definition set_email_white :: "bool \<Rightarrow> VFD \<Rightarrow> py_error + VFD" where
  "set_email_white on v = icon_bool 0x09 on v"

definition set_email_red :: "bool \<Rightarrow> VFD \<Rightarrow> py_error + VFD" where
  "set_email_red on v = icon_bool 0x0A on v"

definition set_volume_level :: "int \<Rightarrow> VFD \<Rightarrow> py_error + VFD" where
  "set_volume_level level v =
     (let lvl = max 0 (min 8 level);
          bar_ids = [0x0B, 0x0C, 0x0D, 0x0E, 0x0F, 0x10, 0x11]
      in and_then (icons_bool [0x0B, 0x0C, 0x0D, 0x0E, 0x0F, 0x10, 0x11, 0x12] False v) (\<lambda>v.
         and_then (icons_bool (take (nat (min lvl 7)) bar_ids) True v) (\<lambda>v.
         icon_bool 0x12 (lvl = 8) v)))"

definition set_wifi_level :: "int \<Rightarrow> VFD \<Rightarrow> py_error + VFD" where
  "set_wifi_level level v =
     (let lvl = max 0 (min 3 level)
      in and_then (icons_bool [0x15, 0x16, 0x17] False v) (\<lambda>v.
         and_then (if lvl \<ge> 1 then icon_bool 0x15 True v else Inr v) (\<lambda>v.
         and_then (if lvl \<ge> 2 then icon_bool 0x16 True v else Inr v) (\<lambda>v.
         (if lvl \<ge> 3 then icon_bool 0x17 True v else Inr v)))))"

text \<open>\<^verbatim>\<open>vfd.open\<close> when the port opens, \<^verbatim>\<open>vfd.close\<close>, and \<^verbatim>\<open>RESET\<close>.\<close>

definition vfd_open :: "VFD \<Rightarrow> VFD" where
  "vfd_open v = v\<lparr>is_open := True\<rparr>"

definition vfd_close :: "VFD \<Rightarrow> VFD" where
  "vfd_close v = v\<lparr>is_open := False\<rparr>"

definition RESET :: "VFD \<Rightarrow> VFD" where
  "RESET v = send [0x1F] v"

definition mode_2line :: "VFD \<Rightarrow> py_error + VFD" where
  "mode_2line v = ESC 0x20 [] v"

subsection \<open>The state of the effect engine (class App)\<close>

text \<open>
  The effects of the effect library. \<open>loop s X\<close> is the flag \<^verbatim>\<open>self.loop_x\<close> of the effect
  and \<open>ms s X\<close> its period \<^verbatim>\<open>self.ms_x\<close>: \<open>VolSweep\<close> for \<^verbatim>\<open>loop_vol_sweep\<close>, \<open>MiniRain\<close> for
  \<^verbatim>\<open>loop_mini_rain\<close>, \<open>MiniSnake\<close> for \<^verbatim>\<open>loop_mini_snake\<close> (the decorative path snake),
  \<open>BouncyBall\<close> for \<^verbatim>\<open>loop_ball\<close>, \<open>SnakeGame\<close> for \<^verbatim>\<open>loop_snake_game\<close>, and so on. The clock
  text, the clock synchronisation and the psutil meters (host metrics, outside the
  effect library) are not modelled.
\<close>

datatype effect =
    VolSweep | WifiScan | IconWave | Marquee | Cylon | Spin | Twinkle
  | IconCarousel | IconPulse | EmailBlink | RecordBlink | TextBounce
  | MiniRain | MiniSnake
  | BouncyBall | Stickman | Gol | ClockBars | SnakeGame

text \<open>
  A callback registered with \<^verbatim>\<open>self.after(ms, callback)\<close>: the tick method, with the
  arguments its lambda has captured.
\<close>

datatype callback =
    VolSweepTick int int | WifiScanTick int | IconWaveTick int int | MarqueeTick
  | CylonTick int int | SpinTick | TwinkleTick | IconCarouselTick | IconPulseTick
  | EmailBlinkTick | RecordBlinkTick | TextBounceTick | RainTick | SnakeTick
  | BallTick | StickmanTick | GolTick | ClockBarsTick | SnakeGameTick

text \<open>
  The attributes of the application the effects read and write. \<open>timers\<close> holds the
  callbacks registered with \<^verbatim>\<open>after\<close> that have not run yet, each with its delay, in
  the order of registration. Cells of the mini-matrix are pairs (row, column).
\<close>

record app =
  vfd :: VFD
  loop :: "effect \<Rightarrow> bool"
  ms :: "effect \<Rightarrow> int"
  timers :: "(int \<times> callback) list"
  marquee_offset :: int
  spin_state :: int
  spin_frames :: "int list list"
  twinkle_cols :: "int list"
  icon_carousel_idx :: int
  icon_pulse_phase :: int
  email_state :: int
  rec_on :: bool
  bounce_dir :: int
  bounce_pos :: int
  rain_drops :: "(int \<times> int) list"
  snake_idx :: int
  ball_pos :: "int \<times> int"
  ball_vel :: "int \<times> int"
  stick_col :: int
  stick_idx :: int
  gol_grid :: "int list list"
  g_snake :: "(int \<times> int) list"
  g_dir :: "int \<times> int"
  g_pending :: "int \<times> int"
  g_food :: "int \<times> int"
  g_score :: int
  g_paused :: bool

text \<open>
  What a handler reads from outside the program while it runs: the draws of the random
  generator, the wall clock, the entry widgets.
  \<^item> \<open>twinkle_draws\<close>: the three pairs \<^verbatim>\<open>(randint(0,8), randint(0,6))\<close> of a twinkle tick;
  \<^item> \<open>rain_u\<close>: the value of \<^verbatim>\<open>random.random()\<close>, a double and so a rational number;
    \<open>rain_col\<close>: the value of \<^verbatim>\<open>random.randint(0,8)\<close>;
  \<^item> \<open>food_pick\<close>: the draw behind \<^verbatim>\<open>random.choice(free)\<close>; the cell chosen is the one
    at position \<open>food_pick mod length free\<close>, so that the draws span exactly the cells
    \<^verbatim>\<open>random.choice\<close> can return;
  \<^item> \<open>grid_draws\<close>: the 63 values of \<^verbatim>\<open>random.random()\<close> behind \<^verbatim>\<open>_rand_grid\<close>, in the
    order drawn;
  \<^item> \<open>now\<close>: \<^verbatim>\<open>datetime.datetime.now()\<close>;
  \<^item> the values of the marquee and bounce entry widgets.
\<close>

record env =
  twinkle_draws :: "(int \<times> int) \<times> (int \<times> int) \<times> (int \<times> int)"
  rain_u :: rat
  rain_col :: int
  food_pick :: nat
  grid_draws :: "nat \<Rightarrow> rat"
  now :: datetime
  marquee_line :: string
  marquee_text :: string
  bounce_line :: string
  bounce_text :: string

definition after :: "int \<Rightarrow> callback \<Rightarrow> app \<Rightarrow> app" where
  "after delay cb s = s\<lparr>timers := timers s @ [(delay, cb)]\<rparr>"

text \<open>A method of \<^verbatim>\<open>self.vfd\<close> called from the application.\<close>

definition on_vfd :: "(VFD \<Rightarrow> py_error + VFD) \<Rightarrow> app \<Rightarrow> py_error + app" where
  "on_vfd f s = (case f (vfd s) of Inl e \<Rightarrow> Inl e | Inr v \<Rightarrow> Inr (s\<lparr>vfd := v\<rparr>))"

text \<open>
  \<^verbatim>\<open>(self.vfd.mode_line1() if line==0 else self.vfd.mode_line2()); self.vfd.pos1();
  self.vfd.write_text(chunk)\<close>
\<close>

definition write_line :: "int \<Rightarrow> string \<Rightarrow> app \<Rightarrow> py_error + app" where
  "write_line line chunk s =
     and_then (on_vfd (if line = 0 then mode_line1 else mode_line2) s) (\<lambda>s.
     and_then (on_vfd pos1 s) (\<lambda>s.
     Inr (s\<lparr>vfd := write_text chunk (vfd s)\<rparr>)))"

text \<open>
  \<^verbatim>\<open>cols[c] |= (1 << r)\<close> for a cell (r, c): the index is resolved first (IndexError),
  then the shift is computed (ValueError for a negative count).
\<close>

definition set_px :: "int list \<Rightarrow> int \<times> int \<Rightarrow> py_error + int list" where
  "set_px cols cell =
     (case cell of (r, c) \<Rightarrow>
        (case py_index cols c of
           Inl e \<Rightarrow> Inl e
         | Inr j \<Rightarrow> if r < 0 then Inl ValueError
                    else Inr (cols[j := cols ! j OR push_bit (nat r) 1])))"

text \<open>\<^verbatim>\<open>for (r,c) in cells: cols[c] |= (1 << r)\<close>\<close>

fun plot :: "(int \<times> int) list \<Rightarrow> int list \<Rightarrow> py_error + int list" where
  "plot [] cols = Inr cols"
| "plot (cell # cells) cols = and_then (set_px cols cell) (plot cells)"

definition fps_to_ms :: "int \<Rightarrow> int" where
  "fps_to_ms fps = max 10 (1000 div max 1 (min 60 fps))"

definition stop_all_mm :: "app \<Rightarrow> app" where
  "stop_all_mm s =
     s\<lparr>loop := (loop s)(Spin := False, Twinkle := False,
                         MiniRain := False, MiniSnake := False,
                         BouncyBall := False, Stickman := False,
                         Gol := False, ClockBars := False,
                         SnakeGame := False),
       vfd := mm_clear (vfd s)\<rparr>"


subsection \<open>The effects kept from v7\<close>

text \<open>
  Every tick first checks its flag. A tick that runs ends by registering itself with
  \<^verbatim>\<open>after\<close>. A start method calls the first tick itself.
\<close>

definition vol_sweep_tick :: "int \<Rightarrow> int \<Rightarrow> app \<Rightarrow> py_error + app" where
  "vol_sweep_tick lvl step s =
     (if \<not> loop s VolSweep then Inr s
      else and_then (on_vfd (set_volume_level lvl) s) (\<lambda>s.
        let nxt = lvl + step;
            (nxt, step) = (if nxt > 8 then (7, -1) else (nxt, step));
            (nxt, step) = (if nxt < 0 then (1, 1) else (nxt, step))
        in Inr (after (ms s VolSweep) (VolSweepTick nxt step) s)))"

definition vol_sweep_start :: "app \<Rightarrow> py_error + app" where
  "vol_sweep_start s =
     (if loop s VolSweep then Inr s
      else vol_sweep_tick 0 1 (s\<lparr>loop := (loop s)(VolSweep := True)\<rparr>))"

definition vol_sweep_stop :: "app \<Rightarrow> py_error + app" where
  "vol_sweep_stop s = Inr (s\<lparr>loop := (loop s)(VolSweep := False)\<rparr>)"

definition wifi_scan_tick :: "int \<Rightarrow> app \<Rightarrow> py_error + app" where
  "wifi_scan_tick state s =
     (if \<not> loop s WifiScan then Inr s
      else let sq = [0, 1, 2, 3, 2, 1]
        in and_then (on_vfd (set_wifi_level (sq ! nat (state mod int (length sq)))) s) (\<lambda>s.
           Inr (after (ms s WifiScan) (WifiScanTick (state + 1)) s)))"

definition wifi_scan_start :: "app \<Rightarrow> py_error + app" where
  "wifi_scan_start s =
     (if loop s WifiScan then Inr s
      else wifi_scan_tick 0 (s\<lparr>loop := (loop s)(WifiScan := True)\<rparr>))"

definition wifi_scan_stop :: "app \<Rightarrow> py_error + app" where
  "wifi_scan_stop s = on_vfd (set_wifi_level 0) (s\<lparr>loop := (loop s)(WifiScan := False)\<rparr>)"

definition icon_wave_tick :: "int \<Rightarrow> int \<Rightarrow> app \<Rightarrow> py_error + app" where
  "icon_wave_tick lvl step s =
     (if \<not> loop s IconWave then Inr s
      else and_then (on_vfd (icons_brightness [0x00 .. 0x07] lvl) s) (\<lambda>s.
        let nxt = lvl + step;
            (nxt, step) = (if nxt > 6 then (5, -1) else (nxt, step));
            (nxt, step) = (if nxt < 0 then (1, 1) else (nxt, step))
        in Inr (after (ms s IconWave) (IconWaveTick nxt step) s)))"

definition icon_wave_start :: "app \<Rightarrow> py_error + app" where
  "icon_wave_start s =
     (if loop s IconWave then Inr s
      else icon_wave_tick 0 1 (s\<lparr>loop := (loop s)(IconWave := True)\<rparr>))"

definition icon_wave_stop :: "app \<Rightarrow> py_error + app" where
  "icon_wave_stop s =
     on_vfd (icons_brightness [0x00 .. 0x07] 0) (s\<lparr>loop := (loop s)(IconWave := False)\<rparr>)"

text \<open>
  The marquee: \<^verbatim>\<open>raw = self.marquee_text.get() or ""\<close> is the text itself; the window is
  \<^verbatim>\<open>s[i:i+16]\<close>.
\<close>

definition marquee_tick :: "env \<Rightarrow> app \<Rightarrow> py_error + app" where
  "marquee_tick e s =
     (if \<not> loop s Marquee then Inr s
      else let line = (if marquee_line e = ''0'' then 0 else 1);
               raw = marquee_text e;
               t = replicate 16 CHR '' '' @ raw @ replicate 16 CHR '' '';
               i = marquee_offset s mod (int (length t) - 15);
               chunk = take 16 (drop (nat i) t)
        in and_then (write_line line chunk s) (\<lambda>s.
           Inr (after (ms s Marquee) MarqueeTick
                  (s\<lparr>marquee_offset := marquee_offset s + 1\<rparr>))))"

definition marquee_start :: "env \<Rightarrow> app \<Rightarrow> py_error + app" where
  "marquee_start e s =
     (if loop s Marquee then Inr s
      else marquee_tick e (s\<lparr>loop := (loop s)(Marquee := True), marquee_offset := 0\<rparr>))"

definition marquee_stop :: "app \<Rightarrow> py_error + app" where
  "marquee_stop s = Inr (s\<lparr>loop := (loop s)(Marquee := False)\<rparr>)"

definition cylon_tick :: "int \<Rightarrow> int \<Rightarrow> app \<Rightarrow> py_error + app" where
  "cylon_tick pos step s =
     (if \<not> loop s Cylon then Inr s
      else let level = min 7 (max 0 (pos + 1))
        in and_then (on_vfd (set_volume_level level) s) (\<lambda>s.
           let nxt = pos + step;
               (nxt, step) = (if nxt > 6 then (5, -1) else (nxt, step));
               (nxt, step) = (if nxt < 0 then (1, 1) else (nxt, step))
           in Inr (after (ms s Cylon) (CylonTick nxt step) s)))"

definition cylon_start :: "app \<Rightarrow> py_error + app" where
  "cylon_start s =
     (if loop s Cylon then Inr s
      else cylon_tick 0 1 (s\<lparr>loop := (loop s)(Cylon := True)\<rparr>))"

definition cylon_stop :: "app \<Rightarrow> py_error + app" where
  "cylon_stop s = on_vfd (set_volume_level 0) (s\<lparr>loop := (loop s)(Cylon := False)\<rparr>)"

definition spin_tick :: "app \<Rightarrow> py_error + app" where
  "spin_tick s =
     (if \<not> loop s Spin then Inr s
      else if spin_frames s = [] then Inl ZeroDivisionError
      else let frame = spin_frames s ! nat (spin_state s mod int (length (spin_frames s)))
        in and_then (on_vfd (mm_send_cols frame) s) (\<lambda>s.
           Inr (after (ms s Spin) SpinTick (s\<lparr>spin_state := spin_state s + 1\<rparr>))))"

definition spin_start :: "app \<Rightarrow> py_error + app" where
  "spin_start s =
     (if loop s Spin then Inr s
      else spin_tick
        (s\<lparr>loop := (loop s)(Spin := True), spin_state := 0,
           spin_frames :=
             [[0x00, 0x08, 0x08, 0x08, 0x7F, 0x08, 0x08, 0x08, 0x00],
              [0x00, 0x00, 0x00, 0x7F, 0x08, 0x7F, 0x00, 0x00, 0x00],
              [0x00, 0x10, 0x10, 0x10, 0x7F, 0x10, 0x10, 0x10, 0x00],
              [0x00, 0x00, 0x00, 0x7F, 0x08, 0x7F, 0x00, 0x00, 0x00]]\<rparr>))"

definition spin_stop :: "app \<Rightarrow> py_error + app" where
  "spin_stop s = Inr (s\<lparr>loop := (loop s)(Spin := False), vfd := mm_clear (vfd s)\<rparr>)"

text \<open>\<^verbatim>\<open>cols[c] ^= (1 << r)\<close> for each of the draws (c, r) of a twinkle tick.\<close>

definition flip_px :: "int list \<Rightarrow> int \<times> int \<Rightarrow> py_error + int list" where
  "flip_px cols draw =
     (case draw of (c, r) \<Rightarrow>
        (case py_index cols c of
           Inl e \<Rightarrow> Inl e
         | Inr j \<Rightarrow> if r < 0 then Inl ValueError
                    else Inr (cols[j := cols ! j XOR push_bit (nat r) 1])))"

fun flips :: "(int \<times> int) list \<Rightarrow> int list \<Rightarrow> py_error + int list" where
  "flips [] cols = Inr cols"
| "flips (d # ds) cols = and_then (flip_px cols d) (flips ds)"

definition twinkle_tick :: "env \<Rightarrow> app \<Rightarrow> py_error + app" where
  "twinkle_tick e s =
     (if \<not> loop s Twinkle then Inr s
      else and_then (case twinkle_draws e of (d1, d2, d3) \<Rightarrow>
                       flips [d1, d2, d3] (twinkle_cols s)) (\<lambda>cols.
           let s = s\<lparr>twinkle_cols := map (\<lambda>c. c AND 0x7F) cols\<rparr>
           in and_then (on_vfd (mm_send_cols (twinkle_cols s)) s) (\<lambda>s.
              Inr (after (ms s Twinkle) TwinkleTick s))))"

definition twinkle_start :: "env \<Rightarrow> app \<Rightarrow> py_error + app" where
  "twinkle_start e s =
     (if loop s Twinkle then Inr s
      else twinkle_tick e
        (s\<lparr>loop := (loop s)(Twinkle := True), twinkle_cols := replicate 9 0\<rparr>))"

definition twinkle_stop :: "app \<Rightarrow> py_error + app" where
  "twinkle_stop s = Inr (s\<lparr>loop := (loop s)(Twinkle := False), vfd := mm_clear (vfd s)\<rparr>)"

definition icon_carousel_tick :: "app \<Rightarrow> py_error + app" where
  "icon_carousel_tick s =
     (if \<not> loop s IconCarousel then Inr s
      else let i = icon_carousel_idx s mod 8
        in and_then (on_vfd (icons_brightness [0x00 .. 0x07] 0) s) (\<lambda>s.
           and_then (on_vfd (icon_brightness (0x00 + i) 6) s) (\<lambda>s.
           Inr (after (ms s IconCarousel) IconCarouselTick
                  (s\<lparr>icon_carousel_idx := icon_carousel_idx s + 1\<rparr>)))))"

definition icon_carousel_start :: "app \<Rightarrow> py_error + app" where
  "icon_carousel_start s =
     (if loop s IconCarousel then Inr s
      else icon_carousel_tick
        (s\<lparr>loop := (loop s)(IconCarousel := True), icon_carousel_idx := 0\<rparr>))"

definition icon_carousel_stop :: "app \<Rightarrow> py_error + app" where
  "icon_carousel_stop s =
     on_vfd (icons_brightness [0x00 .. 0x07] 0) (s\<lparr>loop := (loop s)(IconCarousel := False)\<rparr>)"

text \<open>
  \<^verbatim>\<open>for i in range(8): p = (phase + i*2) % 12; lvl = p if p <= 6 else 12 - p;
  self.vfd.icon_brightness(0x00 + i, lvl)\<close>
\<close>

fun pulse_icons :: "int list \<Rightarrow> int \<Rightarrow> VFD \<Rightarrow> py_error + VFD" where
  "pulse_icons [] phase v = Inr v"
| "pulse_icons (i # is) phase v =
     (let p = (phase + i * 2) mod 12;
          lvl = (if p \<le> 6 then p else 12 - p)
      in and_then (icon_brightness (0x00 + i) lvl v) (pulse_icons is phase))"

definition icon_pulse_tick :: "app \<Rightarrow> py_error + app" where
  "icon_pulse_tick s =
     (if \<not> loop s IconPulse then Inr s
      else and_then (on_vfd (pulse_icons [0 .. 7] (icon_pulse_phase s)) s) (\<lambda>s.
           Inr (after (ms s IconPulse) IconPulseTick
                  (s\<lparr>icon_pulse_phase := (icon_pulse_phase s + 1) mod 12\<rparr>))))"

definition icon_pulse_start :: "app \<Rightarrow> py_error + app" where
  "icon_pulse_start s =
     (if loop s IconPulse then Inr s
      else icon_pulse_tick (s\<lparr>loop := (loop s)(IconPulse := True), icon_pulse_phase := 0\<rparr>))"

definition icon_pulse_stop :: "app \<Rightarrow> py_error + app" where
  "icon_pulse_stop s =
     on_vfd (icons_brightness [0x00 .. 0x07] 0) (s\<lparr>loop := (loop s)(IconPulse := False)\<rparr>)"

definition email_blink_tick :: "app \<Rightarrow> py_error + app" where
  "email_blink_tick s =
     (if \<not> loop s EmailBlink then Inr s
      else let st = email_state s mod 4
        in and_then (on_vfd (set_email_white (st = 1 \<or> st = 3)) s) (\<lambda>s.
           and_then (on_vfd (set_email_red (st = 2 \<or> st = 3)) s) (\<lambda>s.
           Inr (after (ms s EmailBlink) EmailBlinkTick
                  (s\<lparr>email_state := email_state s + 1\<rparr>)))))"

definition email_blink_start :: "app \<Rightarrow> py_error + app" where
  "email_blink_start s =
     (if loop s EmailBlink then Inr s
      else email_blink_tick (s\<lparr>loop := (loop s)(EmailBlink := True), email_state := 0\<rparr>))"

definition email_blink_stop :: "app \<Rightarrow> py_error + app" where
  "email_blink_stop s =
     and_then (on_vfd (set_email_white False) (s\<lparr>loop := (loop s)(EmailBlink := False)\<rparr>))
       (on_vfd (set_email_red False))"

definition record_blink_tick :: "app \<Rightarrow> py_error + app" where
  "record_blink_tick s =
     (if \<not> loop s RecordBlink then Inr s
      else let s = s\<lparr>rec_on := \<not> rec_on s\<rparr>
        in and_then (on_vfd (set_record (rec_on s)) s) (\<lambda>s.
           Inr (after (ms s RecordBlink) RecordBlinkTick s)))"

definition record_blink_start :: "app \<Rightarrow> py_error + app" where
  "record_blink_start s =
     (if loop s RecordBlink then Inr s
      else record_blink_tick (s\<lparr>loop := (loop s)(RecordBlink := True), rec_on := False\<rparr>))"

definition record_blink_stop :: "app \<Rightarrow> py_error + app" where
  "record_blink_stop s = on_vfd (set_record False) (s\<lparr>loop := (loop s)(RecordBlink := False)\<rparr>)"

text \<open>
  \<^verbatim>\<open>str.strip()\<close> removes the white space at both ends; of the code points below 256
  these are 9 to 13, 28 to 32, 133 and 160.
\<close>

definition py_isspace :: "char \<Rightarrow> bool" where
  "py_isspace ch =
     (let n = (of_char ch :: nat)
      in (9 \<le> n \<and> n \<le> 13) \<or> (28 \<le> n \<and> n \<le> 32) \<or> n = 133 \<or> n = 160)"

definition strip :: "string \<Rightarrow> string" where
  "strip t = rev (dropWhile py_isspace (rev (dropWhile py_isspace t)))"

definition text_bounce_tick :: "env \<Rightarrow> app \<Rightarrow> py_error + app" where
  "text_bounce_tick e s =
     (if \<not> loop s TextBounce then Inr s
      else let line = (if bounce_line e = ''0'' then 0 else 1);
               raw = strip (if bounce_text e = [] then '' '' else bounce_text e);
               t = take 16 raw;
               width = 16;
               n = max 0 (width - int (length t));
               chunk = replicate (nat (bounce_pos s)) CHR '' '' @ t
                         @ replicate (nat (n - bounce_pos s)) CHR '' ''
        in and_then (write_line line (take 16 chunk) s) (\<lambda>s.
           let s = (if n > 0
                    then let s = s\<lparr>bounce_pos := bounce_pos s + bounce_dir s\<rparr>;
                             s = (if bounce_pos s \<ge> n
                                  then s\<lparr>bounce_pos := n, bounce_dir := -1\<rparr> else s);
                             s = (if bounce_pos s \<le> 0
                                  then s\<lparr>bounce_pos := 0, bounce_dir := 1\<rparr> else s)
                         in s
                    else s)
           in Inr (after (ms s TextBounce) TextBounceTick s)))"

definition text_bounce_start :: "env \<Rightarrow> app \<Rightarrow> py_error + app" where
  "text_bounce_start e s =
     (if loop s TextBounce then Inr s
      else text_bounce_tick e
        (s\<lparr>loop := (loop s)(TextBounce := True), bounce_dir := 1, bounce_pos := 0\<rparr>))"

definition text_bounce_stop :: "app \<Rightarrow> py_error + app" where
  "text_bounce_stop s = Inr (s\<lparr>loop := (loop s)(TextBounce := False)\<rparr>)"

text \<open>
  Rain. \<open>rain_p\<close> is the double \<^verbatim>\<open>0.35\<close> (\<^verbatim>\<open>self._rain_p\<close>), which is
  3152519739159347 / 2^53. A drop is a cell (row, column).
\<close>

definition rain_p :: rat where
  "rain_p = 3152519739159347 / 9007199254740992"

definition rain_tick :: "env \<Rightarrow> app \<Rightarrow> py_error + app" where
  "rain_tick e s =
     (if \<not> loop s MiniRain then Inr s
      else let s = (if rain_u e < rain_p
                    then s\<lparr>rain_drops := rain_drops s @ [(0, rain_col e)]\<rparr> else s);
               new = map (\<lambda>(r, c). (r + 1, c)) (filter (\<lambda>(r, c). r + 1 \<le> 6) (rain_drops s));
               s = s\<lparr>rain_drops := new\<rparr>
        in and_then (plot (rain_drops s) (replicate 9 0)) (\<lambda>cols.
           and_then (on_vfd (mm_send_cols cols) s) (\<lambda>s.
           Inr (after (ms s MiniRain) RainTick s))))"

definition rain_start :: "env \<Rightarrow> app \<Rightarrow> py_error + app" where
  "rain_start e s =
     (if loop s MiniRain then Inr s
      else rain_tick e (s\<lparr>loop := (loop s)(MiniRain := True), rain_drops := []\<rparr>))"

definition rain_stop :: "app \<Rightarrow> py_error + app" where
  "rain_stop s =
     Inr (s\<lparr>loop := (loop s)(MiniRain := False), vfd := mm_clear (vfd s), rain_drops := []\<rparr>)"

text \<open>The decorative snake runs along a boustrophedon path over the 63 cells.\<close>

definition snake_path :: "(int \<times> int) list" where
  "snake_path = concat (map (\<lambda>r. map (\<lambda>c. (r, c)) (if r mod 2 = 0 then [0 .. 8] else rev [0 .. 8]))
                          [0 .. 6])"

definition snake_len :: int where
  "snake_len = 10"

definition snake_tick :: "app \<Rightarrow> py_error + app" where
  "snake_tick s =
     (if \<not> loop s MiniSnake then Inr s
      else let head_idx = snake_idx s;
               tail_idx = max 0 (head_idx - snake_len);
               segment = map (\<lambda>k. snake_path ! nat (k mod int (length snake_path)))
                           [tail_idx .. head_idx]
        in and_then (plot segment (replicate 9 0)) (\<lambda>cols.
           and_then (on_vfd (mm_send_cols cols) s) (\<lambda>s.
           Inr (after (ms s MiniSnake) SnakeTick (s\<lparr>snake_idx := snake_idx s + 1\<rparr>)))))"

definition snake_start :: "app \<Rightarrow> py_error + app" where
  "snake_start s =
     (if loop s MiniSnake then Inr s
      else snake_tick (s\<lparr>loop := (loop s)(MiniSnake := True), snake_idx := 0\<rparr>))"

definition snake_stop :: "app \<Rightarrow> py_error + app" where
  "snake_stop s = Inr (s\<lparr>loop := (loop s)(MiniSnake := False), vfd := mm_clear (vfd s)\<rparr>)"


subsection \<open>The mini-matrix modes new in v8\<close>

definition ball_tick :: "app \<Rightarrow> py_error + app" where
  "ball_tick s =
     (if \<not> loop s BouncyBall then Inr s
      else let (r, c) = ball_pos s;
               (vr, vc) = ball_vel s;
               r2 = r + vr;
               c2 = c + vc;
               (vr, r2) = (if r2 < 0 \<or> r2 > 6 then (- vr, r + (- vr)) else (vr, r2));
               (vc, c2) = (if c2 < 0 \<or> c2 > 8 then (- vc, c + (- vc)) else (vc, c2));
               s = s\<lparr>ball_pos := (r2, c2), ball_vel := (vr, vc)\<rparr>
        in and_then (set_px (replicate 9 0) (r2, c2)) (\<lambda>cols.
           and_then (on_vfd (mm_send_cols cols) s) (\<lambda>s.
           Inr (after (ms s BouncyBall) BallTick s))))"

definition ball_start :: "app \<Rightarrow> py_error + app" where
  "ball_start s =
     (let s = stop_all_mm s
      in ball_tick (s\<lparr>loop := (loop s)(BouncyBall := True)\<rparr>))"

definition ball_stop :: "app \<Rightarrow> py_error + app" where
  "ball_stop s = Inr (s\<lparr>loop := (loop s)(BouncyBall := False), vfd := mm_clear (vfd s)\<rparr>)"

text \<open>
  The four frames of \<^verbatim>\<open>_build_stickman_frames\<close>: a sprite of three columns placed in
  columns 3 to 5 (\<^verbatim>\<open>cols[3:6] = cols3\<close>), then single bits set with \<^verbatim>\<open>|=\<close>.
\<close>

definition center3 :: "int list \<Rightarrow> int list" where
  "center3 cols3 = take 3 (replicate 9 0) @ cols3 @ drop 6 (replicate 9 0)"

definition or_at :: "nat \<Rightarrow> int \<Rightarrow> int list \<Rightarrow> int list" where
  "or_at i m cols = cols[i := cols ! i OR m]"

definition stick_frames :: "int list list" where
  "stick_frames =
     [or_at 6 0x20 (or_at 2 0x08 (center3 [0x10, 0x38, 0x10])),
      or_at 5 0x20 (or_at 2 0x18 (center3 [0x10, 0x38, 0x10])),
      or_at 6 0x10 (or_at 4 0x08 (center3 [0x10, 0x38, 0x10])),
      or_at 4 0x08 (or_at 2 0x20 (center3 [0x10, 0x38, 0x10]))]"

definition stickman_tick :: "app \<Rightarrow> py_error + app" where
  "stickman_tick s =
     (if \<not> loop s Stickman then Inr s
      else let frame = stick_frames ! nat (stick_idx s mod int (length stick_frames));
               s = s\<lparr>stick_col := stick_col s - 1\<rparr>;
               cols = map (\<lambda>i. let src = i - (9 - stick_col s)
                                in if 0 \<le> src \<and> src < 9 then frame ! nat src else 0)
                          [0 .. 8]
        in and_then (on_vfd (mm_send_cols cols) s) (\<lambda>s.
           let s = (if stick_col s \<le> 0
                    then s\<lparr>stick_col := 9, stick_idx := stick_idx s + 1\<rparr> else s)
           in Inr (after (ms s Stickman) StickmanTick s)))"

definition stickman_start :: "app \<Rightarrow> py_error + app" where
  "stickman_start s =
     (let s = stop_all_mm s
      in stickman_tick (s\<lparr>loop := (loop s)(Stickman := True), stick_col := 9, stick_idx := 0\<rparr>))"

definition stickman_stop :: "app \<Rightarrow> py_error + app" where
  "stickman_stop s = Inr (s\<lparr>loop := (loop s)(Stickman := False), vfd := mm_clear (vfd s)\<rparr>)"

text \<open>
  Game of Life. A grid is a list of rows of integers, a cell alive when its entry is
  truthy (not 0). \<^verbatim>\<open>_gol_step\<close> and \<^verbatim>\<open>_gol_tick\<close> read every entry \<^verbatim>\<open>g[r][c]\<close> with
  \<open>r < 7\<close> and \<open>c < 9\<close>, and so raise IndexError exactly when the grid has fewer than 7
  rows or one of its first 7 rows has fewer than 9 entries.
\<close>

definition grid_ok :: "int list list \<Rightarrow> bool" where
  "grid_ok g = (7 \<le> length g \<and> list_all (\<lambda>r. 9 \<le> length (g ! r)) [0 ..< 7])"

definition gol_neighbours :: "int list list \<Rightarrow> nat \<Rightarrow> nat \<Rightarrow> nat" where
  "gol_neighbours g r c =
     length (filter (\<lambda>(dr, dc). let rr = int r + dr; cc = int c + dc
                                in 0 \<le> rr \<and> rr < 7 \<and> 0 \<le> cc \<and> cc < 9 \<and> g ! nat rr ! nat cc \<noteq> 0)
               [(dr, dc). dr \<leftarrow> [-1, 0, 1], dc \<leftarrow> [-1, 0, 1], \<not> (dr = 0 \<and> dc = 0)])"

definition gol_step :: "int list list \<Rightarrow> py_error + int list list" where
  "gol_step g =
     (if \<not> grid_ok g then Inl IndexError
      else Inr (map (\<lambda>r. map (\<lambda>c. let n = gol_neighbours g r c
                                  in if g ! r ! c \<noteq> 0 \<and> (n = 2 \<or> n = 3) then 1
                                     else if \<not> g ! r ! c \<noteq> 0 \<and> n = 3 then 1
                                     else 0)
                           [0 ..< 9])
                   [0 ..< 7]))"

text \<open>
  \<^verbatim>\<open>_rand_grid\<close>: 63 draws of \<^verbatim>\<open>random.random()\<close>, row by row, each compared with the
  double \<^verbatim>\<open>0.3\<close>, which is 5404319552844595 / 2^54.
\<close>

definition rand_grid :: "(nat \<Rightarrow> rat) \<Rightarrow> int list list" where
  "rand_grid u =
     map (\<lambda>r. map (\<lambda>c. if u (r * 9 + c) < 5404319552844595 / 18014398509481984 then 1 else 0)
                 [0 ..< 9])
         [0 ..< 7]"

definition gol_randomize :: "env \<Rightarrow> app \<Rightarrow> app" where
  "gol_randomize e s = s\<lparr>gol_grid := rand_grid (grid_draws e)\<rparr>"

definition gol_tick :: "app \<Rightarrow> py_error + app" where
  "gol_tick s =
     (if \<not> loop s Gol then Inr s
      else if \<not> grid_ok (gol_grid s) then Inl IndexError
      else and_then (plot [(int r, int c). r \<leftarrow> [0 ..< 7], c \<leftarrow> [0 ..< 9],
                                           gol_grid s ! r ! c \<noteq> 0]
                          (replicate 9 0)) (\<lambda>cols.
           and_then (on_vfd (mm_send_cols cols) s) (\<lambda>s.
           and_then (gol_step (gol_grid s)) (\<lambda>g.
           Inr (after (ms s Gol) GolTick (s\<lparr>gol_grid := g\<rparr>))))))"

definition gol_start :: "app \<Rightarrow> py_error + app" where
  "gol_start s =
     (let s = stop_all_mm s
      in gol_tick (s\<lparr>loop := (loop s)(Gol := True)\<rparr>))"

definition gol_stop :: "app \<Rightarrow> py_error + app" where
  "gol_stop s = Inr (s\<lparr>loop := (loop s)(Gol := False), vfd := mm_clear (vfd s)\<rparr>)"

text \<open>
  Clock bars. \<^verbatim>\<open>round\<close> rounds a half to the even neighbour. The source computes
  \<^verbatim>\<open>(val/maxval)*7\<close> in doubles; for the hours, minutes and seconds of a clock the exact
  quotient is never within 1/200 of a half, so the double rounds as the rational does.
\<close>

definition py_round :: "rat \<Rightarrow> int" where
  "py_round q =
     (let f = \<lfloor>q\<rfloor>; d = q - of_int f
      in if d < 1 / 2 then f else if d > 1 / 2 then f + 1
         else if even f then f else f + 1)"

definition bars :: "int \<Rightarrow> int \<Rightarrow> int list" where
  "bars val maxval =
     (let h = py_round ((of_int val / of_int maxval) * 7);
          col = foldl (\<lambda>col i. col OR push_bit (nat i) 1) 0 [0 .. h - 1]
      in replicate 3 col)"

definition clock_bars_tick :: "env \<Rightarrow> app \<Rightarrow> py_error + app" where
  "clock_bars_tick e s =
     (if \<not> loop s ClockBars then Inr s
      else let H = hour (now e); M = minute (now e); S = second (now e);
               cols = bars H 23 @ bars M 59 @ bars S 59
        in and_then (on_vfd (mm_send_cols (take 9 cols)) s) (\<lambda>s.
           Inr (after (ms s ClockBars) ClockBarsTick s)))"

definition clock_bars_start :: "env \<Rightarrow> app \<Rightarrow> py_error + app" where
  "clock_bars_start e s =
     (let s = stop_all_mm s
      in clock_bars_tick e (s\<lparr>loop := (loop s)(ClockBars := True)\<rparr>))"

definition clock_bars_stop :: "app \<Rightarrow> py_error + app" where
  "clock_bars_stop s = Inr (s\<lparr>loop := (loop s)(ClockBars := False), vfd := mm_clear (vfd s)\<rparr>)"

subsection \<open>The playable snake game\<close>

text \<open>Decimal digits, \<^verbatim>\<open>str(i)\<close> and the format \<^verbatim>\<open>{i:2d}\<close>.\<close>

fun digits10 :: "nat \<Rightarrow> string" where
  "digits10 n =
     (if n < 10 then [char_of (48 + n)]
      else digits10 (n div 10) @ [char_of (48 + n mod 10)])"

declare digits10.simps [simp del]

definition str_int :: "int \<Rightarrow> string" where
  "str_int i = (if i < 0 then CHR ''-'' # digits10 (nat (- i)) else digits10 (nat i))"

definition fmt_2d :: "int \<Rightarrow> string" where
  "fmt_2d i = (let t = str_int i in replicate (2 - length t) CHR '' '' @ t)"

text \<open>
  \<^verbatim>\<open>_show_snake_score\<close> also sets the score label of the window, which is not modelled.
\<close>

definition show_snake_score :: "app \<Rightarrow> py_error + app" where
  "show_snake_score s =
     and_then (write_line 0 (take 16 (''SNAKE SCORE:'' @ fmt_2d (g_score s))) s)
       (write_line 1 (take 16 ''Arrows / D-pad   ''))"

definition status_text :: "string \<Rightarrow> app \<Rightarrow> py_error + app" where
  "status_text t s = write_line 1 (take 16 (t @ replicate 16 CHR '' '')) s"

definition all_cells :: "(int \<times> int) list" where
  "all_cells = [(r, c). r \<leftarrow> [0 .. 6], c \<leftarrow> [0 .. 8]]"

definition choice :: "'a list \<Rightarrow> nat \<Rightarrow> 'a" where
  "choice xs k = xs ! (k mod length xs)"

definition rand_food :: "(int \<times> int) list \<Rightarrow> nat \<Rightarrow> int \<times> int" where
  "rand_food snake k =
     (let free = filter (\<lambda>cell. cell \<notin> set snake) all_cells
      in if free \<noteq> [] then choice free k else (3, 4))"

definition snake_game_tick :: "env \<Rightarrow> app \<Rightarrow> py_error + app" where
  "snake_game_tick e s =
     (if \<not> loop s SnakeGame then Inr s
      else if g_paused s then Inr (after (ms s SnakeGame) SnakeGameTick s)
      else
        let s = s\<lparr>g_dir := g_pending s\<rparr>
        in case g_snake s of
             [] \<Rightarrow> Inl IndexError
           | head # _ \<Rightarrow>
               let nr = fst head + fst (g_dir s);
                   nc = snd head + snd (g_dir s)
               in if \<not> (0 \<le> nr \<and> nr \<le> 6 \<and> 0 \<le> nc \<and> nc \<le> 8) \<or> (nr, nc) \<in> set (g_snake s)
                  then and_then (status_text ''Game Over!'' s) (\<lambda>s.
                       Inr (s\<lparr>loop := (loop s)(SnakeGame := False)\<rparr>))
                  else
                    let new_head = (nr, nc);
                        s = s\<lparr>g_snake := new_head # g_snake s\<rparr>
                    in and_then
                         (if new_head = g_food s
                          then show_snake_score
                                 (s\<lparr>g_score := g_score s + 1,
                                    g_food := rand_food (g_snake s) (food_pick e)\<rparr>)
                          else Inr (s\<lparr>g_snake := butlast (g_snake s)\<rparr>)) (\<lambda>s.
                       and_then (plot (g_food s # g_snake s) (replicate 9 0)) (\<lambda>cols.
                       and_then (on_vfd (mm_send_cols cols) s) (\<lambda>s.
                       Inr (after (ms s SnakeGame) SnakeGameTick s)))))"

definition snake_game_start :: "env \<Rightarrow> app \<Rightarrow> py_error + app" where
  "snake_game_start e s =
     (let s = stop_all_mm s;
          s = s\<lparr>loop := (loop s)(SnakeGame := True), g_paused := False\<rparr>
      in and_then (show_snake_score s) (snake_game_tick e))"

definition snake_game_toggle_pause :: "app \<Rightarrow> py_error + app" where
  "snake_game_toggle_pause s =
     (if \<not> loop s SnakeGame then Inr s
      else let s = s\<lparr>g_paused := \<not> g_paused s\<rparr>
        in status_text (if g_paused s then ''Paused'' else ''Running'') s)"

definition snake_game_reset :: "env \<Rightarrow> app \<Rightarrow> py_error + app" where
  "snake_game_reset e s =
     (let s = s\<lparr>g_snake := [(3, 2), (3, 1), (3, 0)]\<rparr>;
          s = s\<lparr>g_dir := (0, 1), g_pending := (0, 1)\<rparr>;
          s = s\<lparr>g_food := rand_food (g_snake s) (food_pick e)\<rparr>;
          s = s\<lparr>g_score := 0\<rparr>
      in and_then (show_snake_score s) (\<lambda>s.
         Inr (s\<lparr>vfd := mm_clear (vfd s)\<rparr>)))"

definition snake_key :: "int \<Rightarrow> int \<Rightarrow> app \<Rightarrow> app" where
  "snake_key dr dc s =
     (let (pr, pc) = g_dir s
      in if (dr, dc) = (- pr, - pc) then s
         else s\<lparr>g_pending := (dr, dc)\<rparr>)"


subsection \<open>Buttons, keys and the event loop\<close>

fun start :: "effect \<Rightarrow> env \<Rightarrow> app \<Rightarrow> py_error + app" where
  "start VolSweep e s = vol_sweep_start s"
| "start WifiScan e s = wifi_scan_start s"
| "start IconWave e s = icon_wave_start s"
| "start Marquee e s = marquee_start e s"
| "start Cylon e s = cylon_start s"
| "start Spin e s = spin_start s"
| "start Twinkle e s = twinkle_start e s"
| "start IconCarousel e s = icon_carousel_start s"
| "start IconPulse e s = icon_pulse_start s"
| "start EmailBlink e s = email_blink_start s"
| "start RecordBlink e s = record_blink_start s"
| "start TextBounce e s = text_bounce_start e s"
| "start MiniRain e s = rain_start e s"
| "start MiniSnake e s = snake_start s"
| "start BouncyBall e s = ball_start s"
| "start Stickman e s = stickman_start s"
| "start Gol e s = gol_start s"
| "start ClockBars e s = clock_bars_start e s"
| "start SnakeGame e s = snake_game_start e s"

text \<open>The snake game has no stop method; its Stop is no handler at all.\<close>

fun stop :: "effect \<Rightarrow> app \<Rightarrow> py_error + app" where
  "stop VolSweep s = vol_sweep_stop s"
| "stop WifiScan s = wifi_scan_stop s"
| "stop IconWave s = icon_wave_stop s"
| "stop Marquee s = marquee_stop s"
| "stop Cylon s = cylon_stop s"
| "stop Spin s = spin_stop s"
| "stop Twinkle s = twinkle_stop s"
| "stop IconCarousel s = icon_carousel_stop s"
| "stop IconPulse s = icon_pulse_stop s"
| "stop EmailBlink s = email_blink_stop s"
| "stop RecordBlink s = record_blink_stop s"
| "stop TextBounce s = text_bounce_stop s"
| "stop MiniRain s = rain_stop s"
| "stop MiniSnake s = snake_stop s"
| "stop BouncyBall s = ball_stop s"
| "stop Stickman s = stickman_stop s"
| "stop Gol s = gol_stop s"
| "stop ClockBars s = clock_bars_stop s"
| "stop SnakeGame s = Inr s"

fun run_callback :: "callback \<Rightarrow> env \<Rightarrow> app \<Rightarrow> py_error + app" where
  "run_callback (VolSweepTick lvl step) e s = vol_sweep_tick lvl step s"
| "run_callback (WifiScanTick state) e s = wifi_scan_tick state s"
| "run_callback (IconWaveTick lvl step) e s = icon_wave_tick lvl step s"
| "run_callback MarqueeTick e s = marquee_tick e s"
| "run_callback (CylonTick pos step) e s = cylon_tick pos step s"
| "run_callback SpinTick e s = spin_tick s"
| "run_callback TwinkleTick e s = twinkle_tick e s"
| "run_callback IconCarouselTick e s = icon_carousel_tick s"
| "run_callback IconPulseTick e s = icon_pulse_tick s"
| "run_callback EmailBlinkTick e s = email_blink_tick s"
| "run_callback RecordBlinkTick e s = record_blink_tick s"
| "run_callback TextBounceTick e s = text_bounce_tick e s"
| "run_callback RainTick e s = rain_tick e s"
| "run_callback SnakeTick e s = snake_tick s"
| "run_callback BallTick e s = ball_tick s"
| "run_callback StickmanTick e s = stickman_tick s"
| "run_callback GolTick e s = gol_tick s"
| "run_callback ClockBarsTick e s = clock_bars_tick e s"
| "run_callback SnakeGameTick e s = snake_game_tick e s"

text \<open>
  The event loop runs a registered callback once and forgets it. Which of the pending
  callbacks is due next depends on the delays and on real time; \<open>fire i\<close> runs the
  \<open>i\<close>-th pending one.
\<close>

definition fire :: "nat \<Rightarrow> env \<Rightarrow> app \<Rightarrow> py_error + app" where
  "fire i e s =
     (if i < length (timers s)
      then run_callback (snd (timers s ! i)) e
             (s\<lparr>timers := take i (timers s) @ drop (Suc i) (timers s)\<rparr>)
      else Inr s)"

text \<open>The arrow keys and the buttons of the on-screen pad.\<close>

datatype arrow = ArrowLeft | ArrowRight | ArrowUp | ArrowDown

fun arrow_vec :: "arrow \<Rightarrow> int \<times> int" where
  "arrow_vec ArrowLeft = (- 0, - 1)"
| "arrow_vec ArrowRight = (0, 1)"
| "arrow_vec ArrowUp = (- 1, 0)"
| "arrow_vec ArrowDown = (1, 0)"

definition set_fps :: "effect \<Rightarrow> int \<Rightarrow> app \<Rightarrow> app" where
  "set_fps x fps s = s\<lparr>ms := (ms s)(x := fps_to_ms fps)\<rparr>"

text \<open>\<^verbatim>\<open>_connect\<close> when the port opens, and \<^verbatim>\<open>_disconnect\<close>.\<close>

definition connect :: "app \<Rightarrow> py_error + app" where
  "connect s = on_vfd mode_2line (s\<lparr>vfd := RESET (vfd_open (vfd s))\<rparr>)"

definition disconnect :: "app \<Rightarrow> app" where
  "disconnect s = s\<lparr>vfd := vfd_close (vfd s)\<rparr>"

datatype event =
    Start effect | Stop effect | Fire nat | Key arrow | TogglePause | Reset
  | GolRandomize | SetFps effect int | Connect | Disconnect

fun exec :: "event \<Rightarrow> env \<Rightarrow> app \<Rightarrow> py_error + app" where
  "exec (Start x) e s = start x e s"
| "exec (Stop x) e s = stop x s"
| "exec (Fire i) e s = fire i e s"
| "exec (Key a) e s = Inr (snake_key (fst (arrow_vec a)) (snd (arrow_vec a)) s)"
| "exec TogglePause e s = snake_game_toggle_pause s"
| "exec Reset e s = snake_game_reset e s"
| "exec GolRandomize e s = Inr (gol_randomize e s)"
| "exec (SetFps x fps) e s = Inr (set_fps x fps s)"
| "exec Connect e s = connect s"
| "exec Disconnect e s = Inr (disconnect s)"

fun run :: "(event \<times> env) list \<Rightarrow> app \<Rightarrow> py_error + app" where
  "run [] s = Inr s"
| "run ((ev, e) # evs) s = and_then (exec ev e s) (run evs)"

text \<open>
  The state \<^verbatim>\<open>App.__init__\<close> builds. Attributes that the source creates only in a start
  method (\<^verbatim>\<open>_marquee_offset\<close>, \<^verbatim>\<open>_spin_state\<close>, \<^verbatim>\<open>_spin_frames\<close>, \<^verbatim>\<open>_twinkle_cols\<close>,
  \<^verbatim>\<open>_icon_carousel_idx\<close>, \<^verbatim>\<open>_icon_pulse_phase\<close>, \<^verbatim>\<open>_email_state\<close>, \<^verbatim>\<open>_rec_on\<close>, \<^verbatim>\<open>_stick_idx\<close>)
  hold a placeholder until then; no tick reads them before its start method has run.
\<close>

fun ms_default :: "effect \<Rightarrow> int" where
  "ms_default VolSweep = 120"
| "ms_default WifiScan = 160"
| "ms_default IconWave = 140"
| "ms_default Marquee = 120"
| "ms_default Cylon = 120"
| "ms_default Spin = 120"
| "ms_default Twinkle = 100"
| "ms_default IconCarousel = 160"
| "ms_default IconPulse = 120"
| "ms_default EmailBlink = 300"
| "ms_default RecordBlink = 350"
| "ms_default TextBounce = 120"
| "ms_default MiniRain = 120"
| "ms_default MiniSnake = 140"
| "ms_default BouncyBall = 100"
| "ms_default Stickman = 120"
| "ms_default Gol = 200"
| "ms_default ClockBars = 500"
| "ms_default SnakeGame = 140"

definition app_init :: "env \<Rightarrow> app" where
  "app_init e =
     \<lparr>vfd = \<lparr>is_open = False, tx = []\<rparr>,
      loop = (\<lambda>x. False),
      ms = ms_default,
      timers = [],
      marquee_offset = 0,
      spin_state = 0,
      spin_frames = [],
      twinkle_cols = [],
      icon_carousel_idx = 0,
      icon_pulse_phase = 0,
      email_state = 0,
      rec_on = False,
      bounce_dir = 1,
      bounce_pos = 0,
      rain_drops = [],
      snake_idx = 0,
      ball_pos = (3, 4),
      ball_vel = (1, 1),
      stick_col = - 3,
      stick_idx = 0,
      gol_grid = rand_grid (grid_draws e),
      g_snake = [(3, 2), (3, 1), (3, 0)],
      g_dir = (0, 1),
      g_pending = (0, 1),
      g_food = rand_food [(3, 2), (3, 1), (3, 0)] (food_pick e),
      g_score = 0,
      g_paused = False\<rparr>"

text \<open>The states the application can be in: after start-up and any handlers that returned.\<close>

inductive reachable :: "app \<Rightarrow> bool" where
  reachable_init: "reachable (app_init e)"
| reachable_step: "reachable s \<Longrightarrow> exec ev e s = Inr s' \<Longrightarrow> reachable s'"

subsection \<open>Notions of the specification and example inputs\<close>

text \<open>
  The specification's count of live Moore neighbours: the live cells of the 7 by 9 grid
  at distance one (in rows and in columns) from the cell, the cell itself excluded.
  Cells beyond the boundary do not exist, so a boundary cell has fewer neighbours.
\<close>

definition moore_alive :: "int list list \<Rightarrow> nat \<Rightarrow> nat \<Rightarrow> nat" where
  "moore_alive g r c =
     card {(rr, cc). rr < 7 \<and> cc < 9 \<and> (rr, cc) \<noteq> (r, c) \<and>
                     rr \<le> r + 1 \<and> r \<le> rr + 1 \<and> cc \<le> c + 1 \<and> c \<le> cc + 1 \<and>
                     g ! rr ! cc \<noteq> 0}"

text \<open>The grid whose live cells are the given ones, and the patterns of the specification.\<close>

definition grid_of :: "(nat \<times> nat) list \<Rightarrow> int list list" where
  "grid_of cells = map (\<lambda>r. map (\<lambda>c. if (r, c) \<in> set cells then 1 else 0) [0 ..< 9]) [0 ..< 7]"

definition block :: "nat \<Rightarrow> nat \<Rightarrow> (nat \<times> nat) list" where
  "block r c = [(r, c), (r, c + 1), (r + 1, c), (r + 1, c + 1)]"

definition blinker_h :: "nat \<Rightarrow> nat \<Rightarrow> (nat \<times> nat) list" where
  "blinker_h r c = [(r, c - 1), (r, c), (r, c + 1)]"

definition blinker_v :: "nat \<Rightarrow> nat \<Rightarrow> (nat \<times> nat) list" where
  "blinker_v r c = [(r - 1, c), (r, c), (r + 1, c)]"

definition offsets8 :: "(int \<times> int) list" where
  "offsets8 = [(dr, dc). dr \<leftarrow> [-1, 0, 1], dc \<leftarrow> [-1, 0, 1], \<not> (dr = 0 \<and> dc = 0)]"

definition adj8 :: "nat \<times> nat \<Rightarrow> nat \<times> nat \<Rightarrow> bool" where
  "adj8 p q = (q \<noteq> p \<and> fst q \<le> fst p + 1 \<and> fst p \<le> fst q + 1 \<and>
               snd q \<le> snd p + 1 \<and> snd p \<le> snd q + 1)"

text \<open>
  Whether a mini-matrix frame on the wire lights row \<open>r\<close> of the logical column \<open>c\<close>:
  after the two header bytes the columns come from right to left, and bit \<open>r\<close> of a
  column is its row \<open>r\<close>.
\<close>

definition mm_lit :: "int list \<Rightarrow> int \<Rightarrow> int \<Rightarrow> bool" where
  "mm_lit frame r c = bit (frame ! nat (10 - c)) (nat r)"

definition dt_2025 :: datetime where
  "dt_2025 = \<lparr>year = 2025, month = 11, day = 3, hour = 13, minute = 58, second = 7\<rparr>"

text \<open>
  Example inputs: a set of draws and widget values, and the state after start-up with
  the port open and the rain effect enabled.
\<close>

definition env0 :: env where
  "env0 =
     \<lparr>twinkle_draws = ((0, 0), (1, 1), (2, 2)),
      rain_u = 0,
      rain_col = 4,
      food_pick = 0,
      grid_draws = (\<lambda>i. 1 / 2),
      now = dt_2025,
      marquee_line = ''0'',
      marquee_text = ''HELLO'',
      bounce_line = ''1'',
      bounce_text = ''HI''\<rparr>"

text \<open>
  Draws that make the first grid of the Game of Life a blinker: the cells of row 3 in
  columns 3, 4 and 5 alive, every other cell dead.
\<close>

definition env_blinker :: env where
  "env_blinker = env0\<lparr>grid_draws := (\<lambda>i. if 30 \<le> i \<and> i \<le> 32 then 1 / 10 else 1 / 2)\<rparr>"

definition st_open :: app where
  "st_open = (app_init env0)\<lparr>vfd := \<lparr>is_open = True, tx = []\<rparr>\<rparr>"

definition st_rain :: app where
  "st_rain = st_open\<lparr>loop := (loop st_open)(MiniRain := True)\<rparr>"

text \<open>
  Notions to state the properties of the snake game: the cells of the 7 by 9 matrix, the
  reverse of a direction, the four directions a key can give, a key press, and what
  writing a text line puts on the wire.
\<close>

definition in_grid :: "int \<times> int \<Rightarrow> bool" where
  "in_grid p = (0 \<le> fst p \<and> fst p \<le> 6 \<and> 0 \<le> snd p \<and> snd p \<le> 8)"

definition neg_dir :: "int \<times> int \<Rightarrow> int \<times> int" where
  "neg_dir d = (- fst d, - snd d)"

definition unit_dir :: "int \<times> int \<Rightarrow> bool" where
  "unit_dir d = (d = (0, 1) \<or> d = (0, - 1) \<or> d = (1, 0) \<or> d = (- 1, 0))"

definition press :: "app \<Rightarrow> arrow \<Rightarrow> app" where
  "press s a = snake_key (fst (arrow_vec a)) (snd (arrow_vec a)) s"

definition send_all :: "int list list \<Rightarrow> VFD \<Rightarrow> VFD" where
  "send_all bs v = (if is_open v then v\<lparr>tx := tx v @ bs\<rparr> else v)"

definition line_writes :: "int \<Rightarrow> string \<Rightarrow> int list list" where
  "line_writes line chunk =
     [[0x1B, if line = 0 then 0x21 else 0x22], [0x1B, 0x51], encode_ascii chunk]"

definition is_mm_frame :: "int list \<Rightarrow> bool" where
  "is_mm_frame b = (take 2 b = [0x1B, 0x31])"

text \<open>
  Example states of the game: running after start-up with the port open; the same with
  the food in front of the head; and a snake heading left with its head at the wall.
\<close>

definition st_game :: app where
  "st_game = st_open\<lparr>loop := (loop st_open)(SnakeGame := True)\<rparr>"

definition st_food33 :: app where
  "st_food33 = st_game\<lparr>g_food := (3, 3)\<rparr>"

definition st_wall :: app where
  "st_wall = st_game\<lparr>g_snake := [(3, 0), (3, 1), (3, 2)], g_dir := (0, - 1), g_pending := (0, - 1)\<rparr>"

text \<open>
  Notions to state what a handler leaves alone: the state of the game; a method of the
  display that raises nothing and only writes to the port; and a step of the
  application that leaves the game, the flags and the port's openness as they are and
  only adds writes to the wire.
\<close>

definition game_of :: "app \<Rightarrow> (int \<times> int) list \<times> (int \<times> int) \<times> (int \<times> int) \<times> (int \<times> int) \<times> int \<times> bool" where
  "game_of s = (g_snake s, g_dir s, g_pending s, g_food s, g_score s, g_paused s)"

definition sends :: "(VFD \<Rightarrow> py_error + VFD) \<Rightarrow> bool" where
  "sends f = (\<forall>v. \<exists>ws. f v = Inr (send_all ws v))"

definition quiet :: "app \<Rightarrow> app \<Rightarrow> bool" where
  "quiet s s' =
     (game_of s' = game_of s \<and> is_open (vfd s') = is_open (vfd s) \<and>
      (\<exists>ws. tx (vfd s') = tx (vfd s) @ ws))"

text \<open>What a method of the display that only sends puts on the wire (used in proofs only).\<close>

definition wire :: "(VFD \<Rightarrow> py_error + VFD) \<Rightarrow> VFD \<Rightarrow> int list list" where
  "wire f v = (SOME ws. f v = Inr (send_all ws v))"

text \<open>
  The invariant of the game: the snake is not empty, snake and food are on the matrix,
  current and pending direction are unit steps, the pending direction is not the
  reverse of the current one, and the food is off the snake unless the snake covers the
  whole matrix (then the food is the fallback cell of \<^verbatim>\<open>_rand_food\<close>).
\<close>

definition game_inv :: "app \<Rightarrow> bool" where
  "game_inv s =
     (g_snake s \<noteq> [] \<and> in_grid (g_food s) \<and> list_all in_grid (g_snake s) \<and>
      unit_dir (g_dir s) \<and> unit_dir (g_pending s) \<and> g_pending s \<noteq> neg_dir (g_dir s) \<and>
      (g_food s \<notin> set (g_snake s) \<or> (set all_cells \<subseteq> set (g_snake s) \<and> g_food s = (3, 4))))"

text \<open>
  A run of the game that fills the matrix: the food first lies at (3,4); after one step
  to the right the snake eats on each of the next 60 ticks, the draw of each new food
  cell being the cell the head enters next. Each entry gives the keys pressed before a
  tick and the draw of \<^verbatim>\<open>random.choice\<close> in it.
\<close>

definition pick_env :: "nat \<Rightarrow> env" where
  "pick_env k = env0\<lparr>food_pick := k\<rparr>"

definition full_board_moves :: "(arrow list \<times> nat) list" where
  "full_board_moves =
     [([], 28), ([], 28), ([], 28), ([], 28), ([], 36), ([ArrowDown], 44), ([], 52),
      ([], 51), ([ArrowLeft], 50), ([], 49), ([], 48), ([], 47), ([], 46), ([], 45),
      ([], 44), ([], 36), ([ArrowUp], 36), ([ArrowRight], 36), ([], 36), ([], 36),
      ([], 36), ([], 36), ([], 36), ([], 35), ([ArrowUp], 34), ([ArrowLeft], 33), ([], 32),
      ([], 31), ([], 30), ([], 29), ([], 28), ([], 27), ([ArrowUp], 18), ([], 18),
      ([ArrowRight], 18), ([], 18), ([], 18), ([], 18), ([], 18), ([], 18), ([], 18),
      ([], 17), ([ArrowUp], 8), ([], 7), ([ArrowLeft], 14), ([ArrowDown], 13),
      ([ArrowLeft], 6), ([ArrowUp], 5), ([ArrowLeft], 10), ([ArrowDown], 9),
      ([ArrowLeft], 4), ([ArrowUp], 3), ([ArrowLeft], 6), ([ArrowDown], 5),
      ([ArrowLeft], 2), ([ArrowUp], 1), ([ArrowLeft], 2), ([ArrowDown], 1),
      ([ArrowLeft], 0), ([ArrowUp], 0)]"

definition full_board_run :: "(event \<times> env) list" where
  "full_board_run =
     (Start SnakeGame, env0) #
     concat (map (\<lambda>(keys, k). map (\<lambda>a. (Key a, env0)) keys @ [(Fire 0, pick_env k)])
               full_board_moves)"

text \<open>
  The effects that write the mini-matrix (the flags \<^verbatim>\<open>_stop_all_mm\<close> clears), the five
  modes new in v8, whose start methods call \<^verbatim>\<open>_stop_all_mm\<close>, the four mini-matrix
  effects kept from v7, and all the effects kept from v7, whose start methods begin with
  the check of their own flag. The frame \<^verbatim>\<open>mm_clear\<close> writes.
\<close>

definition mm_group :: "effect list" where
  "mm_group = [Spin, Twinkle, MiniRain, MiniSnake, BouncyBall, Stickman, Gol, ClockBars, SnakeGame]"

definition v8_modes :: "effect list" where
  "v8_modes = [BouncyBall, Stickman, Gol, ClockBars, SnakeGame]"

definition v7_mm :: "effect list" where
  "v7_mm = [Spin, Twinkle, MiniRain, MiniSnake]"

definition v7_effects :: "effect list" where
  "v7_effects =
     [VolSweep, WifiScan, IconWave, Marquee, Cylon, Spin, Twinkle, IconCarousel, IconPulse,
      EmailBlink, RecordBlink, TextBounce, MiniRain, MiniSnake]"

definition mm_clear_frame :: "int list" where
  "mm_clear_frame = [0x1B, 0x31, 0, 0, 0, 0, 0, 0, 0, 0, 0]"

section \<open>Properties\<close>

subsection \<open>Codec\<close>

lemma and_7f_range: "0 \<le> (c::int) AND 0x7F \<and> c AND 0x7F \<le> 0x7F"
  by (simp add: AND_upper2')

lemma and_ff_mod: "(y::int) AND 0xFF = y mod 256"
  using take_bit_eq_mod [of 8 y] take_bit_eq_mask [of 8 y]
  by (simp add: mask_eq_exp_minus_1)

lemma list9_cases:
  assumes "length (xs :: 'a list) = 9"
  obtains a b c d e f g h i where "xs = [a, b, c, d, e, f, g, h, i]"
proof -
  from assms have "length xs = Suc (Suc (Suc (Suc (Suc (Suc (Suc (Suc (Suc 0))))))))"
    by simp
  then show ?thesis
    using that by (auto simp: length_Suc_conv)
qed

text \<open>
  C1. For every list of nine column values, \<open>mm_send_cols\<close> on an open port raises
  nothing and writes exactly one byte string of 11 bytes: the header 0x1B 0x31, then the
  nine columns in reversed order (the rightmost logical column first), each masked with
  0x7F, so that every data byte lies between 0 and 0x7F.
\<close>

theorem mm_send_cols_wire:
  assumes "length cols = 9" and "is_open v"
  shows "\<exists>frame.
           mm_send_cols cols v = Inr (v\<lparr>tx := tx v @ [frame]\<rparr>) \<and>
           length frame = 11 \<and>
           frame = [0x1B, 0x31,
                    cols ! 8 AND 0x7F, cols ! 7 AND 0x7F, cols ! 6 AND 0x7F,
                    cols ! 5 AND 0x7F, cols ! 4 AND 0x7F, cols ! 3 AND 0x7F,
                    cols ! 2 AND 0x7F, cols ! 1 AND 0x7F, cols ! 0 AND 0x7F] \<and>
           (\<forall>i < 9. frame ! (2 + i) = cols ! (8 - i) AND 0x7F \<and>
                    0 \<le> frame ! (2 + i) \<and> frame ! (2 + i) \<le> 0x7F)"
proof -
  from assms(1) obtain a b c d e f g h i where cols: "cols = [a, b, c, d, e, f, g, h, i]"
    by (rule list9_cases)
  have rng: "\<And>x::int. 0 \<le> x AND 0x7F" "\<And>x::int. x AND 0x7F < 256"
    using and_7f_range by (simp, smt (verit) and_7f_range)
  have sent: "mm_send_cols cols v =
      Inr (v\<lparr>tx := tx v @ [[0x1B, 0x31, i AND 0x7F, h AND 0x7F, g AND 0x7F, f AND 0x7F,
                              e AND 0x7F, d AND 0x7F, c AND 0x7F, b AND 0x7F, a AND 0x7F]]\<rparr>)"
    using assms(2) rng by (simp add: mm_send_cols_def cols bytes_def send_def)
  have idx: "\<forall>j < 9. [0x1B, 0x31, i AND 0x7F, h AND 0x7F, g AND 0x7F, f AND 0x7F,
                       e AND 0x7F, d AND 0x7F, c AND 0x7F, b AND 0x7F, a AND 0x7F] ! (2 + j)
                      = cols ! (8 - j) AND 0x7F"
  proof (intro allI impI)
    fix j :: nat assume "j < 9"
    then consider "j = 0" | "j = 1" | "j = 2" | "j = 3" | "j = 4" | "j = 5" | "j = 6"
      | "j = 7" | "j = 8" by linarith
    then show "[0x1B, 0x31, i AND 0x7F, h AND 0x7F, g AND 0x7F, f AND 0x7F,
                e AND 0x7F, d AND 0x7F, c AND 0x7F, b AND 0x7F, a AND 0x7F] ! (2 + j)
               = cols ! (8 - j) AND 0x7F"
      by cases (simp_all add: cols)
  qed
  show ?thesis
    apply (rule exI [where x = "[0x1B, 0x31, i AND 0x7F, h AND 0x7F, g AND 0x7F, f AND 0x7F,
                              e AND 0x7F, d AND 0x7F, c AND 0x7F, b AND 0x7F, a AND 0x7F]"])
    apply (intro conjI)
       apply (rule sent)
      apply simp
     apply (simp add: cols)
    using idx and_7f_range apply (metis (no_types, lifting))
    done
qed

theorem mm_send_cols_wire_witness:
  "\<exists>frame.
     mm_send_cols [1, 2, 3, 4, 5, 6, 7, 8, 0xFF] \<lparr>is_open = True, tx = []\<rparr>
       = Inr \<lparr>is_open = True, tx = [frame]\<rparr> \<and>
     frame = [0x1B, 0x31, 0x7F, 8, 7, 6, 5, 4, 3, 2, 1]"
  using mm_send_cols_wire [of "[1, 2, 3, 4, 5, 6, 7, 8, 0xFF]" "\<lparr>is_open = True, tx = []\<rparr>"]
  by simp

lemma and_then_Inr [simp]: "and_then (Inr x) f = f x"
  by (simp add: and_then_def)

lemma and_then_Inl [simp]: "and_then (Inl e) f = Inl e"
  by (simp add: and_then_def)

lemma and_then_eq_Inr: "and_then m f = Inr y \<longleftrightarrow> (\<exists>x. m = Inr x \<and> f x = Inr y)"
  by (cases m) simp_all

lemma and_7f_lt_256: "(c::int) AND 0x7F < 256"
  using and_7f_range [of c] by linarith

lemma and_7f_ge_0: "0 \<le> (c::int) AND 0x7F"
  using and_7f_range [of c] by linarith

lemma mm_send_cols_eq:
  "mm_send_cols cols v = Inr (send ([0x1B, 0x31] @ map (\<lambda>c. c AND 0x7F) (rev cols)) v)"
  by (simp add: mm_send_cols_def bytes_def list_all_iff and_7f_lt_256 and_7f_ge_0)

lemma on_vfd_mm_send_cols:
  "on_vfd (mm_send_cols cols) s =
     Inr (s\<lparr>vfd := send ([0x1B, 0x31] @ map (\<lambda>c. c AND 0x7F) (rev cols)) (vfd s)\<rparr>)"
  by (simp add: on_vfd_def mm_send_cols_eq)

lemma set_px_ok:
  assumes "0 \<le> r" "0 \<le> c" "c < int (length cols)"
  shows "set_px cols (r, c) = Inr (cols[nat c := cols ! nat c OR push_bit (nat r) 1])"
  using assms by (simp add: set_px_def py_index_def)

lemma plot_ok:
  assumes "\<forall>p \<in> set cells. 0 \<le> fst p \<and> 0 \<le> snd p \<and> snd p < int (length cols)"
  shows "\<exists>cols'. plot cells cols = Inr cols' \<and> length cols' = length cols \<and>
           (\<forall>j < length cols. \<forall>n. bit (cols' ! j) n \<longleftrightarrow> bit (cols ! j) n \<or> (int n, int j) \<in> set cells)"
  using assms
proof (induction cells arbitrary: cols)
  case Nil
  then show ?case by simp
next
  case (Cons p cells)
  obtain r c where p: "p = (r, c)" by (cases p)
  from Cons.prems p have rc: "0 \<le> r" "0 \<le> c" "c < int (length cols)" by auto
  let ?cols1 = "cols[nat c := cols ! nat c OR push_bit (nat r) 1]"
  have step: "set_px cols p = Inr ?cols1"
    using rc p by (simp add: set_px_ok)
  have "\<forall>p \<in> set cells. 0 \<le> fst p \<and> 0 \<le> snd p \<and> snd p < int (length ?cols1)"
    using Cons.prems by simp
  from Cons.IH [OF this] obtain cols' where IH: "plot cells ?cols1 = Inr cols'"
    "length cols' = length cols"
    "\<forall>j < length cols. \<forall>n. bit (cols' ! j) n \<longleftrightarrow> bit (?cols1 ! j) n \<or> (int n, int j) \<in> set cells"
    by auto
  have upd: "\<And>j n. j < length cols \<Longrightarrow>
      bit (?cols1 ! j) n \<longleftrightarrow> bit (cols ! j) n \<or> (int n, int j) = (r, c)"
  proof -
    fix j n assume j: "j < length cols"
    show "bit (?cols1 ! j) n \<longleftrightarrow> bit (cols ! j) n \<or> (int n, int j) = (r, c)"
    proof (cases "j = nat c")
      case True
      then show ?thesis
        using rc j by (auto simp: bit_or_iff bit_exp_iff)
    next
      case False
      then show ?thesis using rc j by auto
    qed
  qed
  show ?case
    apply (rule exI [where x = cols'])
    using IH upd p step by auto
qed

lemma drop8: "drop_bit 8 (y::int) AND 0xFF = (y div 256) mod 256"
  by (simp add: and_ff_mod drop_bit_eq_div)

text \<open>
  C8. For every value a datetime can hold (years 1 to 9999, so every 4-digit year),
  \<open>clock_set\<close> on an open port raises nothing and writes the escape byte 0x1B, the code
  0x00 and exactly six bytes: minute, hour, day, month, the high byte and the low byte
  of the year. Each is a byte, and decoding the six bytes, the year recombined as
  high * 256 + low, gives back minute, hour, day, month and year.
\<close>

theorem clock_set_roundtrip:
  assumes "datetime_ok dt" and "is_open v"
  shows "\<exists>yhi ylo.
           clock_set dt v =
             Inr (v\<lparr>tx := tx v @ [[0x1B, 0x00, minute dt, hour dt, day dt, month dt, yhi, ylo]]\<rparr>) \<and>
           0 \<le> yhi \<and> yhi < 256 \<and> 0 \<le> ylo \<and> ylo < 256 \<and>
           yhi = year dt div 256 \<and> ylo = year dt mod 256 \<and>
           decode_clock [minute dt, hour dt, day dt, month dt, yhi, ylo] =
             Some (minute dt, hour dt, day dt, month dt, year dt)"
proof -
  have d31: "days_in_month (year dt) (month dt) \<le> 31"
    by (simp add: days_in_month_def)
  from assms(1) d31 have rng: "0 \<le> minute dt" "minute dt < 256" "0 \<le> hour dt" "hour dt < 256"
    "0 \<le> day dt" "day dt < 256" "0 \<le> month dt" "month dt < 256" "0 \<le> year dt" "year dt < 65536"
    by (auto simp: datetime_ok_def)
  have hi: "drop_bit 8 (year dt) AND 0xFF = year dt div 256"
    using rng(9,10) by (simp add: drop8)
  have hi_rng: "0 \<le> year dt div 256" "year dt div 256 < 256"
    using rng(9,10) by auto
  have lo_rng: "0 \<le> year dt mod 256" "year dt mod 256 < 256"
    by auto
  have "clock_set dt v =
      Inr (v\<lparr>tx := tx v @ [[0x1B, 0x00, minute dt, hour dt, day dt, month dt,
                              year dt div 256, year dt mod 256]]\<rparr>)"
    using assms(2) rng hi_rng lo_rng
    by (simp add: clock_set_def ESC_def bytes_def send_def and_ff_mod drop_bit_eq_div Let_def)
  moreover have "decode_clock [minute dt, hour dt, day dt, month dt, year dt div 256, year dt mod 256]
      = Some (minute dt, hour dt, day dt, month dt, year dt)"
    by (simp add: decode_clock_def)
  ultimately show ?thesis
    using hi_rng lo_rng by blast
qed

theorem clock_set_roundtrip_witness:
  "datetime_ok dt_2025 \<and>
   clock_set dt_2025 \<lparr>is_open = True, tx = []\<rparr>
     = Inr \<lparr>is_open = True, tx = [[0x1B, 0x00, 58, 13, 3, 11, 7, 233]]\<rparr> \<and>
   decode_clock [58, 13, 3, 11, 7, 233] = Some (58, 13, 3, 11, 2025)"
proof -
  have ok: "datetime_ok dt_2025"
    by (simp add: datetime_ok_def dt_2025_def days_in_month_def)
  show ?thesis
    using ok clock_set_roundtrip [OF ok, of "\<lparr>is_open = True, tx = []\<rparr>"]
    by (simp add: dt_2025_def)
qed

subsection \<open>Game of Life\<close>

lemma offsets8_eq: "offsets8 = [(-1,-1), (-1,0), (-1,1), (0,-1), (0,1), (1,-1), (1,0), (1,1)]"
  by (simp add: offsets8_def)

lemma distinct_offsets8: "distinct offsets8"
  by (simp add: offsets8_eq)

lemma set_offsets8:
  "set offsets8 = {(dr, dc). (dr = -1 \<or> dr = 0 \<or> dr = 1) \<and> (dc = -1 \<or> dc = 0 \<or> dc = 1) \<and> \<not> (dr = 0 \<and> dc = 0)}"
  by (auto simp: offsets8_eq)

lemma gol_neighbours_moore:
  "gol_neighbours g r c = moore_alive g r c"
proof -
  let ?P = "\<lambda>(dr, dc). let rr = int r + dr; cc = int c + dc
             in 0 \<le> rr \<and> rr < 7 \<and> 0 \<le> cc \<and> cc < 9 \<and> g ! nat rr ! nat cc \<noteq> 0"
  let ?F = "filter ?P offsets8"
  let ?phi = "\<lambda>(dr, dc). (nat (int r + dr), nat (int c + dc))"
  let ?M = "{(rr, cc). rr < 7 \<and> cc < 9 \<and> (rr, cc) \<noteq> (r, c) \<and>
                     rr \<le> r + 1 \<and> r \<le> rr + 1 \<and> cc \<le> c + 1 \<and> c \<le> cc + 1 \<and>
                     g ! rr ! cc \<noteq> 0}"
  have inj: "inj_on ?phi (set ?F)"
    by (auto simp: inj_on_def Let_def)
  have img: "?phi ` set ?F = ?M"
  proof (intro equalityI subsetI)
    fix p assume "p \<in> ?phi ` set ?F"
    then obtain dr dc where d: "(dr, dc) \<in> set offsets8" "?P (dr, dc)" "p = ?phi (dr, dc)"
      by auto
    from d(1) have "(dr = -1 \<or> dr = 0 \<or> dr = 1) \<and> (dc = -1 \<or> dc = 0 \<or> dc = 1) \<and> \<not> (dr = 0 \<and> dc = 0)"
      by (simp add: set_offsets8)
    with d(2,3) show "p \<in> ?M"
      by (auto simp: Let_def)
  next
    fix p assume "p \<in> ?M"
    then obtain rr cc where p: "p = (rr, cc)" "rr < 7" "cc < 9" "(rr, cc) \<noteq> (r, c)"
        "rr \<le> r + 1" "r \<le> rr + 1" "cc \<le> c + 1" "c \<le> cc + 1" "g ! rr ! cc \<noteq> 0"
      by auto
    let ?dr = "int rr - int r" and ?dc = "int cc - int c"
    have m1: "(?dr, ?dc) \<in> set offsets8"
      using p by (auto simp: set_offsets8)
    have m2: "?P (?dr, ?dc)"
      using p by (simp add: Let_def)
    have mem: "(?dr, ?dc) \<in> set ?F"
      using m1 m2 by simp
    have val: "p = ?phi (?dr, ?dc)"
      using p by simp
    show "p \<in> ?phi ` set ?F"
      using mem val by (rule rev_image_eqI)
  qed
  have "gol_neighbours g r c = length ?F"
    by (simp add: gol_neighbours_def offsets8_def)
  also have "\<dots> = card (set ?F)"
    using distinct_offsets8 distinct_card [of ?F] by (simp only: distinct_filter)
  also have "\<dots> = card (?phi ` set ?F)"
    using inj by (simp add: card_image)
  also have "\<dots> = moore_alive g r c"
    by (simp only: img moore_alive_def)
  finally show ?thesis .
qed

lemma grid_of_nth:
  "r < 7 \<Longrightarrow> c < 9 \<Longrightarrow> grid_of cells ! r ! c = (if (r, c) \<in> set cells then 1 else 0)"
  by (simp add: grid_of_def)

lemma grid_ok_grid_of: "grid_ok (grid_of cells)"
  by (simp add: grid_ok_def grid_of_def list_all_iff)

lemma moore_grid_of:
  assumes "distinct cells" and "\<forall>p \<in> set cells. fst p < 7 \<and> snd p < 9"
  shows "moore_alive (grid_of cells) r c = length (filter (adj8 (r, c)) cells)"
proof -
  have "{(rr, cc). rr < 7 \<and> cc < 9 \<and> (rr, cc) \<noteq> (r, c) \<and>
                     rr \<le> r + 1 \<and> r \<le> rr + 1 \<and> cc \<le> c + 1 \<and> c \<le> cc + 1 \<and>
                     grid_of cells ! rr ! cc \<noteq> 0} = set (filter (adj8 (r, c)) cells)"
    using assms(2) by (auto simp: grid_of_nth adj8_def split: if_splits)
  then have "moore_alive (grid_of cells) r c = card (set (filter (adj8 (r, c)) cells))"
    by (simp only: moore_alive_def)
  also have "\<dots> = length (filter (adj8 (r, c)) cells)"
    using assms(1) distinct_card [of "filter (adj8 (r, c)) cells"] by (simp only: distinct_filter)
  finally show ?thesis .
qed

lemma gol_step_grid_of:
  assumes "distinct cells" and "\<forall>p \<in> set cells. fst p < 7 \<and> snd p < 9"
    and "\<And>r c. r < 7 \<Longrightarrow> c < 9 \<Longrightarrow>
           (r, c) \<in> set cells' \<longleftrightarrow>
           ((r, c) \<in> set cells \<and> (length (filter (adj8 (r, c)) cells) = 2 \<or>
                                     length (filter (adj8 (r, c)) cells) = 3)) \<or>
           ((r, c) \<notin> set cells \<and> length (filter (adj8 (r, c)) cells) = 3)"
  shows "gol_step (grid_of cells) = Inr (grid_of cells')"
proof -
  have "map (\<lambda>r. map (\<lambda>c. let n = gol_neighbours (grid_of cells) r c
                                  in if grid_of cells ! r ! c \<noteq> 0 \<and> (n = 2 \<or> n = 3) then 1
                                     else if \<not> grid_of cells ! r ! c \<noteq> 0 \<and> n = 3 then (1::int)
                                     else 0)
                           [0 ..< 9])
                   [0 ..< 7] = grid_of cells'"
    unfolding grid_of_def [of cells']
  proof (intro map_cong refl)
    fix r c :: nat assume "r \<in> set [0 ..< 7]" "c \<in> set [0 ..< 9]"
    then have rc: "r < 7" "c < 9" by simp_all
    show "(let n = gol_neighbours (grid_of cells) r c
                                  in if grid_of cells ! r ! c \<noteq> 0 \<and> (n = 2 \<or> n = 3) then 1
                                     else if \<not> grid_of cells ! r ! c \<noteq> 0 \<and> n = 3 then (1::int)
                                     else 0) = (if (r, c) \<in> set cells' then 1 else 0)"
      using assms(3) [OF rc] rc
      by (simp add: Let_def gol_neighbours_moore moore_grid_of [OF assms(1,2)] grid_of_nth)
  qed
  then show ?thesis
    by (simp add: gol_step_def grid_ok_grid_of)
qed

lemma block_still:
  assumes "r \<le> 5" "c \<le> 7"
  shows "gol_step (grid_of (block r c)) = Inr (grid_of (block r c))"
proof (rule gol_step_grid_of)
  show "distinct (block r c)" by (simp add: block_def)
  show "\<forall>p \<in> set (block r c). fst p < 7 \<and> snd p < 9"
    using assms by (simp add: block_def)
  fix r' c' :: nat
  show "(r', c') \<in> set (block r c) \<longleftrightarrow>
           ((r', c') \<in> set (block r c) \<and> (length (filter (adj8 (r', c')) (block r c)) = 2 \<or>
                                     length (filter (adj8 (r', c')) (block r c)) = 3)) \<or>
           ((r', c') \<notin> set (block r c) \<and> length (filter (adj8 (r', c')) (block r c)) = 3)"
    by (auto simp: block_def adj8_def)
qed

lemma blinker_h_v:
  assumes "1 \<le> r" "r \<le> 5" "1 \<le> c" "c \<le> 7"
  shows "gol_step (grid_of (blinker_h r c)) = Inr (grid_of (blinker_v r c))"
proof (rule gol_step_grid_of)
  show "distinct (blinker_h r c)" using assms by (auto simp: blinker_h_def)
  show "\<forall>p \<in> set (blinker_h r c). fst p < 7 \<and> snd p < 9"
    using assms by (simp add: blinker_h_def)
  fix r' c' :: nat
  show "(r', c') \<in> set (blinker_v r c) \<longleftrightarrow>
           ((r', c') \<in> set (blinker_h r c) \<and> (length (filter (adj8 (r', c')) (blinker_h r c)) = 2 \<or>
                                     length (filter (adj8 (r', c')) (blinker_h r c)) = 3)) \<or>
           ((r', c') \<notin> set (blinker_h r c) \<and> length (filter (adj8 (r', c')) (blinker_h r c)) = 3)"
    using assms by (auto simp: blinker_h_def blinker_v_def adj8_def)
qed

lemma blinker_v_h:
  assumes "1 \<le> r" "r \<le> 5" "1 \<le> c" "c \<le> 7"
  shows "gol_step (grid_of (blinker_v r c)) = Inr (grid_of (blinker_h r c))"
proof (rule gol_step_grid_of)
  show "distinct (blinker_v r c)" using assms by (auto simp: blinker_v_def)
  show "\<forall>p \<in> set (blinker_v r c). fst p < 7 \<and> snd p < 9"
    using assms by (simp add: blinker_v_def)
  fix r' c' :: nat
  show "(r', c') \<in> set (blinker_h r c) \<longleftrightarrow>
           ((r', c') \<in> set (blinker_v r c) \<and> (length (filter (adj8 (r', c')) (blinker_v r c)) = 2 \<or>
                                     length (filter (adj8 (r', c')) (blinker_v r c)) = 3)) \<or>
           ((r', c') \<notin> set (blinker_v r c) \<and> length (filter (adj8 (r', c')) (blinker_v r c)) = 3)"
    using assms by (auto simp: blinker_h_def blinker_v_def adj8_def)
qed

text \<open>
  C7 (amended). One step of \<open>gol_step\<close> on a grid of 7 rows of 9 cells raises nothing
  and returns a new grid of 7 rows of 9 cells, each cell computed from the input grid
  alone by Conway's rule over the Moore neighbourhood within the grid: a live cell
  stays alive exactly when 2 or 3 of its neighbours are alive, a dead cell becomes
  alive exactly when 3 are. Consequently a 2 by 2 block anywhere in the grid is
  unchanged by a step, and a blinker of three cells whose middle cell is not on the
  boundary of the grid becomes the three cells in a column and back: it oscillates with
  period 2.
\<close>

theorem gol_step_conway:
  "(grid_ok g \<longrightarrow>
      (\<exists>out. gol_step g = Inr out \<and> length out = 7 \<and> (\<forall>r < 7. length (out ! r) = 9) \<and>
         (\<forall>r < 7. \<forall>c < 9.
            out ! r ! c =
              (if (g ! r ! c \<noteq> 0 \<and> (moore_alive g r c = 2 \<or> moore_alive g r c = 3)) \<or>
                  (g ! r ! c = 0 \<and> moore_alive g r c = 3)
               then 1 else 0)))) \<and>
   (r \<le> 5 \<and> c \<le> 7 \<longrightarrow> gol_step (grid_of (block r c)) = Inr (grid_of (block r c))) \<and>
   (1 \<le> r \<and> r \<le> 5 \<and> 1 \<le> c \<and> c \<le> 7 \<longrightarrow>
      gol_step (grid_of (blinker_h r c)) = Inr (grid_of (blinker_v r c)) \<and>
      gol_step (grid_of (blinker_v r c)) = Inr (grid_of (blinker_h r c)) \<and>
      grid_of (blinker_h r c) \<noteq> grid_of (blinker_v r c))"
proof (intro conjI impI)
  assume ok: "grid_ok g"
  let ?out = "map (\<lambda>r. map (\<lambda>c. let n = gol_neighbours g r c
                                  in if g ! r ! c \<noteq> 0 \<and> (n = 2 \<or> n = 3) then 1
                                     else if \<not> g ! r ! c \<noteq> 0 \<and> n = 3 then (1::int)
                                     else 0)
                           [0 ..< 9])
                   [0 ..< 7]"
  have "gol_step g = Inr ?out"
    using ok by (simp add: gol_step_def)
  moreover have "length ?out = 7" by simp
  moreover have "\<forall>r < 7. length (?out ! r) = 9" by simp
  moreover have "\<forall>r < 7. \<forall>c < 9.
            ?out ! r ! c =
              (if (g ! r ! c \<noteq> 0 \<and> (moore_alive g r c = 2 \<or> moore_alive g r c = 3)) \<or>
                  (g ! r ! c = 0 \<and> moore_alive g r c = 3)
               then 1 else 0)"
    by (auto simp: gol_neighbours_moore Let_def)
  ultimately show "\<exists>out. gol_step g = Inr out \<and> length out = 7 \<and> (\<forall>r < 7. length (out ! r) = 9) \<and>
         (\<forall>r < 7. \<forall>c < 9.
            out ! r ! c =
              (if (g ! r ! c \<noteq> 0 \<and> (moore_alive g r c = 2 \<or> moore_alive g r c = 3)) \<or>
                  (g ! r ! c = 0 \<and> moore_alive g r c = 3)
               then 1 else 0))"
    by blast
next
  assume "r \<le> 5 \<and> c \<le> 7"
  then show "gol_step (grid_of (block r c)) = Inr (grid_of (block r c))"
    by (simp add: block_still)
next
  assume a: "1 \<le> r \<and> r \<le> 5 \<and> 1 \<le> c \<and> c \<le> 7"
  then show "gol_step (grid_of (blinker_h r c)) = Inr (grid_of (blinker_v r c))"
    by (simp add: blinker_h_v)
  from a show "gol_step (grid_of (blinker_v r c)) = Inr (grid_of (blinker_h r c))"
    by (simp add: blinker_v_h)
  show "grid_of (blinker_h r c) \<noteq> grid_of (blinker_v r c)"
  proof
    assume eq: "grid_of (blinker_h r c) = grid_of (blinker_v r c)"
    from a have b: "r < 7" "c - 1 < 9" by linarith+
    have h: "grid_of (blinker_h r c) ! r ! (c - 1) = 1"
      unfolding grid_of_nth [OF b] by (simp add: blinker_h_def)
    have v: "grid_of (blinker_v r c) ! r ! (c - 1) = 0"
      unfolding grid_of_nth [OF b] using a by (auto simp: blinker_v_def)
    from eq h v show False by simp
  qed
qed

theorem gol_step_conway_witness:
  "grid_ok (grid_of (blinker_h 3 4)) \<and>
   (\<exists>out. gol_step (grid_of (blinker_h 3 4)) = Inr out \<and> length out = 7 \<and>
      out ! 2 ! 4 = (if moore_alive (grid_of (blinker_h 3 4)) 2 4 = 3 then 1 else 0)) \<and>
   gol_step (grid_of (block 0 0)) = Inr (grid_of (block 0 0)) \<and>
   gol_step (grid_of (blinker_h 3 4)) = Inr (grid_of (blinker_v 3 4)) \<and>
   gol_step (grid_of (blinker_v 3 4)) = Inr (grid_of (blinker_h 3 4)) \<and>
   grid_of (blinker_h 3 4) \<noteq> grid_of (blinker_v 3 4)"
proof -
  have ok: "grid_ok (grid_of (blinker_h 3 4))"
    by (rule grid_ok_grid_of)
  have dead: "grid_of (blinker_h 3 4) ! 2 ! 4 = 0"
    by (simp add: grid_of_nth blinker_h_def)
  from gol_step_conway [of "grid_of (blinker_h 3 4)" 0 0] ok
  have blk: "gol_step (grid_of (block 0 0)) = Inr (grid_of (block 0 0))"
    and "\<exists>out. gol_step (grid_of (blinker_h 3 4)) = Inr out \<and> length out = 7 \<and>
      (\<forall>r < 7. \<forall>c < 9. out ! r ! c =
         (if (grid_of (blinker_h 3 4) ! r ! c \<noteq> 0 \<and>
               (moore_alive (grid_of (blinker_h 3 4)) r c = 2 \<or>
                moore_alive (grid_of (blinker_h 3 4)) r c = 3)) \<or>
             (grid_of (blinker_h 3 4) ! r ! c = 0 \<and> moore_alive (grid_of (blinker_h 3 4)) r c = 3)
          then 1 else 0))"
    by auto
  then obtain out where out: "gol_step (grid_of (blinker_h 3 4)) = Inr out" "length out = 7"
     "\<forall>r < 7. \<forall>c < 9. out ! r ! c =
         (if (grid_of (blinker_h 3 4) ! r ! c \<noteq> 0 \<and>
               (moore_alive (grid_of (blinker_h 3 4)) r c = 2 \<or>
                moore_alive (grid_of (blinker_h 3 4)) r c = 3)) \<or>
             (grid_of (blinker_h 3 4) ! r ! c = 0 \<and> moore_alive (grid_of (blinker_h 3 4)) r c = 3)
          then 1 else 0)"
    by blast
  from out(3) dead have "out ! 2 ! 4 = (if moore_alive (grid_of (blinker_h 3 4)) 2 4 = 3 then 1 else 0)"
    by simp
  with out have ex: "\<exists>out. gol_step (grid_of (blinker_h 3 4)) = Inr out \<and> length out = 7 \<and>
      out ! 2 ! 4 = (if moore_alive (grid_of (blinker_h 3 4)) 2 4 = 3 then 1 else 0)"
    by blast
  from gol_step_conway [of g 3 4]
  have "gol_step (grid_of (blinker_h 3 4)) = Inr (grid_of (blinker_v 3 4)) \<and>
      gol_step (grid_of (blinker_v 3 4)) = Inr (grid_of (blinker_h 3 4)) \<and>
      grid_of (blinker_h 3 4) \<noteq> grid_of (blinker_v 3 4)"
    by simp
  with ok ex blk show ?thesis by blast
qed

text \<open>
  C7 as stated fails for a blinker on the boundary: the three cells of row 0 in columns
  3, 4 and 5 become the two cells of column 4 in rows 0 and 1 (the third cell of the
  vertical phase would lie outside the grid), and these become the empty grid. The
  pattern does not come back after two steps.
\<close>

theorem blinker_on_edge_counterexample:
  "case gol_step (grid_of [(0, 3), (0, 4), (0, 5)]) of
     Inl err \<Rightarrow> False
   | Inr g1 \<Rightarrow>
       g1 = grid_of [(0, 4), (1, 4)] \<and>
       (case gol_step g1 of
          Inl err \<Rightarrow> False
        | Inr g2 \<Rightarrow> g2 = grid_of [] \<and> g2 \<noteq> grid_of [(0, 3), (0, 4), (0, 5)])"
  by code_simp

subsection \<open>Rain\<close>

lemma mm_lit_frame:
  assumes "length cols = 9" "0 \<le> r" "r \<le> 6" "0 \<le> c" "c \<le> 8"
  shows "mm_lit ([0x1B, 0x31] @ map (\<lambda>c. c AND 0x7F) (rev cols)) r c \<longleftrightarrow> bit (cols ! nat c) (nat r)"
proof -
  from assms(1) obtain a0 a1 a2 a3 a4 a5 a6 a7 a8 where cols: "cols = [a0, a1, a2, a3, a4, a5, a6, a7, a8]"
    by (rule list9_cases)
  from assms(4,5) consider "c = 0" | "c = 1" | "c = 2" | "c = 3" | "c = 4" | "c = 5" | "c = 6"
      | "c = 7" | "c = 8" by linarith
  then have nth: "([0x1B, 0x31] @ map (\<lambda>c. c AND 0x7F) (rev cols)) ! nat (10 - c) = cols ! nat c AND 0x7F"
    by cases (simp_all add: cols)
  have "nat r < 7" using assms(2,3) by linarith
  then have "bit (0x7F :: int) (nat r)"
    using bit_mask_iff [where ?'a = int, of 7 "nat r"] by (simp add: mask_eq_exp_minus_1)
  then show ?thesis
    by (simp only: mm_lit_def nth bit_and_iff) simp
qed

lemma rain_tick_unfold:
  assumes "loop s MiniRain" and "is_open (vfd s)"
    and new: "new = map (\<lambda>(r, c). (r + 1, c)) (filter (\<lambda>(r, c). r + 1 \<le> 6)
                 (rain_drops s @ (if rain_u e < rain_p then [(0, rain_col e)] else [])))"
    and plot: "plot new (replicate 9 0) = Inr cols"
  shows "rain_tick e s =
     Inr (s\<lparr>rain_drops := new,
            vfd := (vfd s)\<lparr>tx := tx (vfd s) @ [[0x1B, 0x31] @ map (\<lambda>c. c AND 0x7F) (rev cols)]\<rparr>,
            timers := timers s @ [(ms s MiniRain, RainTick)]\<rparr>)"
  using assms(1,2) plot unfolding new
  by (cases "rain_u e < rain_p")
    (simp_all add: rain_tick_def Let_def on_vfd_mm_send_cols send_def after_def)

text \<open>
  C9 (amended). A rain tick of the enabled effect on an open port, the drops on the
  matrix columns: a drop is spawned at row 0 of the drawn column exactly when the draw
  of \<^verbatim>\<open>random.random()\<close> is below \<open>rain_p\<close>; then every drop, the one just spawned
  included, advances by one row, and the drops that would pass row 6 are discarded.
  The frame written on that tick lights exactly the positions of the drops after the
  advance. So a drop spawned on a tick shows at row 1 in that tick's frame, and row 0
  is never lit.
\<close>

theorem rain_tick_frame:
  assumes "loop s MiniRain" and "is_open (vfd s)"
    and drops: "\<forall>p \<in> set (rain_drops s). 0 \<le> fst p \<and> 0 \<le> snd p \<and> snd p \<le> 8"
    and col: "0 \<le> rain_col e" "rain_col e \<le> 8"
  shows "\<exists>s' frame.
     rain_tick e s = Inr s' \<and>
     rain_drops s' = map (\<lambda>(r, c). (r + 1, c)) (filter (\<lambda>(r, c). r + 1 \<le> 6)
                       (rain_drops s @ (if rain_u e < rain_p then [(0, rain_col e)] else []))) \<and>
     tx (vfd s') = tx (vfd s) @ [frame] \<and> length frame = 11 \<and>
     timers s' = timers s @ [(ms s MiniRain, RainTick)] \<and>
     (\<forall>r c. 0 \<le> r \<and> r \<le> 6 \<and> 0 \<le> c \<and> c \<le> 8 \<longrightarrow>
            (mm_lit frame r c \<longleftrightarrow> (r, c) \<in> set (rain_drops s'))) \<and>
     (rain_u e < rain_p \<longrightarrow> (1, rain_col e) \<in> set (rain_drops s') \<and> mm_lit frame 1 (rain_col e)) \<and>
     (\<forall>c. 0 \<le> c \<and> c \<le> 8 \<longrightarrow> \<not> mm_lit frame 0 c)"
proof -
  define new where "new = map (\<lambda>(r, c). (r + 1, c)) (filter (\<lambda>(r, c). r + 1 \<le> 6)
                 (rain_drops s @ (if rain_u e < rain_p then [(0, rain_col e)] else [])))"
  have new_rng: "\<forall>p \<in> set new. 1 \<le> fst p \<and> fst p \<le> 6 \<and> 0 \<le> snd p \<and> snd p \<le> 8"
    using drops col by (auto simp: new_def)
  then have "\<forall>p \<in> set new. 0 \<le> fst p \<and> 0 \<le> snd p \<and> snd p < int (length (replicate 9 (0::int)))"
    by auto
  from plot_ok [OF this] obtain cols where cols: "plot new (replicate 9 0) = Inr cols"
    "length cols = 9"
    "\<forall>j < 9. \<forall>n. bit (cols ! j) n \<longleftrightarrow> (int n, int j) \<in> set new"
    by auto
  let ?frame = "[0x1B, 0x31] @ map (\<lambda>c. c AND 0x7F) (rev cols)"
  let ?s' = "s\<lparr>rain_drops := new,
            vfd := (vfd s)\<lparr>tx := tx (vfd s) @ [?frame]\<rparr>,
            timers := timers s @ [(ms s MiniRain, RainTick)]\<rparr>"
  have tick: "rain_tick e s = Inr ?s'"
    using assms(1,2) new_def cols(1) by (rule rain_tick_unfold)
  have lit: "\<And>r c. 0 \<le> r \<Longrightarrow> r \<le> 6 \<Longrightarrow> 0 \<le> c \<Longrightarrow> c \<le> 8 \<Longrightarrow>
      mm_lit ?frame r c \<longleftrightarrow> (r, c) \<in> set new"
  proof -
    fix r c :: int assume rc: "0 \<le> r" "r \<le> 6" "0 \<le> c" "c \<le> 8"
    have "mm_lit ?frame r c \<longleftrightarrow> bit (cols ! nat c) (nat r)"
      using cols(2) rc by (rule mm_lit_frame)
    also have "\<dots> \<longleftrightarrow> (int (nat r), int (nat c)) \<in> set new"
      using cols(3) rc by simp
    finally show "mm_lit ?frame r c \<longleftrightarrow> (r, c) \<in> set new"
      using rc by simp
  qed
  have spawned: "rain_u e < rain_p \<Longrightarrow> (1, rain_col e) \<in> set new"
    by (auto simp: new_def)
  have row0: "\<And>c. (0, c) \<notin> set new"
    using new_rng by force
  show ?thesis
  proof (rule exI [where x = ?s'], rule exI [where x = ?frame], intro conjI)
    show "rain_tick e s = Inr ?s'" by (rule tick)
    show "rain_drops ?s' = map (\<lambda>(r, c). (r + 1, c)) (filter (\<lambda>(r, c). r + 1 \<le> 6)
                       (rain_drops s @ (if rain_u e < rain_p then [(0, rain_col e)] else [])))"
      by (simp only: new_def) simp
    show "tx (vfd ?s') = tx (vfd s) @ [?frame]" by simp
    show "length ?frame = 11" using cols(2) by simp
    show "timers ?s' = timers s @ [(ms s MiniRain, RainTick)]" by simp
    show "\<forall>r c. 0 \<le> r \<and> r \<le> 6 \<and> 0 \<le> c \<and> c \<le> 8 \<longrightarrow>
            (mm_lit ?frame r c \<longleftrightarrow> (r, c) \<in> set (rain_drops ?s'))"
      using lit by simp
    show "rain_u e < rain_p \<longrightarrow> (1, rain_col e) \<in> set (rain_drops ?s') \<and> mm_lit ?frame 1 (rain_col e)"
      using spawned lit [of 1 "rain_col e"] col by simp
    show "\<forall>c. 0 \<le> c \<and> c \<le> 8 \<longrightarrow> \<not> mm_lit ?frame 0 c"
      using row0 lit [of 0] by simp
  qed
qed

theorem rain_tick_frame_witness:
  "loop st_rain MiniRain \<and> is_open (vfd st_rain) \<and> rain_drops st_rain = [] \<and>
   rain_u env0 < rain_p \<and> rain_col env0 = 4 \<and>
   (\<exists>s' frame. rain_tick env0 st_rain = Inr s' \<and> rain_drops s' = [(1, 4)] \<and>
      tx (vfd s') = tx (vfd st_rain) @ [frame] \<and> mm_lit frame 1 4 \<and> \<not> mm_lit frame 0 4)"
proof -
  have h1: "loop st_rain MiniRain" by (simp add: st_rain_def)
  have h2: "is_open (vfd st_rain)" by (simp add: st_rain_def st_open_def)
  have h3: "rain_drops st_rain = []" by (simp add: st_rain_def st_open_def app_init_def)
  have h4: "rain_u env0 < rain_p" by (simp add: env0_def rain_p_def)
  have h5: "rain_col env0 = 4" by (simp add: env0_def)
  have d: "\<forall>p \<in> set (rain_drops st_rain). 0 \<le> fst p \<and> 0 \<le> snd p \<and> snd p \<le> 8"
    by (simp add: h3)
  from rain_tick_frame [OF h1 h2 d, of env0] h4 h5 h3
  have "\<exists>s' frame. rain_tick env0 st_rain = Inr s' \<and> rain_drops s' = [(1, 4)] \<and>
      tx (vfd s') = tx (vfd st_rain) @ [frame] \<and> mm_lit frame 1 4 \<and> \<not> mm_lit frame 0 4"
    by auto
  with h1 h2 h3 h4 h5 show ?thesis by blast
qed

text \<open>
  C9 as stated fails: with no drops falling, a tick that spawns a drop in column 4 sends
  a frame whose column 4 has row 1 lit and row 0 dark.
\<close>

theorem rain_spawn_row0_counterexample:
  "rain_u env0 < rain_p \<and> rain_col env0 = 4 \<and>
   (case rain_tick env0 st_rain of
      Inl err \<Rightarrow> False
    | Inr s' \<Rightarrow>
        rain_drops s' = [(1, 4)] \<and>
        tx (vfd s') = [[0x1B, 0x31, 0, 0, 0, 0, 2, 0, 0, 0, 0]] \<and>
        \<not> mm_lit (last (tx (vfd s'))) 0 4 \<and> mm_lit (last (tx (vfd s'))) 1 4)"
  by code_simp

subsection \<open>The snake game: one tick\<close>

lemma send_all_one: "send b v = send_all [b] v"
  by (simp add: send_def send_all_def)

lemma send_all_twice: "send_all b (send_all a v) = send_all (a @ b) v"
  by (simp add: send_all_def)

lemma send_all_open [simp]: "is_open (send_all bs v) = is_open v"
  by (simp add: send_all_def)

lemma ESC_no_params:
  "0 \<le> code \<Longrightarrow> code < 256 \<Longrightarrow> ESC code [] v = Inr (send_all [[0x1B, code]] v)"
  by (simp add: ESC_def bytes_def send_all_one)

lemma write_line_eq:
  "write_line line chunk s = Inr (s\<lparr>vfd := send_all (line_writes line chunk) (vfd s)\<rparr>)"
  by (simp add: write_line_def on_vfd_def mode_line1_def mode_line2_def pos1_def ESC_no_params
      write_text_def send_all_one send_all_twice line_writes_def)

lemma status_text_eq:
  "status_text t s =
     Inr (s\<lparr>vfd := send_all (line_writes 1 (take 16 (t @ replicate 16 CHR '' ''))) (vfd s)\<rparr>)"
  by (simp add: status_text_def write_line_eq)

lemma show_snake_score_eq:
  "show_snake_score s =
     Inr (s\<lparr>vfd := send_all (line_writes 0 (take 16 (''SNAKE SCORE:'' @ fmt_2d (g_score s))) @
                             line_writes 1 (take 16 ''Arrows / D-pad   '')) (vfd s)\<rparr>)"
  by (simp add: show_snake_score_def write_line_eq send_all_twice)

lemma game_over_chunk:
  "take 16 (''Game Over!'' @ replicate 16 CHR '' '') = ''Game Over!      ''"
  by code_simp

lemma status_text_game_over:
  "status_text ''Game Over!'' s =
     Inr (s\<lparr>vfd := send_all (line_writes 1 ''Game Over!      '') (vfd s)\<rparr>)"
  by (simp only: status_text_eq game_over_chunk)

lemma snake_tick_over:
  assumes "loop s SnakeGame" and "\<not> g_paused s" and "g_snake s = head # body"
    and "nh = (fst head + fst (g_pending s), snd head + snd (g_pending s))"
    and "\<not> in_grid nh \<or> nh \<in> set (g_snake s)"
  shows "snake_game_tick e s =
           Inr (s\<lparr>g_dir := g_pending s,
                  vfd := send_all (line_writes 1 ''Game Over!      '') (vfd s),
                  loop := (loop s)(SnakeGame := False)\<rparr>)"
  using assms by (auto simp: snake_game_tick_def Let_def status_text_game_over in_grid_def)

text \<open>
  C10. A tick of the running, un-paused game whose new head (the head moved by the
  pending direction) lies outside the 7 by 9 matrix or on a cell of the snake raises
  nothing and changes exactly this: the current direction becomes the pending direction,
  the flag of the effect is cleared, and the status line "Game Over!" is written to the
  display (three writes on an open port, none of them a mini-matrix frame). The snake,
  the food, the score and the pending callbacks are as before: the tick registers no
  further tick.
\<close>

theorem snake_game_over_tick:
  assumes "loop s SnakeGame" and "\<not> g_paused s" and "g_snake s = head # body"
    and "nh = (fst head + fst (g_pending s), snd head + snd (g_pending s))"
    and "\<not> in_grid nh \<or> nh \<in> set (g_snake s)"
  shows "snake_game_tick e s =
           Inr (s\<lparr>g_dir := g_pending s,
                  vfd := send_all (line_writes 1 ''Game Over!      '') (vfd s),
                  loop := (loop s)(SnakeGame := False)\<rparr>) \<and>
         (\<forall>s'. snake_game_tick e s = Inr s' \<longrightarrow>
            g_snake s' = g_snake s \<and> g_food s' = g_food s \<and> g_score s' = g_score s \<and>
            g_pending s' = g_pending s \<and> g_paused s' = g_paused s \<and>
            timers s' = timers s \<and>
            g_dir s' = g_pending s \<and> \<not> loop s' SnakeGame \<and>
            (\<forall>x. x \<noteq> SnakeGame \<longrightarrow> loop s' x = loop s x) \<and>
            (\<exists>ws. tx (vfd s') = tx (vfd s) @ ws \<and> (\<forall>b \<in> set ws. \<not> is_mm_frame b)))"
proof -
  have tick: "snake_game_tick e s =
           Inr (s\<lparr>g_dir := g_pending s,
                  vfd := send_all (line_writes 1 ''Game Over!      '') (vfd s),
                  loop := (loop s)(SnakeGame := False)\<rparr>)"
    using assms by (rule snake_tick_over)
  have "\<exists>ws. tx (send_all (line_writes 1 ''Game Over!      '') (vfd s)) = tx (vfd s) @ ws \<and>
          (\<forall>b \<in> set ws. \<not> is_mm_frame b)"
    by (cases "is_open (vfd s)")
      (simp_all add: send_all_def line_writes_def is_mm_frame_def encode_ascii_def)
  with tick show ?thesis by auto
qed

theorem snake_game_over_tick_witness:
  "loop st_wall SnakeGame \<and> \<not> g_paused st_wall \<and> g_snake st_wall = [(3, 0), (3, 1), (3, 2)] \<and>
   g_pending st_wall = (0, - 1) \<and> g_dir st_wall = (0, - 1) \<and> \<not> in_grid (3, - 1) \<and>
   (\<exists>s'. snake_game_tick env0 st_wall = Inr s' \<and>
      g_snake s' = [(3, 0), (3, 1), (3, 2)] \<and> g_food s' = g_food st_wall \<and> g_score s' = 0 \<and>
      timers s' = [] \<and> g_dir s' = (0, - 1) \<and> \<not> loop s' SnakeGame \<and>
      tx (vfd s') = [[0x1B, 0x22], [0x1B, 0x51], encode_ascii ''Game Over!      ''])"
proof -
  have h: "loop st_wall SnakeGame" "\<not> g_paused st_wall" "g_snake st_wall = (3, 0) # [(3, 1), (3, 2)]"
    "g_pending st_wall = (0, - 1)" "g_dir st_wall = (0, - 1)" "g_score st_wall = 0"
    "timers st_wall = []" "vfd st_wall = \<lparr>is_open = True, tx = []\<rparr>"
    by (simp_all add: st_wall_def st_game_def st_open_def app_init_def)
  have nh: "(3, - 1) = (fst (3, 0) + fst (g_pending st_wall), snd (3, 0) + snd (g_pending st_wall))"
    by (simp add: h)
  have out: "\<not> in_grid (3, - 1) \<or> (3, - 1) \<in> set (g_snake st_wall)"
    by (simp add: in_grid_def)
  from snake_game_over_tick [OF h(1,2,3) nh out, of env0]
  have "\<exists>s'. snake_game_tick env0 st_wall = Inr s' \<and>
      g_snake s' = [(3, 0), (3, 1), (3, 2)] \<and> g_food s' = g_food st_wall \<and> g_score s' = 0 \<and>
      timers s' = [] \<and> g_dir s' = (0, - 1) \<and> \<not> loop s' SnakeGame \<and>
      tx (vfd s') = [[0x1B, 0x22], [0x1B, 0x51], encode_ascii ''Game Over!      '']"
    by (simp add: h send_all_def line_writes_def)
  then show ?thesis
    using h by (simp add: in_grid_def)
qed

lemma set_all_cells: "set all_cells = {p. in_grid p}"
  by (auto simp: all_cells_def in_grid_def)

lemma choice_in_set: "xs \<noteq> [] \<Longrightarrow> choice xs k \<in> set xs"
  by (simp add: choice_def)

lemma rand_food_cases:
  "(rand_food snake k \<in> set all_cells \<and> rand_food snake k \<notin> set snake) \<or>
   (set all_cells \<subseteq> set snake \<and> rand_food snake k = (3, 4))"
proof (cases "filter (\<lambda>cell. cell \<notin> set snake) all_cells = []")
  case True
  then have "set all_cells \<subseteq> set snake"
    by (auto simp: filter_empty_conv)
  with True show ?thesis by (simp add: rand_food_def)
next
  case False
  then have "choice (filter (\<lambda>cell. cell \<notin> set snake) all_cells) k
      \<in> set (filter (\<lambda>cell. cell \<notin> set snake) all_cells)"
    by (rule choice_in_set)
  with False show ?thesis by (simp add: rand_food_def)
qed

lemma rand_food_in_grid: "in_grid (rand_food snake k)"
  using rand_food_cases [of snake k] by (auto simp: set_all_cells in_grid_def)

lemma plot_grid:
  assumes "\<forall>p \<in> set cells. in_grid p"
  shows "\<exists>cols. plot cells (replicate 9 0) = Inr cols \<and> length cols = 9"
proof -
  from assms have "\<forall>p \<in> set cells. 0 \<le> fst p \<and> 0 \<le> snd p \<and> snd p < int (length (replicate 9 (0::int)))"
    by (auto simp: in_grid_def)
  from plot_ok [OF this] show ?thesis by auto
qed

lemma snake_tick_move:
  assumes run: "loop s SnakeGame" "\<not> g_paused s" and snake: "g_snake s = head # body"
    and nh: "nh = (fst head + fst (g_pending s), snd head + snd (g_pending s))"
    and free: "in_grid nh" "nh \<notin> set (g_snake s)"
    and grid: "\<forall>p \<in> set (g_food s # g_snake s). in_grid p"
  shows "\<exists>s'. snake_game_tick e s = Inr s' \<and>
           g_dir s' = g_pending s \<and> g_pending s' = g_pending s \<and> g_paused s' = g_paused s \<and>
           loop s' = loop s \<and> ms s' = ms s \<and>
           timers s' = timers s @ [(ms s SnakeGame, SnakeGameTick)] \<and>
           (if nh = g_food s
            then g_snake s' = nh # g_snake s \<and> g_score s' = g_score s + 1 \<and>
                 g_food s' = rand_food (nh # g_snake s) (food_pick e)
            else g_snake s' = nh # butlast (g_snake s) \<and> g_score s' = g_score s \<and>
                 g_food s' = g_food s) \<and>
           (\<exists>ws. tx (vfd s') = tx (vfd s) @ ws)"
proof (cases "nh = g_food s")
  case True
  let ?food = "rand_food (nh # g_snake s) (food_pick e)"
  have "\<forall>p \<in> set (?food # nh # g_snake s). in_grid p"
    using grid free(1) rand_food_in_grid by simp
  from plot_grid [OF this] obtain cols where cols: "plot (?food # nh # g_snake s) (replicate 9 0) = Inr cols"
    by blast
  show ?thesis
    using run snake nh free True cols
    by (auto simp: snake_game_tick_def Let_def in_grid_def show_snake_score_eq on_vfd_mm_send_cols
        after_def send_all_one send_all_twice send_all_def)
next
  case False
  have "set (butlast (g_snake s)) \<subseteq> set (g_snake s)"
    by (auto dest: in_set_butlastD)
  then have "\<forall>p \<in> set (g_food s # nh # butlast (g_snake s)). in_grid p"
    using grid free(1) by auto
  from plot_grid [OF this] obtain cols where cols: "plot (g_food s # nh # butlast (g_snake s)) (replicate 9 0) = Inr cols"
    by blast
  show ?thesis
    using run snake nh free False cols
    by (auto simp: snake_game_tick_def Let_def in_grid_def on_vfd_mm_send_cols
        after_def send_all_one send_all_def)
qed

text \<open>
  C4. A tick of the running, un-paused game raises nothing (the snake not empty, snake
  and food on the matrix). The new head is the head moved by the direction the tick
  applies, which is the pending direction (the current one when no key has changed it).
  With the snake [(3,2),(3,1),(3,0)] and direction (0,1) the head moves to (3,3). When
  the new head is on the matrix and off the snake, the game goes on with the new head
  in front: if it is the food cell the tail stays, so the length and the score each
  grow by exactly 1; otherwise the tail is trimmed by one and length and score are
  unchanged. When the new head is outside the 7 by 9 matrix (as (3,-1) is) or on a
  cell of the snake, the game is over: the effect is disabled and the snake is unchanged.
\<close>

theorem snake_game_tick_step:
  assumes "loop s SnakeGame" and "\<not> g_paused s" and "g_snake s = head # body"
    and "\<forall>p \<in> set (g_food s # g_snake s). in_grid p"
    and "nh = (fst head + fst (g_pending s), snd head + snd (g_pending s))"
  shows "\<exists>s'. snake_game_tick e s = Inr s' \<and> g_dir s' = g_pending s \<and>
     (g_snake s = [(3, 2), (3, 1), (3, 0)] \<and> g_pending s = (0, 1) \<longrightarrow> hd (g_snake s') = (3, 3)) \<and>
     (in_grid nh \<and> nh \<notin> set (g_snake s) \<longrightarrow>
        loop s' SnakeGame \<and> hd (g_snake s') = nh \<and>
        (nh = g_food s \<longrightarrow>
           g_snake s' = nh # g_snake s \<and> length (g_snake s') = length (g_snake s) + 1 \<and>
           g_score s' = g_score s + 1) \<and>
        (nh \<noteq> g_food s \<longrightarrow>
           g_snake s' = nh # butlast (g_snake s) \<and> length (g_snake s') = length (g_snake s) \<and>
           g_score s' = g_score s)) \<and>
     (\<not> in_grid nh \<or> nh \<in> set (g_snake s) \<longrightarrow>
        \<not> loop s' SnakeGame \<and> g_snake s' = g_snake s \<and> g_score s' = g_score s)"
proof (cases "in_grid nh \<and> nh \<notin> set (g_snake s)")
  case True
  then have free: "in_grid nh" "nh \<notin> set (g_snake s)" by simp_all
  from snake_tick_move [OF assms(1,2,3,5) free assms(4), of e]
  obtain s' where s': "snake_game_tick e s = Inr s'" "g_dir s' = g_pending s" "loop s' = loop s"
    "if nh = g_food s
            then g_snake s' = nh # g_snake s \<and> g_score s' = g_score s + 1 \<and>
                 g_food s' = rand_food (nh # g_snake s) (food_pick e)
            else g_snake s' = nh # butlast (g_snake s) \<and> g_score s' = g_score s \<and>
                 g_food s' = g_food s"
    by blast
  have hd: "hd (g_snake s') = nh"
    using s'(4) by (auto split: if_splits)
  have ex: "g_snake s = [(3, 2), (3, 1), (3, 0)] \<and> g_pending s = (0, 1) \<longrightarrow> hd (g_snake s') = (3, 3)"
    using hd assms(3,5) by auto
  show ?thesis
    apply (rule exI [where x = s'])
    using s' hd ex True assms(1,3) by (auto split: if_splits)
next
  case False
  then have over: "\<not> in_grid nh \<or> nh \<in> set (g_snake s)" by blast
  let ?s' = "s\<lparr>g_dir := g_pending s,
                  vfd := send_all (line_writes 1 ''Game Over!      '') (vfd s),
                  loop := (loop s)(SnakeGame := False)\<rparr>"
  have tick: "snake_game_tick e s = Inr ?s'"
    using assms(1,2,3,5) over by (rule snake_tick_over)
  have "g_snake s = [(3, 2), (3, 1), (3, 0)] \<and> g_pending s = (0, 1) \<longrightarrow> in_grid nh \<and> nh \<notin> set (g_snake s)"
    using assms(3,5) by (auto simp: in_grid_def)
  with False have ex: "\<not> (g_snake s = [(3, 2), (3, 1), (3, 0)] \<and> g_pending s = (0, 1))"
    by blast
  show ?thesis
    apply (rule exI [where x = ?s'])
    using tick ex False by auto
qed

theorem snake_game_tick_step_witness:
  "loop st_food33 SnakeGame \<and> \<not> g_paused st_food33 \<and>
   g_snake st_food33 = [(3, 2), (3, 1), (3, 0)] \<and> g_dir st_food33 = (0, 1) \<and>
   g_pending st_food33 = (0, 1) \<and> g_food st_food33 = (3, 3) \<and> g_score st_food33 = 0 \<and>
   (\<exists>s'. snake_game_tick env0 st_food33 = Inr s' \<and> hd (g_snake s') = (3, 3) \<and>
      g_snake s' = [(3, 3), (3, 2), (3, 1), (3, 0)] \<and> g_score s' = 1 \<and> loop s' SnakeGame)"
proof -
  have h: "loop st_food33 SnakeGame" "\<not> g_paused st_food33"
    "g_snake st_food33 = (3, 2) # [(3, 1), (3, 0)]" "g_dir st_food33 = (0, 1)"
    "g_pending st_food33 = (0, 1)" "g_food st_food33 = (3, 3)" "g_score st_food33 = 0"
    by (simp_all add: st_food33_def st_game_def st_open_def app_init_def)
  have grid: "\<forall>p \<in> set (g_food st_food33 # g_snake st_food33). in_grid p"
    by (simp add: h in_grid_def)
  have nh: "(3, 3) = (fst (3, 2) + fst (g_pending st_food33), snd (3, 2) + snd (g_pending st_food33))"
    by (simp add: h)
  from snake_game_tick_step [OF h(1,2,3) grid nh, of env0]
  have "\<exists>s'. snake_game_tick env0 st_food33 = Inr s' \<and> hd (g_snake s') = (3, 3) \<and>
      g_snake s' = [(3, 3), (3, 2), (3, 1), (3, 0)] \<and> g_score s' = 1 \<and> loop s' SnakeGame"
    by (auto simp: h in_grid_def)
  then show ?thesis
    using h by simp
qed

subsection \<open>What the handlers of the other effects leave alone\<close>

lemma send_all_nil [simp]: "send_all [] v = v"
  by (simp add: send_all_def)

lemma sendsI: "(\<And>v. \<exists>ws. f v = Inr (send_all ws v)) \<Longrightarrow> sends f"
  by (simp add: sends_def)

lemma sendsD: "sends f \<Longrightarrow> \<exists>ws. f v = Inr (send_all ws v)"
  by (simp add: sends_def)

lemma sends_Inr [simp]: "sends Inr"
  by (rule sendsI) (rule exI [where x = "[]"], simp)

lemma sends_and_then:
  assumes "sends f" and "sends g"
  shows "sends (\<lambda>v. and_then (f v) g)"
proof (rule sendsI)
  fix v
  from sendsD [OF assms(1)] obtain ws where f: "f v = Inr (send_all ws v)" by blast
  from sendsD [OF assms(2)] obtain ws' where g: "g (send_all ws v) = Inr (send_all ws' (send_all ws v))"
    by blast
  show "\<exists>ws. and_then (f v) g = Inr (send_all ws v)"
    using f g by (auto simp: send_all_twice)
qed

lemma sends_if [simp]: "sends f \<Longrightarrow> sends g \<Longrightarrow> sends (if b then f else g)"
  by simp

lemma sends_ESC:
  assumes "list_all (\<lambda>b. 0 \<le> b \<and> b < 256) (code # params)"
  shows "sends (ESC code params)"
  using assms by (intro sendsI exI [where x = "[[0x1B, code] @ params]"])
    (simp add: ESC_def bytes_def send_all_one)

lemma and_ff_range: "0 \<le> (x::int) AND 0xFF \<and> x AND 0xFF < 256"
  by (simp add: and_ff_mod)

lemma sends_icon_bool [simp]: "sends (icon_bool sub on)"
  unfolding icon_bool_def [abs_def]
  by (rule sends_ESC) (simp add: and_ff_range)

lemma sends_icon_brightness [simp]: "sends (icon_brightness sub level)"
  unfolding icon_brightness_def [abs_def] Let_def
  by (rule sends_ESC) (simp add: and_ff_range)

lemma sends_icons_bool [simp]: "sends (icons_bool subs on)"
proof (induction subs)
  case Nil
  have "icons_bool [] on = Inr" by (rule ext) simp
  then show ?case by simp
next
  case (Cons sub subs)
  have "icons_bool (sub # subs) on = (\<lambda>v. and_then (icon_bool sub on v) (icons_bool subs on))"
    by (rule ext) simp
  then show ?case using Cons by (simp add: sends_and_then)
qed

lemma sends_icons_brightness [simp]: "sends (icons_brightness subs level)"
proof (induction subs)
  case Nil
  have "icons_brightness [] level = Inr" by (rule ext) simp
  then show ?case by simp
next
  case (Cons sub subs)
  have "icons_brightness (sub # subs) level =
      (\<lambda>v. and_then (icon_brightness sub level v) (icons_brightness subs level))"
    by (rule ext) simp
  then show ?case using Cons by (simp add: sends_and_then)
qed

lemma sends_pulse_icons [simp]: "sends (pulse_icons is phase)"
proof (induction "is")
  case Nil
  have "pulse_icons [] phase = Inr" by (rule ext) simp
  then show ?case by simp
next
  case (Cons i "is")
  have "pulse_icons (i # is) phase =
      (\<lambda>v. and_then (icon_brightness (0x00 + i) (let p = (phase + i * 2) mod 12 in if p \<le> 6 then p else 12 - p) v)
                (pulse_icons is phase))"
    by (rule ext) (simp add: Let_def)
  then show ?case using Cons by (simp add: sends_and_then)
qed

lemma sends_set_record [simp]: "sends (set_record on)"
  unfolding set_record_def [abs_def] by simp

lemma sends_set_email_white [simp]: "sends (set_email_white on)"
  unfolding set_email_white_def [abs_def] by simp

lemma sends_set_email_red [simp]: "sends (set_email_red on)"
  unfolding set_email_red_def [abs_def] by simp

lemma sends_set_volume_level [simp]: "sends (set_volume_level level)"
  unfolding set_volume_level_def [abs_def] Let_def
  by (intro sends_and_then sends_icons_bool sends_icon_bool)

lemma sends_set_wifi_level [simp]: "sends (set_wifi_level level)"
proof -
  have "\<And>b sub. sends (\<lambda>v. if b then icon_bool sub True v else Inr v)"
  proof -
    fix b sub
    have "(\<lambda>v. if b then icon_bool sub True v else Inr v) = (if b then icon_bool sub True else Inr)"
      by auto
    then show "sends (\<lambda>v. if b then icon_bool sub True v else Inr v)"
      by simp
  qed
  then show ?thesis
    unfolding set_wifi_level_def [abs_def] Let_def
    by (intro sends_and_then sends_icons_bool)
qed

lemma sends_mm_send_cols [simp]: "sends (mm_send_cols cols)"
  by (rule sendsI) (auto simp: mm_send_cols_eq send_all_one)

lemma sends_modes [simp]: "sends mode_line1" "sends mode_line2" "sends pos1" "sends mode_2line"
  unfolding mode_line1_def [abs_def] mode_line2_def [abs_def] pos1_def [abs_def]
    mode_2line_def [abs_def]
  by (rule sends_ESC, simp)+

lemma on_vfd_wire:
  assumes "sends f"
  shows "on_vfd f s = Inr (s\<lparr>vfd := send_all (wire f (vfd s)) (vfd s)\<rparr>)"
proof -
  from sendsD [OF assms] obtain ws where "f (vfd s) = Inr (send_all ws (vfd s))" by blast
  then have "f (vfd s) = Inr (send_all (wire f (vfd s)) (vfd s))"
    unfolding wire_def by (rule someI)
  then show ?thesis by (simp add: on_vfd_def)
qed

lemma tx_send_all: "\<exists>ws'. tx (send_all ws v) = tx v @ ws'"
  by (simp add: send_all_def)

lemma quiet_refl [simp]: "quiet s s"
  by (simp add: quiet_def)

lemma quiet_trans: "quiet s t \<Longrightarrow> quiet t u \<Longrightarrow> quiet s u"
  by (auto simp: quiet_def)


lemma vol_sweep_tick_quiet:
  "case vol_sweep_tick lvl step s of Inl err \<Rightarrow> True | Inr s' \<Rightarrow> quiet s s' \<and> loop s' = loop s"
  by (simp add: vol_sweep_tick_def Let_def after_def quiet_def game_of_def and_then_def on_vfd_wire write_line_eq tx_send_all
      send_all_twice
      split: sum.split prod.split)

lemma vol_sweep_start_quiet:
  "case vol_sweep_start s of Inl err \<Rightarrow> True
   | Inr s' \<Rightarrow> quiet s s' \<and> (\<forall>y. y \<noteq> VolSweep \<longrightarrow> loop s' y = loop s y)"
  by (simp add: vol_sweep_start_def vol_sweep_tick_def Let_def after_def quiet_def game_of_def and_then_def on_vfd_wire write_line_eq tx_send_all
      send_all_twice
      split: sum.split prod.split)

lemma vol_sweep_stop_quiet:
  "case vol_sweep_stop s of Inl err \<Rightarrow> True
   | Inr s' \<Rightarrow> quiet s s' \<and> (\<forall>y. y \<noteq> VolSweep \<longrightarrow> loop s' y = loop s y)"
  by (simp add: vol_sweep_stop_def mm_clear_def send_all_one Let_def after_def quiet_def game_of_def and_then_def on_vfd_wire write_line_eq tx_send_all
      send_all_twice
      split: sum.split prod.split)

lemma wifi_scan_tick_quiet:
  "case wifi_scan_tick state s of Inl err \<Rightarrow> True | Inr s' \<Rightarrow> quiet s s' \<and> loop s' = loop s"
  by (simp add: wifi_scan_tick_def Let_def after_def quiet_def game_of_def and_then_def on_vfd_wire write_line_eq tx_send_all
      send_all_twice
      split: sum.split prod.split)

lemma wifi_scan_start_quiet:
  "case wifi_scan_start s of Inl err \<Rightarrow> True
   | Inr s' \<Rightarrow> quiet s s' \<and> (\<forall>y. y \<noteq> WifiScan \<longrightarrow> loop s' y = loop s y)"
  by (simp add: wifi_scan_start_def wifi_scan_tick_def Let_def after_def quiet_def game_of_def and_then_def on_vfd_wire write_line_eq tx_send_all
      send_all_twice
      split: sum.split prod.split)

lemma wifi_scan_stop_quiet:
  "case wifi_scan_stop s of Inl err \<Rightarrow> True
   | Inr s' \<Rightarrow> quiet s s' \<and> (\<forall>y. y \<noteq> WifiScan \<longrightarrow> loop s' y = loop s y)"
  by (simp add: wifi_scan_stop_def mm_clear_def send_all_one Let_def after_def quiet_def game_of_def and_then_def on_vfd_wire write_line_eq tx_send_all
      send_all_twice
      split: sum.split prod.split)

lemma icon_wave_tick_quiet:
  "case icon_wave_tick lvl step s of Inl err \<Rightarrow> True | Inr s' \<Rightarrow> quiet s s' \<and> loop s' = loop s"
  by (simp add: icon_wave_tick_def Let_def after_def quiet_def game_of_def and_then_def on_vfd_wire write_line_eq tx_send_all
      send_all_twice
      split: sum.split prod.split)

lemma icon_wave_start_quiet:
  "case icon_wave_start s of Inl err \<Rightarrow> True
   | Inr s' \<Rightarrow> quiet s s' \<and> (\<forall>y. y \<noteq> IconWave \<longrightarrow> loop s' y = loop s y)"
  by (simp add: icon_wave_start_def icon_wave_tick_def Let_def after_def quiet_def game_of_def and_then_def on_vfd_wire write_line_eq tx_send_all
      send_all_twice
      split: sum.split prod.split)

lemma icon_wave_stop_quiet:
  "case icon_wave_stop s of Inl err \<Rightarrow> True
   | Inr s' \<Rightarrow> quiet s s' \<and> (\<forall>y. y \<noteq> IconWave \<longrightarrow> loop s' y = loop s y)"
  by (simp add: icon_wave_stop_def mm_clear_def send_all_one Let_def after_def quiet_def game_of_def and_then_def on_vfd_wire write_line_eq tx_send_all
      send_all_twice
      split: sum.split prod.split)

lemma marquee_tick_quiet:
  "case marquee_tick e s of Inl err \<Rightarrow> True | Inr s' \<Rightarrow> quiet s s' \<and> loop s' = loop s"
  by (simp add: marquee_tick_def Let_def after_def quiet_def game_of_def and_then_def on_vfd_wire write_line_eq tx_send_all
      send_all_twice
      split: sum.split prod.split)

lemma marquee_start_quiet:
  "case marquee_start e s of Inl err \<Rightarrow> True
   | Inr s' \<Rightarrow> quiet s s' \<and> (\<forall>y. y \<noteq> Marquee \<longrightarrow> loop s' y = loop s y)"
  by (simp add: marquee_start_def marquee_tick_def Let_def after_def quiet_def game_of_def and_then_def on_vfd_wire write_line_eq tx_send_all
      send_all_twice
      split: sum.split prod.split)

lemma marquee_stop_quiet:
  "case marquee_stop s of Inl err \<Rightarrow> True
   | Inr s' \<Rightarrow> quiet s s' \<and> (\<forall>y. y \<noteq> Marquee \<longrightarrow> loop s' y = loop s y)"
  by (simp add: marquee_stop_def mm_clear_def send_all_one Let_def after_def quiet_def game_of_def and_then_def on_vfd_wire write_line_eq tx_send_all
      send_all_twice
      split: sum.split prod.split)

lemma cylon_tick_quiet:
  "case cylon_tick pos step s of Inl err \<Rightarrow> True | Inr s' \<Rightarrow> quiet s s' \<and> loop s' = loop s"
  by (simp add: cylon_tick_def Let_def after_def quiet_def game_of_def and_then_def on_vfd_wire write_line_eq tx_send_all
      send_all_twice
      split: sum.split prod.split)

lemma cylon_start_quiet:
  "case cylon_start s of Inl err \<Rightarrow> True
   | Inr s' \<Rightarrow> quiet s s' \<and> (\<forall>y. y \<noteq> Cylon \<longrightarrow> loop s' y = loop s y)"
  by (simp add: cylon_start_def cylon_tick_def Let_def after_def quiet_def game_of_def and_then_def on_vfd_wire write_line_eq tx_send_all
      send_all_twice
      split: sum.split prod.split)

lemma cylon_stop_quiet:
  "case cylon_stop s of Inl err \<Rightarrow> True
   | Inr s' \<Rightarrow> quiet s s' \<and> (\<forall>y. y \<noteq> Cylon \<longrightarrow> loop s' y = loop s y)"
  by (simp add: cylon_stop_def mm_clear_def send_all_one Let_def after_def quiet_def game_of_def and_then_def on_vfd_wire write_line_eq tx_send_all
      send_all_twice
      split: sum.split prod.split)

lemma spin_tick_quiet:
  "case spin_tick  s of Inl err \<Rightarrow> True | Inr s' \<Rightarrow> quiet s s' \<and> loop s' = loop s"
  by (simp add: spin_tick_def Let_def after_def quiet_def game_of_def and_then_def on_vfd_wire write_line_eq tx_send_all
      send_all_twice
      split: sum.split prod.split)

lemma spin_start_quiet:
  "case spin_start s of Inl err \<Rightarrow> True
   | Inr s' \<Rightarrow> quiet s s' \<and> (\<forall>y. y \<noteq> Spin \<longrightarrow> loop s' y = loop s y)"
  by (simp add: spin_start_def spin_tick_def Let_def after_def quiet_def game_of_def and_then_def on_vfd_wire write_line_eq tx_send_all
      send_all_twice
      split: sum.split prod.split)

lemma spin_stop_quiet:
  "case spin_stop s of Inl err \<Rightarrow> True
   | Inr s' \<Rightarrow> quiet s s' \<and> (\<forall>y. y \<noteq> Spin \<longrightarrow> loop s' y = loop s y)"
  by (simp add: spin_stop_def mm_clear_def send_all_one Let_def after_def quiet_def game_of_def and_then_def on_vfd_wire write_line_eq tx_send_all
      send_all_twice
      split: sum.split prod.split)

lemma twinkle_tick_quiet:
  "case twinkle_tick e s of Inl err \<Rightarrow> True | Inr s' \<Rightarrow> quiet s s' \<and> loop s' = loop s"
  by (simp add: twinkle_tick_def Let_def after_def quiet_def game_of_def and_then_def on_vfd_wire write_line_eq tx_send_all
      send_all_twice
      split: sum.split prod.split)

lemma twinkle_start_quiet:
  "case twinkle_start e s of Inl err \<Rightarrow> True
   | Inr s' \<Rightarrow> quiet s s' \<and> (\<forall>y. y \<noteq> Twinkle \<longrightarrow> loop s' y = loop s y)"
  by (simp add: twinkle_start_def twinkle_tick_def Let_def after_def quiet_def game_of_def and_then_def on_vfd_wire write_line_eq tx_send_all
      send_all_twice
      split: sum.split prod.split)

lemma twinkle_stop_quiet:
  "case twinkle_stop s of Inl err \<Rightarrow> True
   | Inr s' \<Rightarrow> quiet s s' \<and> (\<forall>y. y \<noteq> Twinkle \<longrightarrow> loop s' y = loop s y)"
  by (simp add: twinkle_stop_def mm_clear_def send_all_one Let_def after_def quiet_def game_of_def and_then_def on_vfd_wire write_line_eq tx_send_all
      send_all_twice
      split: sum.split prod.split)

lemma icon_carousel_tick_quiet:
  "case icon_carousel_tick  s of Inl err \<Rightarrow> True | Inr s' \<Rightarrow> quiet s s' \<and> loop s' = loop s"
  by (simp add: icon_carousel_tick_def Let_def after_def quiet_def game_of_def and_then_def on_vfd_wire write_line_eq tx_send_all
      send_all_twice
      split: sum.split prod.split)

lemma icon_carousel_start_quiet:
  "case icon_carousel_start s of Inl err \<Rightarrow> True
   | Inr s' \<Rightarrow> quiet s s' \<and> (\<forall>y. y \<noteq> IconCarousel \<longrightarrow> loop s' y = loop s y)"
  by (simp add: icon_carousel_start_def icon_carousel_tick_def Let_def after_def quiet_def game_of_def and_then_def on_vfd_wire write_line_eq tx_send_all
      send_all_twice
      split: sum.split prod.split)

lemma icon_carousel_stop_quiet:
  "case icon_carousel_stop s of Inl err \<Rightarrow> True
   | Inr s' \<Rightarrow> quiet s s' \<and> (\<forall>y. y \<noteq> IconCarousel \<longrightarrow> loop s' y = loop s y)"
  by (simp add: icon_carousel_stop_def mm_clear_def send_all_one Let_def after_def quiet_def game_of_def and_then_def on_vfd_wire write_line_eq tx_send_all
      send_all_twice
      split: sum.split prod.split)

lemma icon_pulse_tick_quiet:
  "case icon_pulse_tick  s of Inl err \<Rightarrow> True | Inr s' \<Rightarrow> quiet s s' \<and> loop s' = loop s"
  by (simp add: icon_pulse_tick_def Let_def after_def quiet_def game_of_def and_then_def on_vfd_wire write_line_eq tx_send_all
      send_all_twice
      split: sum.split prod.split)

lemma icon_pulse_start_quiet:
  "case icon_pulse_start s of Inl err \<Rightarrow> True
   | Inr s' \<Rightarrow> quiet s s' \<and> (\<forall>y. y \<noteq> IconPulse \<longrightarrow> loop s' y = loop s y)"
  by (simp add: icon_pulse_start_def icon_pulse_tick_def Let_def after_def quiet_def game_of_def and_then_def on_vfd_wire write_line_eq tx_send_all
      send_all_twice
      split: sum.split prod.split)

lemma icon_pulse_stop_quiet:
  "case icon_pulse_stop s of Inl err \<Rightarrow> True
   | Inr s' \<Rightarrow> quiet s s' \<and> (\<forall>y. y \<noteq> IconPulse \<longrightarrow> loop s' y = loop s y)"
  by (simp add: icon_pulse_stop_def mm_clear_def send_all_one Let_def after_def quiet_def game_of_def and_then_def on_vfd_wire write_line_eq tx_send_all
      send_all_twice
      split: sum.split prod.split)

lemma email_blink_tick_quiet:
  "case email_blink_tick  s of Inl err \<Rightarrow> True | Inr s' \<Rightarrow> quiet s s' \<and> loop s' = loop s"
  by (simp add: email_blink_tick_def Let_def after_def quiet_def game_of_def and_then_def on_vfd_wire write_line_eq tx_send_all
      send_all_twice
      split: sum.split prod.split)

lemma email_blink_start_quiet:
  "case email_blink_start s of Inl err \<Rightarrow> True
   | Inr s' \<Rightarrow> quiet s s' \<and> (\<forall>y. y \<noteq> EmailBlink \<longrightarrow> loop s' y = loop s y)"
  by (simp add: email_blink_start_def email_blink_tick_def Let_def after_def quiet_def game_of_def and_then_def on_vfd_wire write_line_eq tx_send_all
      send_all_twice
      split: sum.split prod.split)

lemma email_blink_stop_quiet:
  "case email_blink_stop s of Inl err \<Rightarrow> True
   | Inr s' \<Rightarrow> quiet s s' \<and> (\<forall>y. y \<noteq> EmailBlink \<longrightarrow> loop s' y = loop s y)"
  by (simp add: email_blink_stop_def mm_clear_def send_all_one Let_def after_def quiet_def game_of_def and_then_def on_vfd_wire write_line_eq tx_send_all
      send_all_twice
      split: sum.split prod.split)

lemma record_blink_tick_quiet:
  "case record_blink_tick  s of Inl err \<Rightarrow> True | Inr s' \<Rightarrow> quiet s s' \<and> loop s' = loop s"
  by (simp add: record_blink_tick_def Let_def after_def quiet_def game_of_def and_then_def on_vfd_wire write_line_eq tx_send_all
      send_all_twice
      split: sum.split prod.split)

lemma record_blink_start_quiet:
  "case record_blink_start s of Inl err \<Rightarrow> True
   | Inr s' \<Rightarrow> quiet s s' \<and> (\<forall>y. y \<noteq> RecordBlink \<longrightarrow> loop s' y = loop s y)"
  by (simp add: record_blink_start_def record_blink_tick_def Let_def after_def quiet_def game_of_def and_then_def on_vfd_wire write_line_eq tx_send_all
      send_all_twice
      split: sum.split prod.split)

lemma record_blink_stop_quiet:
  "case record_blink_stop s of Inl err \<Rightarrow> True
   | Inr s' \<Rightarrow> quiet s s' \<and> (\<forall>y. y \<noteq> RecordBlink \<longrightarrow> loop s' y = loop s y)"
  by (simp add: record_blink_stop_def mm_clear_def send_all_one Let_def after_def quiet_def game_of_def and_then_def on_vfd_wire write_line_eq tx_send_all
      send_all_twice
      split: sum.split prod.split)

lemma text_bounce_tick_quiet:
  "case text_bounce_tick e s of Inl err \<Rightarrow> True | Inr s' \<Rightarrow> quiet s s' \<and> loop s' = loop s"
  by (simp add: text_bounce_tick_def Let_def after_def quiet_def game_of_def and_then_def on_vfd_wire write_line_eq tx_send_all
      send_all_twice
      split: sum.split prod.split)

lemma text_bounce_start_quiet:
  "case text_bounce_start e s of Inl err \<Rightarrow> True
   | Inr s' \<Rightarrow> quiet s s' \<and> (\<forall>y. y \<noteq> TextBounce \<longrightarrow> loop s' y = loop s y)"
  by (simp add: text_bounce_start_def text_bounce_tick_def Let_def after_def quiet_def game_of_def and_then_def on_vfd_wire write_line_eq tx_send_all
      send_all_twice
      split: sum.split prod.split)

lemma text_bounce_stop_quiet:
  "case text_bounce_stop s of Inl err \<Rightarrow> True
   | Inr s' \<Rightarrow> quiet s s' \<and> (\<forall>y. y \<noteq> TextBounce \<longrightarrow> loop s' y = loop s y)"
  by (simp add: text_bounce_stop_def mm_clear_def send_all_one Let_def after_def quiet_def game_of_def and_then_def on_vfd_wire write_line_eq tx_send_all
      send_all_twice
      split: sum.split prod.split)

lemma rain_tick_quiet:
  "case rain_tick e s of Inl err \<Rightarrow> True | Inr s' \<Rightarrow> quiet s s' \<and> loop s' = loop s"
  by (simp add: rain_tick_def Let_def after_def quiet_def game_of_def and_then_def on_vfd_wire write_line_eq tx_send_all
      send_all_twice
      split: sum.split prod.split)

lemma rain_start_quiet:
  "case rain_start e s of Inl err \<Rightarrow> True
   | Inr s' \<Rightarrow> quiet s s' \<and> (\<forall>y. y \<noteq> MiniRain \<longrightarrow> loop s' y = loop s y)"
  by (simp add: rain_start_def rain_tick_def Let_def after_def quiet_def game_of_def and_then_def on_vfd_wire write_line_eq tx_send_all
      send_all_twice
      split: sum.split prod.split)

lemma rain_stop_quiet:
  "case rain_stop s of Inl err \<Rightarrow> True
   | Inr s' \<Rightarrow> quiet s s' \<and> (\<forall>y. y \<noteq> MiniRain \<longrightarrow> loop s' y = loop s y)"
  by (simp add: rain_stop_def mm_clear_def send_all_one Let_def after_def quiet_def game_of_def and_then_def on_vfd_wire write_line_eq tx_send_all
      send_all_twice
      split: sum.split prod.split)

lemma snake_tick_quiet:
  "case snake_tick  s of Inl err \<Rightarrow> True | Inr s' \<Rightarrow> quiet s s' \<and> loop s' = loop s"
  by (simp add: snake_tick_def Let_def after_def quiet_def game_of_def and_then_def on_vfd_wire write_line_eq tx_send_all
      send_all_twice
      split: sum.split prod.split)

lemma snake_start_quiet:
  "case snake_start s of Inl err \<Rightarrow> True
   | Inr s' \<Rightarrow> quiet s s' \<and> (\<forall>y. y \<noteq> MiniSnake \<longrightarrow> loop s' y = loop s y)"
  by (simp add: snake_start_def snake_tick_def Let_def after_def quiet_def game_of_def and_then_def on_vfd_wire write_line_eq tx_send_all
      send_all_twice
      split: sum.split prod.split)

lemma snake_stop_quiet:
  "case snake_stop s of Inl err \<Rightarrow> True
   | Inr s' \<Rightarrow> quiet s s' \<and> (\<forall>y. y \<noteq> MiniSnake \<longrightarrow> loop s' y = loop s y)"
  by (simp add: snake_stop_def mm_clear_def send_all_one Let_def after_def quiet_def game_of_def and_then_def on_vfd_wire write_line_eq tx_send_all
      send_all_twice
      split: sum.split prod.split)

lemma ball_tick_quiet:
  "case ball_tick  s of Inl err \<Rightarrow> True | Inr s' \<Rightarrow> quiet s s' \<and> loop s' = loop s"
  by (simp add: ball_tick_def Let_def after_def quiet_def game_of_def and_then_def on_vfd_wire write_line_eq tx_send_all
      send_all_twice
      split: sum.split prod.split)

lemma ball_start_quiet:
  "case ball_start s of Inl err \<Rightarrow> True | Inr s' \<Rightarrow> quiet s s'"
  by (simp add: ball_start_def ball_tick_def stop_all_mm_def mm_clear_def send_all_one Let_def after_def quiet_def game_of_def and_then_def on_vfd_wire write_line_eq tx_send_all
      send_all_twice
      split: sum.split prod.split)

lemma ball_stop_quiet:
  "case ball_stop s of Inl err \<Rightarrow> True
   | Inr s' \<Rightarrow> quiet s s' \<and> (\<forall>y. y \<noteq> BouncyBall \<longrightarrow> loop s' y = loop s y)"
  by (simp add: ball_stop_def mm_clear_def send_all_one Let_def after_def quiet_def game_of_def and_then_def on_vfd_wire write_line_eq tx_send_all
      send_all_twice
      split: sum.split prod.split)

lemma stickman_tick_quiet:
  "case stickman_tick  s of Inl err \<Rightarrow> True | Inr s' \<Rightarrow> quiet s s' \<and> loop s' = loop s"
  by (simp add: stickman_tick_def Let_def after_def quiet_def game_of_def and_then_def on_vfd_wire write_line_eq tx_send_all
      send_all_twice
      split: sum.split prod.split)

lemma stickman_start_quiet:
  "case stickman_start s of Inl err \<Rightarrow> True | Inr s' \<Rightarrow> quiet s s'"
  by (simp add: stickman_start_def stickman_tick_def stop_all_mm_def mm_clear_def send_all_one Let_def after_def quiet_def game_of_def and_then_def on_vfd_wire write_line_eq tx_send_all
      send_all_twice
      split: sum.split prod.split)

lemma stickman_stop_quiet:
  "case stickman_stop s of Inl err \<Rightarrow> True
   | Inr s' \<Rightarrow> quiet s s' \<and> (\<forall>y. y \<noteq> Stickman \<longrightarrow> loop s' y = loop s y)"
  by (simp add: stickman_stop_def mm_clear_def send_all_one Let_def after_def quiet_def game_of_def and_then_def on_vfd_wire write_line_eq tx_send_all
      send_all_twice
      split: sum.split prod.split)

lemma gol_tick_quiet:
  "case gol_tick  s of Inl err \<Rightarrow> True | Inr s' \<Rightarrow> quiet s s' \<and> loop s' = loop s"
  by (simp add: gol_tick_def Let_def after_def quiet_def game_of_def and_then_def on_vfd_wire write_line_eq tx_send_all
      send_all_twice
      split: sum.split prod.split)

lemma gol_start_quiet:
  "case gol_start s of Inl err \<Rightarrow> True | Inr s' \<Rightarrow> quiet s s'"
  by (simp add: gol_start_def gol_tick_def stop_all_mm_def mm_clear_def send_all_one Let_def after_def quiet_def game_of_def and_then_def on_vfd_wire write_line_eq tx_send_all
      send_all_twice
      split: sum.split prod.split)

lemma gol_stop_quiet:
  "case gol_stop s of Inl err \<Rightarrow> True
   | Inr s' \<Rightarrow> quiet s s' \<and> (\<forall>y. y \<noteq> Gol \<longrightarrow> loop s' y = loop s y)"
  by (simp add: gol_stop_def mm_clear_def send_all_one Let_def after_def quiet_def game_of_def and_then_def on_vfd_wire write_line_eq tx_send_all
      send_all_twice
      split: sum.split prod.split)

lemma clock_bars_tick_quiet:
  "case clock_bars_tick e s of Inl err \<Rightarrow> True | Inr s' \<Rightarrow> quiet s s' \<and> loop s' = loop s"
  by (simp add: clock_bars_tick_def Let_def after_def quiet_def game_of_def and_then_def on_vfd_wire write_line_eq tx_send_all
      send_all_twice
      split: sum.split prod.split)

lemma clock_bars_start_quiet:
  "case clock_bars_start e s of Inl err \<Rightarrow> True | Inr s' \<Rightarrow> quiet s s'"
  by (simp add: clock_bars_start_def clock_bars_tick_def stop_all_mm_def mm_clear_def send_all_one Let_def after_def quiet_def game_of_def and_then_def on_vfd_wire write_line_eq tx_send_all
      send_all_twice
      split: sum.split prod.split)

lemma clock_bars_stop_quiet:
  "case clock_bars_stop s of Inl err \<Rightarrow> True
   | Inr s' \<Rightarrow> quiet s s' \<and> (\<forall>y. y \<noteq> ClockBars \<longrightarrow> loop s' y = loop s y)"
  by (simp add: clock_bars_stop_def mm_clear_def send_all_one Let_def after_def quiet_def game_of_def and_then_def on_vfd_wire write_line_eq tx_send_all
      send_all_twice
      split: sum.split prod.split)

subsection \<open>The invariant of the snake game\<close>

lemma case_sumD: "(case m of Inl err \<Rightarrow> True | Inr x \<Rightarrow> P x) \<Longrightarrow> m = Inr y \<Longrightarrow> P y"
  by simp

lemma game_inv_cong: "game_of s' = game_of s \<Longrightarrow> game_inv s' = game_inv s"
  by (simp add: game_of_def game_inv_def)

lemma quiet_game_inv: "quiet s s' \<Longrightarrow> game_inv s \<Longrightarrow> game_inv s'"
  using game_inv_cong [of s' s] by (simp add: quiet_def)

lemma unit_dir_not_neg: "unit_dir d \<Longrightarrow> d \<noteq> neg_dir d"
  by (auto simp: unit_dir_def neg_dir_def)

lemma game_inv_fresh:
  assumes "g_snake s = [(3, 2), (3, 1), (3, 0)]" "g_dir s = (0, 1)" "g_pending s = (0, 1)"
    "g_food s = rand_food [(3, 2), (3, 1), (3, 0)] k"
  shows "game_inv s"
proof -
  have "(3, 3) \<in> set all_cells" by (simp add: set_all_cells in_grid_def)
  then have "\<not> set all_cells \<subseteq> set [(3, 2), (3, 1), (3::int, 0::int)]" by auto
  with rand_food_cases [of "[(3, 2), (3, 1), (3, 0)]" k]
  have "rand_food [(3, 2), (3, 1), (3, 0)] k \<notin> set [(3, 2), (3, 1), (3, 0)]" by blast
  then show ?thesis
    using assms rand_food_in_grid [of "[(3, 2), (3, 1), (3, 0)]" k]
    by (simp add: game_inv_def in_grid_def unit_dir_def neg_dir_def)
qed

lemma game_inv_init: "game_inv (app_init e)"
  by (rule game_inv_fresh [where k = "food_pick e"]) (simp_all add: app_init_def)

lemma snake_key_inv: "game_inv s \<Longrightarrow> unit_dir (dr, dc) \<Longrightarrow> game_inv (snake_key dr dc s)"
  by (auto simp: snake_key_def game_inv_def neg_dir_def split: prod.splits)

lemma press_inv: "game_inv s \<Longrightarrow> game_inv (press s a)"
  unfolding press_def by (rule snake_key_inv) (cases a; simp add: unit_dir_def)+

lemma snake_game_tick_total:
  assumes "game_inv s"
  shows "\<exists>s'. snake_game_tick e s = Inr s' \<and> game_inv s' \<and>
           g_dir s' = (if loop s SnakeGame \<and> \<not> g_paused s then g_pending s else g_dir s)"
proof (cases "loop s SnakeGame \<and> \<not> g_paused s")
  case False
  then show ?thesis
    using assms by (auto simp: snake_game_tick_def after_def game_inv_def)
next
  case True
  then have run: "loop s SnakeGame" "\<not> g_paused s" by simp_all
  from assms obtain head body where snake: "g_snake s = head # body"
    by (cases "g_snake s") (auto simp: game_inv_def)
  define nh where "nh = (fst head + fst (g_pending s), snd head + snd (g_pending s))"
  from assms have grid: "\<forall>p \<in> set (g_food s # g_snake s). in_grid p"
    by (simp add: game_inv_def list_all_iff)
  from assms have dirs: "unit_dir (g_pending s)" "g_pending s \<noteq> neg_dir (g_pending s)"
    by (simp_all add: game_inv_def unit_dir_not_neg)
  show ?thesis
  proof (cases "in_grid nh \<and> nh \<notin> set (g_snake s)")
    case False
    then have over: "\<not> in_grid nh \<or> nh \<in> set (g_snake s)" by blast
    have "snake_game_tick e s =
           Inr (s\<lparr>g_dir := g_pending s,
                  vfd := send_all (line_writes 1 ''Game Over!      '') (vfd s),
                  loop := (loop s)(SnakeGame := False)\<rparr>)"
      using run snake nh_def over by (rule snake_tick_over)
    then show ?thesis
      using assms dirs run by (simp add: game_inv_def)
  next
    case True
    then have free: "in_grid nh" "nh \<notin> set (g_snake s)" by simp_all
    from snake_tick_move [OF run snake nh_def free grid, of e]
    obtain s' where s': "snake_game_tick e s = Inr s'" "g_dir s' = g_pending s"
      "g_pending s' = g_pending s"
      "if nh = g_food s
            then g_snake s' = nh # g_snake s \<and> g_score s' = g_score s + 1 \<and>
                 g_food s' = rand_food (nh # g_snake s) (food_pick e)
            else g_snake s' = nh # butlast (g_snake s) \<and> g_score s' = g_score s \<and>
                 g_food s' = g_food s"
      by blast
    from free(2) have notfull: "\<not> set all_cells \<subseteq> set (g_snake s)"
      using free(1) by (auto simp: set_all_cells)
    with assms have food_free: "g_food s \<notin> set (g_snake s)"
      by (auto simp: game_inv_def)
    have sub: "set (butlast (g_snake s)) \<subseteq> set (g_snake s)"
      by (auto dest: in_set_butlastD)
    have "game_inv s'"
    proof (cases "nh = g_food s")
      case True
      with s'(4) have e: "g_snake s' = nh # g_snake s"
        "g_food s' = rand_food (nh # g_snake s) (food_pick e)" by simp_all
      show ?thesis
        using e s'(2,3) dirs grid free(1) rand_food_in_grid [of "nh # g_snake s" "food_pick e"]
          rand_food_cases [of "nh # g_snake s" "food_pick e"]
        by (auto simp: game_inv_def list_all_iff)
    next
      case False
      with s'(4) have e: "g_snake s' = nh # butlast (g_snake s)" "g_food s' = g_food s"
        by simp_all
      show ?thesis
        using e s'(2,3) dirs grid free(1) food_free False sub
        by (auto simp: game_inv_def list_all_iff)
    qed
    with s' run show ?thesis by auto
  qed
qed

lemma game_inv_nongame [simp]:
  "game_inv (s\<lparr>timers := t\<rparr>) = game_inv s"
  "game_inv (s\<lparr>vfd := v\<rparr>) = game_inv s"
  "game_inv (s\<lparr>loop := l\<rparr>) = game_inv s"
  "game_inv (s\<lparr>ms := m\<rparr>) = game_inv s"
  "game_inv (s\<lparr>gol_grid := g\<rparr>) = game_inv s"
  "game_inv (s\<lparr>g_paused := b\<rparr>) = game_inv s"
  "game_inv (s\<lparr>g_score := n\<rparr>) = game_inv s"
  by (simp_all add: game_inv_def)

lemma snake_game_start_inv:
  assumes "game_inv s"
  shows "\<exists>s'. snake_game_start e s = Inr s' \<and> game_inv s'"
proof -
  let ?s1 = "(stop_all_mm s)\<lparr>loop := (loop (stop_all_mm s))(SnakeGame := True), g_paused := False\<rparr>"
  let ?s2 = "?s1\<lparr>vfd := send_all (line_writes 0 (take 16 (''SNAKE SCORE:'' @ fmt_2d (g_score ?s1))) @
                             line_writes 1 (take 16 ''Arrows / D-pad   '')) (vfd ?s1)\<rparr>"
  have "game_inv ?s2"
    using assms by (simp add: stop_all_mm_def)
  from snake_game_tick_total [OF this, of e] obtain s' where "snake_game_tick e ?s2 = Inr s'" "game_inv s'"
    by blast
  then show ?thesis
    by (simp add: snake_game_start_def Let_def show_snake_score_eq)
qed

lemma snake_game_reset_inv: "\<exists>s'. snake_game_reset e s = Inr s' \<and> game_inv s'"
proof -
  let ?s1 = "s\<lparr>g_snake := [(3, 2), (3, 1), (3, 0)], g_dir := (0, 1), g_pending := (0, 1),
              g_food := rand_food [(3, 2), (3, 1), (3, 0)] (food_pick e), g_score := 0\<rparr>"
  have "game_inv ?s1"
    by (rule game_inv_fresh [where k = "food_pick e"]) simp_all
  then show ?thesis
    by (simp add: snake_game_reset_def Let_def show_snake_score_eq)
qed

lemma snake_game_toggle_pause_inv:
  "game_inv s \<Longrightarrow> \<exists>s'. snake_game_toggle_pause s = Inr s' \<and> game_inv s'"
  by (simp add: snake_game_toggle_pause_def Let_def status_text_eq)

lemma start_inv:
  assumes "game_inv s" and "start x e s = Inr s'"
  shows "game_inv s'"
proof (cases x)
  case VolSweep
  with assms(2) have "vol_sweep_start s = Inr s'" by simp
  from case_sumD [OF vol_sweep_start_quiet this] have "quiet s s'" by simp
  with assms(1) show ?thesis by (rule quiet_game_inv [rotated])
next
  case WifiScan
  with assms(2) have "wifi_scan_start s = Inr s'" by simp
  from case_sumD [OF wifi_scan_start_quiet this] have "quiet s s'" by simp
  with assms(1) show ?thesis by (rule quiet_game_inv [rotated])
next
  case IconWave
  with assms(2) have "icon_wave_start s = Inr s'" by simp
  from case_sumD [OF icon_wave_start_quiet this] have "quiet s s'" by simp
  with assms(1) show ?thesis by (rule quiet_game_inv [rotated])
next
  case Marquee
  with assms(2) have "marquee_start e s = Inr s'" by simp
  from case_sumD [OF marquee_start_quiet this] have "quiet s s'" by simp
  with assms(1) show ?thesis by (rule quiet_game_inv [rotated])
next
  case Cylon
  with assms(2) have "cylon_start s = Inr s'" by simp
  from case_sumD [OF cylon_start_quiet this] have "quiet s s'" by simp
  with assms(1) show ?thesis by (rule quiet_game_inv [rotated])
next
  case Spin
  with assms(2) have "spin_start s = Inr s'" by simp
  from case_sumD [OF spin_start_quiet this] have "quiet s s'" by simp
  with assms(1) show ?thesis by (rule quiet_game_inv [rotated])
next
  case Twinkle
  with assms(2) have "twinkle_start e s = Inr s'" by simp
  from case_sumD [OF twinkle_start_quiet this] have "quiet s s'" by simp
  with assms(1) show ?thesis by (rule quiet_game_inv [rotated])
next
  case IconCarousel
  with assms(2) have "icon_carousel_start s = Inr s'" by simp
  from case_sumD [OF icon_carousel_start_quiet this] have "quiet s s'" by simp
  with assms(1) show ?thesis by (rule quiet_game_inv [rotated])
next
  case IconPulse
  with assms(2) have "icon_pulse_start s = Inr s'" by simp
  from case_sumD [OF icon_pulse_start_quiet this] have "quiet s s'" by simp
  with assms(1) show ?thesis by (rule quiet_game_inv [rotated])
next
  case EmailBlink
  with assms(2) have "email_blink_start s = Inr s'" by simp
  from case_sumD [OF email_blink_start_quiet this] have "quiet s s'" by simp
  with assms(1) show ?thesis by (rule quiet_game_inv [rotated])
next
  case RecordBlink
  with assms(2) have "record_blink_start s = Inr s'" by simp
  from case_sumD [OF record_blink_start_quiet this] have "quiet s s'" by simp
  with assms(1) show ?thesis by (rule quiet_game_inv [rotated])
next
  case TextBounce
  with assms(2) have "text_bounce_start e s = Inr s'" by simp
  from case_sumD [OF text_bounce_start_quiet this] have "quiet s s'" by simp
  with assms(1) show ?thesis by (rule quiet_game_inv [rotated])
next
  case MiniRain
  with assms(2) have "rain_start e s = Inr s'" by simp
  from case_sumD [OF rain_start_quiet this] have "quiet s s'" by simp
  with assms(1) show ?thesis by (rule quiet_game_inv [rotated])
next
  case MiniSnake
  with assms(2) have "snake_start s = Inr s'" by simp
  from case_sumD [OF snake_start_quiet this] have "quiet s s'" by simp
  with assms(1) show ?thesis by (rule quiet_game_inv [rotated])
next
  case BouncyBall
  with assms(2) have "ball_start s = Inr s'" by simp
  from case_sumD [OF ball_start_quiet this] have "quiet s s'" by simp
  with assms(1) show ?thesis by (rule quiet_game_inv [rotated])
next
  case Stickman
  with assms(2) have "stickman_start s = Inr s'" by simp
  from case_sumD [OF stickman_start_quiet this] have "quiet s s'" by simp
  with assms(1) show ?thesis by (rule quiet_game_inv [rotated])
next
  case Gol
  with assms(2) have "gol_start s = Inr s'" by simp
  from case_sumD [OF gol_start_quiet this] have "quiet s s'" by simp
  with assms(1) show ?thesis by (rule quiet_game_inv [rotated])
next
  case ClockBars
  with assms(2) have "clock_bars_start e s = Inr s'" by simp
  from case_sumD [OF clock_bars_start_quiet this] have "quiet s s'" by simp
  with assms(1) show ?thesis by (rule quiet_game_inv [rotated])
next
  case SnakeGame
  with assms(2) snake_game_start_inv [OF assms(1), of e] show ?thesis by auto
qed

lemma stop_inv:
  assumes "game_inv s" and "stop x s = Inr s'"
  shows "game_inv s'"
proof (cases x)
  case VolSweep
  with assms(2) have "vol_sweep_stop s = Inr s'" by simp
  from case_sumD [OF vol_sweep_stop_quiet this] have "quiet s s'" by simp
  with assms(1) show ?thesis by (rule quiet_game_inv [rotated])
next
  case WifiScan
  with assms(2) have "wifi_scan_stop s = Inr s'" by simp
  from case_sumD [OF wifi_scan_stop_quiet this] have "quiet s s'" by simp
  with assms(1) show ?thesis by (rule quiet_game_inv [rotated])
next
  case IconWave
  with assms(2) have "icon_wave_stop s = Inr s'" by simp
  from case_sumD [OF icon_wave_stop_quiet this] have "quiet s s'" by simp
  with assms(1) show ?thesis by (rule quiet_game_inv [rotated])
next
  case Marquee
  with assms(2) have "marquee_stop s = Inr s'" by simp
  from case_sumD [OF marquee_stop_quiet this] have "quiet s s'" by simp
  with assms(1) show ?thesis by (rule quiet_game_inv [rotated])
next
  case Cylon
  with assms(2) have "cylon_stop s = Inr s'" by simp
  from case_sumD [OF cylon_stop_quiet this] have "quiet s s'" by simp
  with assms(1) show ?thesis by (rule quiet_game_inv [rotated])
next
  case Spin
  with assms(2) have "spin_stop s = Inr s'" by simp
  from case_sumD [OF spin_stop_quiet this] have "quiet s s'" by simp
  with assms(1) show ?thesis by (rule quiet_game_inv [rotated])
next
  case Twinkle
  with assms(2) have "twinkle_stop s = Inr s'" by simp
  from case_sumD [OF twinkle_stop_quiet this] have "quiet s s'" by simp
  with assms(1) show ?thesis by (rule quiet_game_inv [rotated])
next
  case IconCarousel
  with assms(2) have "icon_carousel_stop s = Inr s'" by simp
  from case_sumD [OF icon_carousel_stop_quiet this] have "quiet s s'" by simp
  with assms(1) show ?thesis by (rule quiet_game_inv [rotated])
next
  case IconPulse
  with assms(2) have "icon_pulse_stop s = Inr s'" by simp
  from case_sumD [OF icon_pulse_stop_quiet this] have "quiet s s'" by simp
  with assms(1) show ?thesis by (rule quiet_game_inv [rotated])
next
  case EmailBlink
  with assms(2) have "email_blink_stop s = Inr s'" by simp
  from case_sumD [OF email_blink_stop_quiet this] have "quiet s s'" by simp
  with assms(1) show ?thesis by (rule quiet_game_inv [rotated])
next
  case RecordBlink
  with assms(2) have "record_blink_stop s = Inr s'" by simp
  from case_sumD [OF record_blink_stop_quiet this] have "quiet s s'" by simp
  with assms(1) show ?thesis by (rule quiet_game_inv [rotated])
next
  case TextBounce
  with assms(2) have "text_bounce_stop s = Inr s'" by simp
  from case_sumD [OF text_bounce_stop_quiet this] have "quiet s s'" by simp
  with assms(1) show ?thesis by (rule quiet_game_inv [rotated])
next
  case MiniRain
  with assms(2) have "rain_stop s = Inr s'" by simp
  from case_sumD [OF rain_stop_quiet this] have "quiet s s'" by simp
  with assms(1) show ?thesis by (rule quiet_game_inv [rotated])
next
  case MiniSnake
  with assms(2) have "snake_stop s = Inr s'" by simp
  from case_sumD [OF snake_stop_quiet this] have "quiet s s'" by simp
  with assms(1) show ?thesis by (rule quiet_game_inv [rotated])
next
  case BouncyBall
  with assms(2) have "ball_stop s = Inr s'" by simp
  from case_sumD [OF ball_stop_quiet this] have "quiet s s'" by simp
  with assms(1) show ?thesis by (rule quiet_game_inv [rotated])
next
  case Stickman
  with assms(2) have "stickman_stop s = Inr s'" by simp
  from case_sumD [OF stickman_stop_quiet this] have "quiet s s'" by simp
  with assms(1) show ?thesis by (rule quiet_game_inv [rotated])
next
  case Gol
  with assms(2) have "gol_stop s = Inr s'" by simp
  from case_sumD [OF gol_stop_quiet this] have "quiet s s'" by simp
  with assms(1) show ?thesis by (rule quiet_game_inv [rotated])
next
  case ClockBars
  with assms(2) have "clock_bars_stop s = Inr s'" by simp
  from case_sumD [OF clock_bars_stop_quiet this] have "quiet s s'" by simp
  with assms(1) show ?thesis by (rule quiet_game_inv [rotated])
next
  case SnakeGame
  with assms show ?thesis by simp
qed

lemma run_callback_inv:
  assumes "game_inv s" and "run_callback cb e s = Inr s'"
  shows "game_inv s'"
proof (cases cb)
  case (VolSweepTick lvl step)
  with assms(2) have "vol_sweep_tick lvl step s = Inr s'" by simp
  from case_sumD [OF vol_sweep_tick_quiet this] have "quiet s s'" by simp
  with assms(1) show ?thesis by (rule quiet_game_inv [rotated])
next
  case (WifiScanTick state)
  with assms(2) have "wifi_scan_tick state s = Inr s'" by simp
  from case_sumD [OF wifi_scan_tick_quiet this] have "quiet s s'" by simp
  with assms(1) show ?thesis by (rule quiet_game_inv [rotated])
next
  case (IconWaveTick lvl step)
  with assms(2) have "icon_wave_tick lvl step s = Inr s'" by simp
  from case_sumD [OF icon_wave_tick_quiet this] have "quiet s s'" by simp
  with assms(1) show ?thesis by (rule quiet_game_inv [rotated])
next
  case MarqueeTick
  with assms(2) have "marquee_tick e s = Inr s'" by simp
  from case_sumD [OF marquee_tick_quiet this] have "quiet s s'" by simp
  with assms(1) show ?thesis by (rule quiet_game_inv [rotated])
next
  case (CylonTick pos step)
  with assms(2) have "cylon_tick pos step s = Inr s'" by simp
  from case_sumD [OF cylon_tick_quiet this] have "quiet s s'" by simp
  with assms(1) show ?thesis by (rule quiet_game_inv [rotated])
next
  case SpinTick
  with assms(2) have "spin_tick  s = Inr s'" by simp
  from case_sumD [OF spin_tick_quiet this] have "quiet s s'" by simp
  with assms(1) show ?thesis by (rule quiet_game_inv [rotated])
next
  case TwinkleTick
  with assms(2) have "twinkle_tick e s = Inr s'" by simp
  from case_sumD [OF twinkle_tick_quiet this] have "quiet s s'" by simp
  with assms(1) show ?thesis by (rule quiet_game_inv [rotated])
next
  case IconCarouselTick
  with assms(2) have "icon_carousel_tick  s = Inr s'" by simp
  from case_sumD [OF icon_carousel_tick_quiet this] have "quiet s s'" by simp
  with assms(1) show ?thesis by (rule quiet_game_inv [rotated])
next
  case IconPulseTick
  with assms(2) have "icon_pulse_tick  s = Inr s'" by simp
  from case_sumD [OF icon_pulse_tick_quiet this] have "quiet s s'" by simp
  with assms(1) show ?thesis by (rule quiet_game_inv [rotated])
next
  case EmailBlinkTick
  with assms(2) have "email_blink_tick  s = Inr s'" by simp
  from case_sumD [OF email_blink_tick_quiet this] have "quiet s s'" by simp
  with assms(1) show ?thesis by (rule quiet_game_inv [rotated])
next
  case RecordBlinkTick
  with assms(2) have "record_blink_tick  s = Inr s'" by simp
  from case_sumD [OF record_blink_tick_quiet this] have "quiet s s'" by simp
  with assms(1) show ?thesis by (rule quiet_game_inv [rotated])
next
  case TextBounceTick
  with assms(2) have "text_bounce_tick e s = Inr s'" by simp
  from case_sumD [OF text_bounce_tick_quiet this] have "quiet s s'" by simp
  with assms(1) show ?thesis by (rule quiet_game_inv [rotated])
next
  case RainTick
  with assms(2) have "rain_tick e s = Inr s'" by simp
  from case_sumD [OF rain_tick_quiet this] have "quiet s s'" by simp
  with assms(1) show ?thesis by (rule quiet_game_inv [rotated])
next
  case SnakeTick
  with assms(2) have "snake_tick  s = Inr s'" by simp
  from case_sumD [OF snake_tick_quiet this] have "quiet s s'" by simp
  with assms(1) show ?thesis by (rule quiet_game_inv [rotated])
next
  case BallTick
  with assms(2) have "ball_tick  s = Inr s'" by simp
  from case_sumD [OF ball_tick_quiet this] have "quiet s s'" by simp
  with assms(1) show ?thesis by (rule quiet_game_inv [rotated])
next
  case StickmanTick
  with assms(2) have "stickman_tick  s = Inr s'" by simp
  from case_sumD [OF stickman_tick_quiet this] have "quiet s s'" by simp
  with assms(1) show ?thesis by (rule quiet_game_inv [rotated])
next
  case GolTick
  with assms(2) have "gol_tick  s = Inr s'" by simp
  from case_sumD [OF gol_tick_quiet this] have "quiet s s'" by simp
  with assms(1) show ?thesis by (rule quiet_game_inv [rotated])
next
  case ClockBarsTick
  with assms(2) have "clock_bars_tick e s = Inr s'" by simp
  from case_sumD [OF clock_bars_tick_quiet this] have "quiet s s'" by simp
  with assms(1) show ?thesis by (rule quiet_game_inv [rotated])
next
  case SnakeGameTick
  with assms(2) snake_game_tick_total [OF assms(1), of e] show ?thesis by auto
qed

lemma exec_inv:
  assumes "game_inv s" and "exec ev e s = Inr s'"
  shows "game_inv s'"
proof (cases ev)
  case (Start x)
  with assms show ?thesis by (auto intro: start_inv)
next
  case (Stop x)
  with assms show ?thesis by (auto intro: stop_inv)
next
  case (Fire i)
  show ?thesis
  proof (cases "i < length (timers s)")
    case True
    with assms(2) Fire have "run_callback (snd (timers s ! i)) e
        (s\<lparr>timers := take i (timers s) @ drop (Suc i) (timers s)\<rparr>) = Inr s'"
      by (simp add: fire_def)
    moreover have "game_inv (s\<lparr>timers := take i (timers s) @ drop (Suc i) (timers s)\<rparr>)"
      using assms(1) by simp
    ultimately show ?thesis by (rule run_callback_inv [rotated])
  next
    case False
    with assms Fire show ?thesis by (simp add: fire_def)
  qed
next
  case (Key a)
  with assms press_inv [of s a] show ?thesis by (auto simp: press_def)
next
  case TogglePause
  with assms(2) snake_game_toggle_pause_inv [OF assms(1)] show ?thesis by auto
next
  case Reset
  with assms(2) snake_game_reset_inv [of e s] show ?thesis by auto
next
  case GolRandomize
  with assms show ?thesis by (auto simp: gol_randomize_def)
next
  case (SetFps x fps)
  with assms show ?thesis by (auto simp: set_fps_def)
next
  case Connect
  with assms show ?thesis by (auto simp: connect_def on_vfd_wire)
next
  case Disconnect
  with assms show ?thesis by (auto simp: disconnect_def)
qed

lemma reachable_game_inv: "reachable s \<Longrightarrow> game_inv s"
  by (induction rule: reachable.induct) (auto intro: game_inv_init exec_inv)

lemma run_reachable: "reachable s \<Longrightarrow> run evs s = Inr s' \<Longrightarrow> reachable s'"
proof (induction evs arbitrary: s)
  case Nil
  then show ?case by simp
next
  case (Cons p evs)
  obtain ev e where p: "p = (ev, e)" by (cases p)
  from Cons.prems(2) p obtain t where t: "exec ev e s = Inr t" "run evs t = Inr s'"
    by (auto simp: and_then_eq_Inr)
  from Cons.prems(1) t(1) have "reachable t" by (rule reachable_step)
  then show ?case using t(2) by (rule Cons.IH)
qed

subsection \<open>The snake game: reachable states\<close>

lemma foldl_press:
  "game_inv s \<Longrightarrow> game_inv (foldl press s keys) \<and> g_dir (foldl press s keys) = g_dir s"
proof (induction keys arbitrary: s)
  case Nil
  then show ?case by simp
next
  case (Cons a keys)
  have "game_inv (press s a)" using Cons.prems by (rule press_inv)
  from Cons.IH [OF this] have "game_inv (foldl press (press s a) keys)"
    "g_dir (foldl press (press s a) keys) = g_dir (press s a)" by simp_all
  moreover have "g_dir (press s a) = g_dir s"
    by (simp add: press_def snake_key_def split: prod.splits)
  ultimately show ?case by simp
qed

text \<open>
  C5. From any reachable state, take a tick of the game, then any sequence of arrow key
  presses, then the next tick. After the key presses the current direction is still the
  one the first tick left, and the pending direction is not its exact reverse: no key
  press stores a reverse. The second tick, when the game is running, applies that
  pending direction. So the direction after the second tick is never the exact negation
  of the direction after the first. Neither tick raises.
\<close>

theorem snake_never_reverses:
  assumes "reachable s0"
    and "snake_game_tick e1 s0 = Inr s1"
    and "s2 = foldl press s1 keys"
    and "snake_game_tick e2 s2 = Inr s3"
  shows "g_dir s2 = g_dir s1 \<and> g_pending s2 \<noteq> neg_dir (g_dir s1) \<and>
         (loop s2 SnakeGame \<and> \<not> g_paused s2 \<longrightarrow> g_dir s3 = g_pending s2) \<and>
         g_dir s3 \<noteq> neg_dir (g_dir s1)"
proof -
  have "game_inv s0" using assms(1) by (rule reachable_game_inv)
  from snake_game_tick_total [OF this, of e1] assms(2) have inv1: "game_inv s1" by auto
  from foldl_press [OF inv1, of keys] assms(3) have inv2: "game_inv s2" and dir2: "g_dir s2 = g_dir s1"
    by simp_all
  from inv2 dir2 have pend: "g_pending s2 \<noteq> neg_dir (g_dir s1)" and unit: "g_dir s1 \<noteq> neg_dir (g_dir s1)"
    by (auto simp: game_inv_def unit_dir_not_neg)
  from snake_game_tick_total [OF inv2, of e2] assms(4)
  have dir3: "g_dir s3 = (if loop s2 SnakeGame \<and> \<not> g_paused s2 then g_pending s2 else g_dir s2)"
    by auto
  show ?thesis
    using dir2 pend unit dir3 by auto
qed

lemma started_run:
  "case run [(Connect, env0), (Start SnakeGame, env0)] (app_init env0) of
     Inl err \<Rightarrow> False
   | Inr s0 \<Rightarrow>
       loop s0 SnakeGame \<and> \<not> g_paused s0 \<and>
       (case snake_game_tick env0 s0 of
          Inl err \<Rightarrow> False
        | Inr s1 \<Rightarrow>
            g_dir s1 = (0, 1) \<and>
            g_pending (foldl press s1 [ArrowUp, ArrowLeft]) = (- 1, 0) \<and>
            (case snake_game_tick env0 (foldl press s1 [ArrowUp, ArrowLeft]) of
               Inl err \<Rightarrow> False
             | Inr s3 \<Rightarrow> g_dir s3 = (- 1, 0) \<and> g_snake s3 = [(2, 4), (3, 4), (3, 3)]))"
  by code_simp

theorem snake_never_reverses_witness:
  "\<exists>s0 s1 s3.
     reachable s0 \<and> loop s0 SnakeGame \<and> \<not> g_paused s0 \<and>
     snake_game_tick env0 s0 = Inr s1 \<and> g_dir s1 = (0, 1) \<and>
     g_pending (foldl press s1 [ArrowUp, ArrowLeft]) = (- 1, 0) \<and>
     snake_game_tick env0 (foldl press s1 [ArrowUp, ArrowLeft]) = Inr s3 \<and>
     g_dir s3 = (- 1, 0) \<and> g_dir s3 \<noteq> neg_dir (g_dir s1)"
proof -
  from started_run obtain s0 where s0: "run [(Connect, env0), (Start SnakeGame, env0)] (app_init env0) = Inr s0"
    by (auto split: sum.splits)
  with started_run have a: "loop s0 SnakeGame" "\<not> g_paused s0" by simp_all
  from started_run s0 obtain s1 where s1: "snake_game_tick env0 s0 = Inr s1"
    by (auto split: sum.splits)
  with started_run s0 have b: "g_dir s1 = (0, 1)" "g_pending (foldl press s1 [ArrowUp, ArrowLeft]) = (- 1, 0)"
    by simp_all
  from started_run s0 s1 obtain s3 where s3: "snake_game_tick env0 (foldl press s1 [ArrowUp, ArrowLeft]) = Inr s3"
    by (auto split: sum.splits)
  with started_run s0 s1 have c: "g_dir s3 = (- 1, 0)" by simp
  have r: "reachable s0"
    using reachable_init s0 by (rule run_reachable)
  from snake_never_reverses [OF r s1 refl s3] have "g_dir s3 \<noteq> neg_dir (g_dir s1)" by simp
  with r a s1 b s3 c show ?thesis by blast
qed

text \<open>
  C6 (amended). In every reachable state the food cell is on the matrix and does not
  overlap the snake, unless the snake occupies all 63 cells of the matrix: then no cell
  is free and the food is the fallback cell (3,4) of \<^verbatim>\<open>_rand_food\<close>.
\<close>

theorem food_off_snake:
  assumes "reachable s"
  shows "in_grid (g_food s) \<and>
         (g_food s \<notin> set (g_snake s) \<or>
          (set all_cells \<subseteq> set (g_snake s) \<and> g_food s = (3, 4)))"
  using reachable_game_inv [OF assms] by (simp add: game_inv_def)

lemma init_food: "g_food (app_init env0) = (0, 0) \<and> g_snake (app_init env0) = [(3, 2), (3, 1), (3, 0)]"
  by code_simp

theorem food_off_snake_witness:
  "reachable (app_init env0) \<and> g_food (app_init env0) = (0, 0) \<and>
   g_snake (app_init env0) = [(3, 2), (3, 1), (3, 0)] \<and>
   g_food (app_init env0) \<notin> set (g_snake (app_init env0))"
  using food_off_snake [OF reachable_init [of env0]] init_food reachable_init [of env0]
  by simp

lemma full_board_eval:
  "case run full_board_run (app_init (pick_env 28)) of
     Inl err \<Rightarrow> False
   | Inr s \<Rightarrow> length (g_snake s) = 63 \<and> g_food s = (3, 4) \<and> g_food s \<in> set (g_snake s)"
  by code_simp

text \<open>
  C6 as stated fails: the run \<open>full_board_run\<close> from start-up ends with the snake on all
  63 cells and the food on the cell (3,4), which the snake occupies.
\<close>

theorem food_on_full_board_counterexample:
  "case run full_board_run (app_init (pick_env 28)) of
     Inl err \<Rightarrow> False
   | Inr s \<Rightarrow> reachable s \<and> length (g_snake s) = 63 \<and> g_food s = (3, 4) \<and>
              g_food s \<in> set (g_snake s)"
proof -
  from full_board_eval obtain s where s: "run full_board_run (app_init (pick_env 28)) = Inr s"
    by (auto split: sum.splits)
  have "reachable s"
    using reachable_init s by (rule run_reachable)
  with full_board_eval s show ?thesis by auto
qed

subsection \<open>Starting an effect\<close>

lemma mm_clear_eq: "mm_clear v = send_all [mm_clear_frame] v"
  by (simp add: mm_clear_def mm_clear_frame_def send_all_one eval_nat_numeral)

lemma on_vfd_mm_send_all:
  "on_vfd (mm_send_cols cols) s =
     Inr (s\<lparr>vfd := send_all [[0x1B, 0x31] @ map (\<lambda>c. c AND 0x7F) (rev cols)] (vfd s)\<rparr>)"
  by (simp add: on_vfd_mm_send_cols send_all_one)

lemma ex_send_all [simp]: "\<exists>ws. send_all X v = send_all ws v"
  by blast

lemma ex_send_all_nil [simp]: "\<exists>ws. v = send_all ws v"
  by (rule exI [where x = "[]"]) simp

lemma ex_clear_frame [simp]:
  "\<exists>frame. send_all [c, 0x1B # 0x31 # xs] v = send_all [c, frame] v \<and> is_mm_frame frame"
  by (rule exI [where x = "0x1B # 0x31 # xs"]) (simp add: is_mm_frame_def)

lemma ball_start_summary:
  "case ball_start s of
     Inl err \<Rightarrow> True
   | Inr s' \<Rightarrow>
       loop s' = (loop (stop_all_mm s))(BouncyBall := True) \<and>
       timers s' = timers s @ [(ms s BouncyBall, BallTick)] \<and>
       (\<exists>frame. vfd s' = send_all [mm_clear_frame, frame] (vfd s) \<and> is_mm_frame frame)"
  by (simp add: ball_start_def ball_tick_def Let_def after_def and_then_def on_vfd_mm_send_all
      stop_all_mm_def mm_clear_eq send_all_twice split: sum.split prod.split)

lemma stickman_start_summary:
  "case stickman_start s of
     Inl err \<Rightarrow> True
   | Inr s' \<Rightarrow>
       loop s' = (loop (stop_all_mm s))(Stickman := True) \<and>
       timers s' = timers s @ [(ms s Stickman, StickmanTick)] \<and>
       (\<exists>frame. vfd s' = send_all [mm_clear_frame, frame] (vfd s) \<and> is_mm_frame frame)"
  by (simp add: stickman_start_def stickman_tick_def Let_def after_def and_then_def on_vfd_mm_send_all
      stop_all_mm_def mm_clear_eq send_all_twice split: sum.split prod.split)

lemma gol_start_summary:
  "case gol_start s of
     Inl err \<Rightarrow> True
   | Inr s' \<Rightarrow>
       loop s' = (loop (stop_all_mm s))(Gol := True) \<and>
       timers s' = timers s @ [(ms s Gol, GolTick)] \<and>
       (\<exists>frame. vfd s' = send_all [mm_clear_frame, frame] (vfd s) \<and> is_mm_frame frame)"
  by (simp add: gol_start_def gol_tick_def Let_def after_def and_then_def on_vfd_mm_send_all
      stop_all_mm_def mm_clear_eq send_all_twice split: sum.split prod.split)

lemma clock_bars_start_summary:
  "case clock_bars_start e s of
     Inl err \<Rightarrow> True
   | Inr s' \<Rightarrow>
       loop s' = (loop (stop_all_mm s))(ClockBars := True) \<and>
       timers s' = timers s @ [(ms s ClockBars, ClockBarsTick)] \<and>
       (\<exists>frame. vfd s' = send_all [mm_clear_frame, frame] (vfd s) \<and> is_mm_frame frame)"
  by (simp add: clock_bars_start_def clock_bars_tick_def Let_def after_def and_then_def on_vfd_mm_send_all
      stop_all_mm_def mm_clear_eq send_all_twice split: sum.split prod.split)

lemma snake_game_tick_summary:
  "case snake_game_tick e s of
     Inl err \<Rightarrow> True
   | Inr s' \<Rightarrow>
       (\<forall>y. y \<noteq> SnakeGame \<longrightarrow> loop s' y = loop s y) \<and>
       (\<exists>ws. vfd s' = send_all ws (vfd s))"
  by (simp add: snake_game_tick_def Let_def after_def and_then_def on_vfd_mm_send_all
      status_text_eq show_snake_score_eq send_all_twice split: sum.split prod.split list.split)

lemma snake_game_start_summary:
  assumes "snake_game_start e s = Inr s'"
  shows "(\<forall>y. y \<noteq> SnakeGame \<longrightarrow> loop s' y = loop (stop_all_mm s) y) \<and>
         (\<exists>ws. vfd s' = send_all (mm_clear_frame # ws) (vfd s))"
proof -
  let ?s1 = "(stop_all_mm s)\<lparr>loop := (loop (stop_all_mm s))(SnakeGame := True), g_paused := False\<rparr>"
  let ?score = "line_writes 0 (take 16 (''SNAKE SCORE:'' @ fmt_2d (g_score ?s1))) @
                             line_writes 1 (take 16 ''Arrows / D-pad   '')"
  let ?s2 = "?s1\<lparr>vfd := send_all ?score (vfd ?s1)\<rparr>"
  from assms have tick: "snake_game_tick e ?s2 = Inr s'"
    by (simp add: snake_game_start_def Let_def show_snake_score_eq)
  from case_sumD [OF snake_game_tick_summary tick]
  obtain ws where s': "\<forall>y. y \<noteq> SnakeGame \<longrightarrow> loop s' y = loop ?s2 y" "vfd s' = send_all ws (vfd ?s2)"
    by blast
  have "vfd s' = send_all (mm_clear_frame # ?score @ ws) (vfd s)"
    using s'(2) by (simp add: stop_all_mm_def mm_clear_eq send_all_twice)
  moreover have "\<forall>y. y \<noteq> SnakeGame \<longrightarrow> loop s' y = loop (stop_all_mm s) y"
    using s'(1) by simp
  ultimately show ?thesis by blast
qed

lemma stop_all_mm_loop:
  "loop (stop_all_mm s) y = (if y \<in> set mm_group then False else loop s y)"
  by (simp add: stop_all_mm_def mm_group_def)

lemma v8_start_summary:
  assumes "x \<in> set v8_modes" and "start x e s = Inr s'"
  shows "(\<forall>y. y \<noteq> x \<longrightarrow> loop s' y = (if y \<in> set mm_group then False else loop s y)) \<and>
         (\<exists>ws. vfd s' = send_all (mm_clear_frame # ws) (vfd s) \<and>
               (x \<noteq> SnakeGame \<longrightarrow> (\<exists>frame. ws = [frame] \<and> is_mm_frame frame))) \<and>
         (x \<noteq> SnakeGame \<longrightarrow> loop s' x)"
proof -
  from assms(1) consider "x = BouncyBall" | "x = Stickman" | "x = Gol" | "x = ClockBars" | "x = SnakeGame"
    by (auto simp: v8_modes_def)
  then show ?thesis
  proof cases
    case 1
    with assms(2) have "ball_start s = Inr s'" by simp
    from case_sumD [OF ball_start_summary this] 1 show ?thesis
      by (auto simp: stop_all_mm_loop)
  next
    case 2
    with assms(2) have "stickman_start s = Inr s'" by simp
    from case_sumD [OF stickman_start_summary this] 2 show ?thesis
      by (auto simp: stop_all_mm_loop)
  next
    case 3
    with assms(2) have "gol_start s = Inr s'" by simp
    from case_sumD [OF gol_start_summary this] 3 show ?thesis
      by (auto simp: stop_all_mm_loop)
  next
    case 4
    with assms(2) have "clock_bars_start e s = Inr s'" by simp
    from case_sumD [OF clock_bars_start_summary this] 4 show ?thesis
      by (auto simp: stop_all_mm_loop)
  next
    case 5
    with assms(2) have "snake_game_start e s = Inr s'" by simp
    from snake_game_start_summary [OF this] 5 show ?thesis
      by (auto simp: stop_all_mm_loop)
  qed
qed

lemma v7_start_enabled:
  assumes "x \<in> set v7_effects" and "loop s x"
  shows "start x e s = Inr s"
proof -
  from assms(1) consider "x = VolSweep" | "x = WifiScan" | "x = IconWave" | "x = Marquee" | "x = Cylon" | "x = Spin" | "x = Twinkle" | "x = IconCarousel" | "x = IconPulse" | "x = EmailBlink" | "x = RecordBlink" | "x = TextBounce" | "x = MiniRain" | "x = MiniSnake"
    by (auto simp: v7_effects_def)
  then show ?thesis
  proof cases
    case 1
    with assms(2) show ?thesis by (simp add: vol_sweep_start_def)
  next
    case 2
    with assms(2) show ?thesis by (simp add: wifi_scan_start_def)
  next
    case 3
    with assms(2) show ?thesis by (simp add: icon_wave_start_def)
  next
    case 4
    with assms(2) show ?thesis by (simp add: marquee_start_def)
  next
    case 5
    with assms(2) show ?thesis by (simp add: cylon_start_def)
  next
    case 6
    with assms(2) show ?thesis by (simp add: spin_start_def)
  next
    case 7
    with assms(2) show ?thesis by (simp add: twinkle_start_def)
  next
    case 8
    with assms(2) show ?thesis by (simp add: icon_carousel_start_def)
  next
    case 9
    with assms(2) show ?thesis by (simp add: icon_pulse_start_def)
  next
    case 10
    with assms(2) show ?thesis by (simp add: email_blink_start_def)
  next
    case 11
    with assms(2) show ?thesis by (simp add: record_blink_start_def)
  next
    case 12
    with assms(2) show ?thesis by (simp add: text_bounce_start_def)
  next
    case 13
    with assms(2) show ?thesis by (simp add: rain_start_def)
  next
    case 14
    with assms(2) show ?thesis by (simp add: snake_start_def)
  qed
qed

lemma v7_mm_start_others:
  assumes "x \<in> set v7_mm" and "start x e s = Inr s'"
  shows "\<forall>y. y \<noteq> x \<longrightarrow> loop s' y = loop s y"
proof -
  from assms(1) consider "x = Spin" | "x = Twinkle" | "x = MiniRain" | "x = MiniSnake"
    by (auto simp: v7_mm_def)
  then show ?thesis
  proof cases
    case 1
    with assms(2) have "spin_start s = Inr s'" by simp
    from case_sumD [OF spin_start_quiet this] 1 show ?thesis by simp
  next
    case 2
    with assms(2) have "twinkle_start e s = Inr s'" by simp
    from case_sumD [OF twinkle_start_quiet this] 2 show ?thesis by simp
  next
    case 3
    with assms(2) have "rain_start e s = Inr s'" by simp
    from case_sumD [OF rain_start_quiet this] 3 show ?thesis by simp
  next
    case 4
    with assms(2) have "snake_start s = Inr s'" by simp
    from case_sumD [OF snake_start_quiet this] 4 show ?thesis by simp
  qed
qed

lemma tx_send_all_open: "is_open v \<Longrightarrow> tx (send_all ws v) = tx v @ ws"
  by (simp add: send_all_def)

text \<open>
  What the five start methods new in v8 do, each calling \<^verbatim>\<open>_stop_all_mm\<close> first: every
  other member of the mini-matrix group is disabled, the flags of the effects outside
  the group are left alone, and on an open port the clear frame of the mini-matrix is
  written first; what the started mode writes comes after it (for the four modes other
  than the game: exactly its first frame).
\<close>

lemma v8_start_exclusion:
  assumes "x \<in> set v8_modes" and "start x e s = Inr s'"
  shows "(\<forall>y \<in> set mm_group. y \<noteq> x \<longrightarrow> \<not> loop s' y) \<and>
         (\<forall>y. y \<notin> set mm_group \<longrightarrow> loop s' y = loop s y) \<and>
         (is_open (vfd s) \<longrightarrow>
            (\<exists>ws. tx (vfd s') = tx (vfd s) @ mm_clear_frame # ws \<and>
                  (x \<noteq> SnakeGame \<longrightarrow> (\<exists>frame. ws = [frame] \<and> is_mm_frame frame))))"
proof (intro conjI impI)
  from v8_start_summary [OF assms] obtain ws where
    l: "\<forall>y. y \<noteq> x \<longrightarrow> loop s' y = (if y \<in> set mm_group then False else loop s y)"
    and w: "vfd s' = send_all (mm_clear_frame # ws) (vfd s)"
      "x \<noteq> SnakeGame \<longrightarrow> (\<exists>frame. ws = [frame] \<and> is_mm_frame frame)"
    by blast
  from assms(1) have xin: "x \<in> set mm_group" by (auto simp: v8_modes_def mm_group_def)
  show "\<forall>y \<in> set mm_group. y \<noteq> x \<longrightarrow> \<not> loop s' y"
    using l by simp
  show "\<forall>y. y \<notin> set mm_group \<longrightarrow> loop s' y = loop s y"
    using l xin by auto
  assume "is_open (vfd s)"
  then have "tx (vfd s') = tx (vfd s) @ mm_clear_frame # ws"
    using w(1) by (simp add: tx_send_all_open)
  with w(2) show "\<exists>ws. tx (vfd s') = tx (vfd s) @ mm_clear_frame # ws \<and>
                     (x \<noteq> SnakeGame \<longrightarrow> (\<exists>frame. ws = [frame] \<and> is_mm_frame frame))"
    by blast
qed

text \<open>
  The example of the specification: the Game of Life started while twinkle is enabled.
  Twinkle is disabled, and the clear frame goes out before the first frame of the Game
  of Life (here a blinker in row 3).
\<close>

lemma gol_after_twinkle_eval:
  "case run [(Connect, env_blinker), (Start Twinkle, env_blinker)] (app_init env_blinker) of
     Inl err \<Rightarrow> False
   | Inr s \<Rightarrow>
       loop s Twinkle \<and> is_open (vfd s) \<and>
       (case start Gol env_blinker s of
          Inl err \<Rightarrow> False
        | Inr s' \<Rightarrow>
            loop s' Gol \<and> \<not> loop s' Twinkle \<and>
            tx (vfd s') = tx (vfd s) @ [mm_clear_frame, [0x1B, 0x31, 0, 0, 0, 8, 8, 8, 0, 0, 0]])"
  by code_simp

text \<open>
  C2. The four mini-matrix effects kept from v7 (spinner, twinkle, rain, decorative path
  snake) break the property: their start methods do not call \<^verbatim>\<open>_stop_all_mm\<close>. With the
  port open and the Game of Life enabled, its tick pending, starting twinkle leaves the
  Game of Life enabled and writes no clear frame, only the first twinkle frame. Both
  ticks are then pending; when they run, the Game of Life and twinkle each write their
  frame over the other's, and both stay scheduled.
\<close>

theorem twinkle_start_keeps_gol:
  "case run [(Connect, env_blinker), (Start Gol, env_blinker)] (app_init env_blinker) of
     Inl err \<Rightarrow> False
   | Inr s \<Rightarrow>
       loop s Gol \<and> \<not> loop s Twinkle \<and> is_open (vfd s) \<and> timers s = [(200, GolTick)] \<and>
       (case start Twinkle env_blinker s of
          Inl err \<Rightarrow> False
        | Inr s' \<Rightarrow>
            loop s' Gol \<and> loop s' Twinkle \<and>
            timers s' = [(200, GolTick), (100, TwinkleTick)] \<and>
            tx (vfd s') = tx (vfd s) @ [[0x1B, 0x31, 0, 0, 0, 0, 0, 0, 4, 2, 1]] \<and>
            (case run [(Fire 0, env_blinker), (Fire 0, env_blinker)] s' of
               Inl err \<Rightarrow> False
             | Inr s'' \<Rightarrow>
                 loop s'' Gol \<and> loop s'' Twinkle \<and>
                 timers s'' = [(200, GolTick), (100, TwinkleTick)] \<and>
                 tx (vfd s'') = tx (vfd s') @ [[0x1B, 0x31, 0, 0, 0, 0, 28, 0, 0, 0, 0],
                                               [0x1B, 0x31, 0, 0, 0, 0, 0, 0, 0, 0, 0]]))"
  by code_simp

text \<open>
  C3. The five start methods new in v8 break the property: they lack the check
  \<^verbatim>\<open>if self.loop_x: return\<close> with which the start method of every effect kept from v7
  begins. With the port open and the bouncing ball enabled, its tick pending, start
  again is not a no-op: it writes the clear frame, moves the ball, writes its frame and
  registers a second tick beside the pending one. When the two pending ticks run, each
  moves the ball and registers its successor: the effect has two tick chains from then
  on.
\<close>

theorem ball_start_twice:
  "case run [(Connect, env0), (Start BouncyBall, env0)] (app_init env0) of
     Inl err \<Rightarrow> False
   | Inr s \<Rightarrow>
       loop s BouncyBall \<and> is_open (vfd s) \<and> timers s = [(100, BallTick)] \<and>
       ball_pos s = (4, 5) \<and>
       (case start BouncyBall env0 s of
          Inl err \<Rightarrow> False
        | Inr s' \<Rightarrow>
            timers s' = [(100, BallTick), (100, BallTick)] \<and> ball_pos s' = (5, 6) \<and>
            tx (vfd s') = tx (vfd s) @ [mm_clear_frame, [0x1B, 0x31, 0, 0, 32, 0, 0, 0, 0, 0, 0]] \<and>
            (case run [(Fire 0, env0), (Fire 0, env0)] s' of
               Inl err \<Rightarrow> False
             | Inr s'' \<Rightarrow>
                 timers s'' = [(100, BallTick), (100, BallTick)] \<and> ball_pos s'' = (5, 8)))"
  by code_simp

text \<open>
  Stop clears the flag and leaves the pending callback registered. So an effect kept
  from v7 can have two tick chains as well: started again before the pending tick has
  run, the old tick finds the flag set and goes on beside the new one.
\<close>

lemma spin_stop_start_two_chains:
  "case run [(Connect, env0), (Start Spin, env0), (Stop Spin, env0)] (app_init env0) of
     Inl err \<Rightarrow> False
   | Inr s \<Rightarrow>
       \<not> loop s Spin \<and> timers s = [(120, SpinTick)] \<and>
       (case start Spin env0 s of
          Inl err \<Rightarrow> False
        | Inr s' \<Rightarrow>
            loop s' Spin \<and> timers s' = [(120, SpinTick), (120, SpinTick)] \<and>
            (case run [(Fire 0, env0), (Fire 0, env0)] s' of
               Inl err \<Rightarrow> False
             | Inr s'' \<Rightarrow> timers s'' = [(120, SpinTick), (120, SpinTick)]))"
  by code_simp

end
